(* ===== verification/Prelude.thy ===== *)
theory Prelude
  imports Main "HOL-Library.Word"
begin

text \<open>
  The vocabulary every component shares. It fixes how the Rust of the repository is
  written in HOL: machine integers are words of their width, lengths and slice offsets
  (\<open>usize\<close>) are natural numbers, a \<open>Result\<close> is the datatype \<open>result\<close> and the \<open>?\<close>
  operator is \<open>and_then\<close>. Below that come the conversions the code calls on integers
  (\<open>to_be_bytes\<close>, \<open>from_be_bytes\<close>, \<open>saturating_add\<close>, \<open>saturating_sub\<close>) and on slices
  (\<open>chunks\<close>, \<open>get\<close>), each with the lemmas the component theories use. The lemmas that
  unfold the \<open>?\<close> operator are collected in \<open>result_simps\<close>; those on byte strings in
  \<open>byte_simps\<close>.
\<close>

unbundle bit_operations_syntax

named_theorems result_simps \<open>rules that open results chained by and_then\<close>

named_theorems byte_simps \<open>rules for the big-endian encoding of integers\<close>

section \<open>Machine integers\<close>

type_synonym u8 = "8 word"
type_synonym u16 = "16 word"
type_synonym u32 = "32 word"
type_synonym u64 = "64 word"
type_synonym bytes = "u8 list"

lemma unat_u8_less [simp]: "unat (b :: u8) < 256"
  using unsigned_less [of b] by simp

lemma unat_u16_less [simp]: "unat (b :: u16) < 65536"
  using unsigned_less [of b] by simp

lemma unat_u64_less [simp]: "unat (b :: u64) < 18446744073709551616"
  using unsigned_less [of b] by simp

lemma unat_of_nat_u8 [simp]: "unat (of_nat n :: u8) = n mod 256"
  by (simp add: unsigned_of_nat take_bit_eq_mod)

lemma u8_eqI: "unat a = unat b \<Longrightarrow> a = (b :: u8)"
  by (rule unsigned_word_eqI)

lemma unat_of_nat_u16 [simp]: "unat (of_nat n :: u16) = n mod 65536"
  by (simp add: unsigned_of_nat take_bit_eq_mod)

lemma unat_of_nat_u64 [simp]: "unat (of_nat n :: u64) = n mod 18446744073709551616"
  by (simp add: unsigned_of_nat take_bit_eq_mod)

lemma u8_bit_ge [simp]: "8 \<le> n \<Longrightarrow> \<not> bit (w :: u8) n"
  by (auto dest: bit_imp_le_length)

lemma take_bit_word_self: "unat w < 2 ^ n \<Longrightarrow> take_bit n w = (w :: 'a::len word)"
  unfolding word_unat_eq_iff by (simp add: unsigned_take_bit_eq take_bit_nat_eq_self)

text \<open>\<open>u64::saturating_add\<close> and \<open>u64::saturating_sub\<close>.\<close>

definition saturating_add :: "u64 \<Rightarrow> u64 \<Rightarrow> u64" where
  "saturating_add a b = (if unat a + unat b < 2 ^ 64 then a + b else - 1)"

definition saturating_sub :: "u64 \<Rightarrow> u64 \<Rightarrow> u64" where
  "saturating_sub a b = (if b \<le> a then a - b else 0)"

text \<open>\<open>u64::checked_add\<close>: \<open>None\<close> when the sum does not fit the width.\<close>

definition checked_add :: "u64 \<Rightarrow> u64 \<Rightarrow> u64 option" where
  "checked_add a b = (if unat a + unat b < 2 ^ 64 then Some (a + b) else None)"

lemma unat_max_u64 [simp]: "unat (- 1 :: u64) = 18446744073709551615"
  by (simp add: unsigned_minus_1_eq_mask mask_eq_exp_minus_1)

lemma unat_saturating_add:
  "unat (saturating_add a b) = min (unat a + unat b) 18446744073709551615"
  by (auto simp: saturating_add_def unat_word_ariths min_def)

lemma unat_saturating_sub: "unat (saturating_sub a b) = unat a - unat b"
  by (auto simp: saturating_sub_def unat_sub word_le_nat_alt)

lemma checked_add_Some:
  "checked_add a b = Some c \<longleftrightarrow> unat a + unat b < 2 ^ 64 \<and> c = a + b"
  by (auto simp: checked_add_def)

section \<open>Results and the \<open>?\<close> operator\<close>

datatype ('a, 'e) result = Ok (unwrap: 'a) | Err (unwrap_err: 'e)

primrec and_then :: "('a, 'e) result \<Rightarrow> ('a \<Rightarrow> ('b, 'e) result) \<Rightarrow> ('b, 'e) result" where
  "and_then (Ok x) f = f x"
| "and_then (Err e) f = Err e"

primrec map_err :: "('e \<Rightarrow> 'f) \<Rightarrow> ('a, 'e) result \<Rightarrow> ('a, 'f) result" where
  "map_err f (Ok x) = Ok x"
| "map_err f (Err e) = Err (f e)"

primrec is_ok :: "('a, 'e) result \<Rightarrow> bool" where
  "is_ok (Ok x) = True"
| "is_ok (Err e) = False"

primrec ok_or :: "'a option \<Rightarrow> 'e \<Rightarrow> ('a, 'e) result" where
  "ok_or None e = Err e"
| "ok_or (Some x) e = Ok x"

lemma and_then_Ok_iff [result_simps]:
  "and_then r f = Ok y \<longleftrightarrow> (\<exists>x. r = Ok x \<and> f x = Ok y)"
  by (cases r) auto

lemma and_then_Err_iff [result_simps]:
  "and_then r f = Err e \<longleftrightarrow> r = Err e \<or> (\<exists>x. r = Ok x \<and> f x = Err e)"
  by (cases r) auto

lemma map_err_Ok_iff [result_simps]: "map_err f r = Ok y \<longleftrightarrow> r = Ok y"
  by (cases r) auto

lemma map_err_Err_iff [result_simps]: "map_err f r = Err e \<longleftrightarrow> (\<exists>d. r = Err d \<and> e = f d)"
  by (cases r) auto

lemma ok_or_Ok_iff [result_simps]: "ok_or x e = Ok y \<longleftrightarrow> x = Some y"
  by (cases x) auto

lemma ok_or_Err_iff [result_simps]: "ok_or x e = Err d \<longleftrightarrow> x = None \<and> d = e"
  by (cases x) auto

text \<open>\<open>Iterator::collect\<close> into a \<open>Result\<close>: the first error stops it.\<close>

fun collect_results :: "('a, 'e) result list \<Rightarrow> ('a list, 'e) result" where
  "collect_results [] = Ok []"
| "collect_results (r # rs) = and_then r (\<lambda>x. and_then (collect_results rs) (\<lambda>xs. Ok (x # xs)))"

lemma is_ok_iff: "is_ok r \<longleftrightarrow> (\<exists>x. r = Ok x)"
  by (cases r) auto

section \<open>Big-endian bytes\<close>

text \<open>
  \<open>u16_hi\<close> and \<open>u16_lo\<close> are the two bytes of \<open>u16::to_be_bytes\<close>, \<open>u16_of_be\<close> is
  \<open>u16::from_be_bytes\<close>. \<open>be_bytes n\<close> is \<open>to_be_bytes\<close> of an \<open>n\<close>-byte integer and
  \<open>be_value\<close> the shift-and-or fold that reads such bytes back.
\<close>

definition u16_hi :: "u16 \<Rightarrow> u8" where
  "u16_hi w = ucast (drop_bit 8 w)"

definition u16_lo :: "u16 \<Rightarrow> u8" where
  "u16_lo w = ucast w"

definition u16_of_be :: "u8 \<Rightarrow> u8 \<Rightarrow> u16" where
  "u16_of_be hi lo = (push_bit 8 (ucast hi) OR ucast lo)"

lemma u16_of_be_parts [simp]: "u16_of_be (u16_hi w) (u16_lo w) = w"
  unfolding u16_of_be_def u16_hi_def u16_lo_def
  by (rule bit_word_eqI) (auto simp: bit_simps)

lemma u16_hi_of_be [simp]: "u16_hi (u16_of_be h l) = h"
  unfolding u16_of_be_def u16_hi_def
  by (rule bit_word_eqI) (auto simp: bit_simps)

lemma u16_lo_of_be [simp]: "u16_lo (u16_of_be h l) = l"
  unfolding u16_of_be_def u16_lo_def
  by (rule bit_word_eqI) (auto simp: bit_simps)

lemma u16_of_be_inject [simp]: "u16_of_be h l = u16_of_be h' l' \<longleftrightarrow> h = h' \<and> l = l'"
  by (metis u16_hi_of_be u16_lo_of_be)

primrec be_bytes :: "nat \<Rightarrow> nat \<Rightarrow> bytes" where
  "be_bytes 0 v = []"
| "be_bytes (Suc n) v = of_nat (v div 256 ^ n) # be_bytes n v"

definition be_value :: "bytes \<Rightarrow> nat" where
  "be_value bs = foldl (\<lambda>acc b. push_bit 8 acc OR unat b) 0 bs"

lemma push_or_eq: "push_bit 8 acc OR unat (b :: u8) = acc * 256 + unat b"
proof -
  have "push_bit 8 acc + unat b = push_bit 8 acc OR unat b"
    by (rule disjunctive_add) (auto simp: bit_simps)
  then show ?thesis by (simp add: push_bit_eq_mult)
qed

lemma be_value_Nil [simp]: "be_value [] = 0"
  by (simp add: be_value_def)

lemma be_value_snoc: "be_value (bs @ [b]) = be_value bs * 256 + unat b"
  by (simp add: be_value_def push_or_eq)

lemma be_value_append: "be_value (as @ bs) = be_value as * 256 ^ length bs + be_value bs"
proof (induction bs rule: rev_induct)
  case (snoc b bs)
  show ?case
    by (simp only: append.assoc [symmetric] be_value_snoc snoc) (simp add: algebra_simps)
qed simp

lemma be_value_Cons: "be_value (b # bs) = unat b * 256 ^ length bs + be_value bs"
proof -
  have "be_value [b] = unat b"
    using be_value_snoc [of "[]" b] by simp
  then show ?thesis
    using be_value_append [of "[b]" bs] by simp
qed

lemma length_be_bytes [simp]: "length (be_bytes n v) = n"
  by (induction n) auto

lemma be_bytes_numeral:
  "be_bytes (numeral k) v = of_nat (v div 256 ^ pred_numeral k) # be_bytes (pred_numeral k) v"
  by (simp add: numeral_eq_Suc)

lemma be_bytes_unfold:
  "be_bytes 1 v = [of_nat v]"
  "be_bytes 2 v = [of_nat (v div 256), of_nat v]"
  "be_bytes 3 v = [of_nat (v div 65536), of_nat (v div 256), of_nat v]"
  "be_bytes 4 v = [of_nat (v div 16777216), of_nat (v div 65536), of_nat (v div 256), of_nat v]"
  by (simp_all add: be_bytes_numeral)

lemma drop_be_bytes_4: "drop 1 (be_bytes 4 v) = be_bytes 3 v"
  by (simp add: be_bytes_unfold)

lemma be_value_less: "be_value bs < 256 ^ length bs"
proof (induction bs)
  case (Cons b bs)
  have "unat b * 256 ^ length bs + be_value bs < (unat b + 1) * 256 ^ length bs"
    using Cons by simp
  also have "\<dots> \<le> 256 * 256 ^ length bs"
    using unat_u8_less [of b] by (intro mult_le_mono1) linarith
  finally show ?case by (simp add: be_value_Cons)
qed simp

lemma be_value_be_bytes_mod: "be_value (be_bytes n v) = v mod 256 ^ n"
proof (induction n)
  case (Suc n)
  have "v mod (256 ^ n * 256) = 256 ^ n * (v div 256 ^ n mod 256) + v mod 256 ^ n"
    by (rule mod_mult2_eq)
  with Suc show ?case by (simp add: be_value_Cons mult.commute)
qed simp

lemma be_value_be_bytes [byte_simps]: "v < 256 ^ n \<Longrightarrow> be_value (be_bytes n v) = v"
  by (simp add: be_value_be_bytes_mod)

lemma be_bytes_mod: "be_bytes n (v mod 256 ^ n) = be_bytes n v"
proof -
  have "k \<le> n \<Longrightarrow> be_bytes k (v mod 256 ^ n) = be_bytes k v" for k
  proof (induction k)
    case (Suc k)
    then obtain d where n: "n = Suc k + d" by (metis le_Suc_ex)
    have "v mod 256 ^ n div 256 ^ k = v div 256 ^ k mod 256 ^ Suc d"
      using mod_mult2_eq [of v "256 ^ k" "256 ^ Suc d"]
      by (simp add: n power_add algebra_simps)
    then have "(of_nat (v mod 256 ^ n div 256 ^ k) :: u8) = of_nat (v div 256 ^ k)"
      by (intro u8_eqI) (simp add: mod_mod_cancel)
    with Suc show ?case by simp
  qed simp
  then show ?thesis by simp
qed

lemma be_bytes_be_value [byte_simps]: "be_bytes (length bs) (be_value bs) = bs"
proof (induction bs)
  case (Cons b bs)
  have lt: "be_value bs < 256 ^ length bs" by (rule be_value_less)
  have "be_bytes (length bs) (be_value (b # bs)) = be_bytes (length bs) (be_value bs)"
    using be_bytes_mod [of "length bs" "be_value (b # bs)"] lt by (simp add: be_value_Cons)
  moreover have "be_value (b # bs) div 256 ^ length bs = unat b"
    using lt by (simp add: be_value_Cons)
  ultimately show ?case using Cons by simp
qed simp

section \<open>Slices\<close>

text \<open>
  \<open>slice_get bytes i j\<close> is \<open>bytes.get(i..j)\<close>: \<open>None\<close> when the range does not lie in the
  slice. \<open>copy_into dst start src\<close> is \<open>dst[start..start + src.len()].copy_from_slice(src)\<close> for
  a destination long enough, and \<open>u8_try_from\<close> is \<open>u8::try_from\<close> on a \<open>usize\<close>. \<open>chunks n\<close> is \<open>slice::chunks(n)\<close>: consecutive pieces of \<open>n\<close> elements, the last
  one shorter. Rust panics on chunk size zero, which no caller passes.
\<close>

definition copy_into :: "'a list \<Rightarrow> nat \<Rightarrow> 'a list \<Rightarrow> 'a list" where
  "copy_into dst start src = take start dst @ src @ drop (start + length src) dst"

definition u8_try_from :: "nat \<Rightarrow> u8 option" where
  "u8_try_from n = (if n < 256 then Some (of_nat n) else None)"

definition slice_get :: "'a list \<Rightarrow> nat \<Rightarrow> nat \<Rightarrow> 'a list option" where
  "slice_get xs i j = (if i \<le> j \<and> j \<le> length xs then Some (take (j - i) (drop i xs)) else None)"

lemma slice_get_Some_iff:
  "slice_get xs i j = Some ys \<longleftrightarrow> i \<le> j \<and> j \<le> length xs \<and> ys = take (j - i) (drop i xs)"
  by (auto simp: slice_get_def)

lemma length_copy_into [simp]:
  "start + length src \<le> length dst \<Longrightarrow> length (copy_into dst start src) = length dst"
  by (simp add: copy_into_def)

lemma take_copy_into:
  "start + length src \<le> length dst \<Longrightarrow>
     take (start + length src) (copy_into dst start src) = take start dst @ src"
  by (simp add: copy_into_def)

lemma take_copy_into_le:
  "n \<le> start \<Longrightarrow> start \<le> length dst \<Longrightarrow> take n (copy_into dst start src) = take n dst"
  by (simp add: copy_into_def)

lemma copy_into_zero: "copy_into dst 0 src = src @ drop (length src) dst"
  by (simp add: copy_into_def)

lemma sign_bit_clear:
  assumes "b < (0x80 :: u8)"
  shows "b AND 0x80 = 0"
proof -
  have "unat b div 128 = 0" using assms by (simp add: word_less_nat_alt)
  then have "\<not> bit (unat b) 7" by (simp add: bit_iff_odd)
  then have "\<not> bit b 7" by (simp add: bit_unsigned_iff)
  then show ?thesis using and_exp_eq_0_iff_not_bit [of b 7] by simp
qed

lemma u8_try_from_Some [simp]: "n < 256 \<Longrightarrow> u8_try_from n = Some (of_nat n)"
  by (simp add: u8_try_from_def)

function chunks :: "nat \<Rightarrow> 'a list \<Rightarrow> 'a list list" where
  "chunks n xs = (if n = 0 \<or> xs = [] then [] else take n xs # chunks n (drop n xs))"
  by pat_completeness auto
termination
  by (relation "measure (\<lambda>(n, xs). length xs)") auto

declare chunks.simps [simp del]

lemma chunks_Nil [simp]: "chunks n [] = []"
  by (simp add: chunks.simps)

lemma chunks_unfold:
  "0 < n \<Longrightarrow> xs \<noteq> [] \<Longrightarrow> chunks n xs = take n xs # chunks n (drop n xs)"
  by (subst chunks.simps) simp

lemma chunks_short: "0 < n \<Longrightarrow> xs \<noteq> [] \<Longrightarrow> length xs \<le> n \<Longrightarrow> chunks n xs = [xs]"
  by (simp add: chunks_unfold)

lemma concat_chunks: "0 < n \<Longrightarrow> concat (chunks n xs) = xs"
proof (induction n xs rule: chunks.induct)
  case (1 n xs)
  show ?case
  proof (cases "xs = []")
    case False
    with 1 show ?thesis by (simp add: chunks_unfold)
  qed simp
qed

lemma length_chunks: "0 < n \<Longrightarrow> length (chunks n xs) = (length xs + (n - 1)) div n"
proof (induction n xs rule: chunks.induct)
  case (1 n xs)
  show ?case
  proof (cases "xs = []")
    case False
    have "(length xs + (n - 1)) div n = Suc ((length xs - n + (n - 1)) div n)"
      if "n \<le> length xs"
    proof -
      have "length xs + (n - 1) = length xs - n + (n - 1) + n" using that by simp
      then show ?thesis using 1 by (metis div_add_self2 Suc_eq_plus1 not_gr_zero)
    qed
    moreover have "(length xs + (n - 1)) div n = 1" "drop n xs = []" if "length xs < n"
      using that False 1 by (cases xs; simp add: div_add_self2)+
    ultimately show ?thesis
      using 1 False by (cases "n \<le> length xs") (simp_all add: chunks_unfold)
  qed (use 1 in simp)
qed

lemma chunks_eq_Nil_iff: "0 < n \<Longrightarrow> chunks n xs = [] \<longleftrightarrow> xs = []"
  by (cases "xs = []") (auto simp: chunks_unfold)

lemma chunks_bounds: "c \<in> set (chunks n xs) \<Longrightarrow> c \<noteq> [] \<and> length c \<le> n"
proof (induction n xs rule: chunks.induct)
  case (1 n xs)
  show ?case
  proof (cases "n = 0 \<or> xs = []")
    case True
    with 1 show ?thesis by (simp add: chunks.simps)
  next
    case False
    with 1 show ?thesis by (auto simp: chunks_unfold)
  qed
qed

section \<open>Self-delimiting records\<close>

text \<open>
  The contract between an encoder of records and the decoder that reads one record off the
  front of a buffer: the decoder recovers what was encoded whatever follows it, and reports
  how long it was. The clients are the readers of record sequences. Two encodings can then
  never be confused, and a reader that repeats the decoder splits a concatenation of
  records into exactly those records.
\<close>

locale record_codec =
  fixes enc :: "'a \<Rightarrow> ('b list, 'e) result"
    and dec :: "'b list \<Rightarrow> ('c, 'd) result"
    and view :: "'a \<Rightarrow> nat \<Rightarrow> 'c"
    and size_of :: "'c \<Rightarrow> nat"
  assumes dec_enc: "enc x = Ok w \<Longrightarrow> dec (w @ rest) = Ok (view x (length w))"
    and size_view: "size_of (view x n) = n"
    and enc_nonempty: "enc x = Ok w \<Longrightarrow> w \<noteq> []"
begin

lemma prefix_free:
  assumes "enc x = Ok v" "enc y = Ok w" "v @ r = w @ s"
  shows "v = w" and "r = s" and "view x (length v) = view y (length w)"
proof -
  from assms have "view x (length v) = view y (length w)"
    by (metis dec_enc result.inject(1))
  moreover from this have "length v = length w"
    by (metis size_view)
  ultimately show "v = w" "r = s" "view x (length v) = view y (length w)"
    using assms(3) by auto
qed

end

locale record_reader = record_codec +
  fixes items :: "'b list \<Rightarrow> ('c, 'd) result list"
  assumes items_Nil: "items [] = []"
    and items_step: "bs \<noteq> [] \<Longrightarrow> dec bs = Ok p \<Longrightarrow> items bs = Ok p # items (drop (size_of p) bs)"
begin

lemma items_concat:
  "list_all2 (\<lambda>x w. enc x = Ok w) xs ws \<Longrightarrow>
   items (concat ws) = map2 (\<lambda>x w. Ok (view x (length w))) xs ws"
proof (induction xs ws rule: list_all2_induct)
  case Nil
  show ?case by (simp add: items_Nil)
next
  case (Cons x xs w ws)
  then have "items (w @ concat ws) = Ok (view x (length w)) # items (concat ws)"
    using items_step [OF _ dec_enc [OF Cons(1)], of "concat ws"] enc_nonempty [of x w]
    by (simp add: size_view)
  with Cons show ?case by simp
qed

end

end
