(* ===== verification/Ber.thy ===== *)
theory Ber
  imports Prelude
begin

text \<open>
  The BER-TLV crate (\<open>crates/ber/src/lib.rs\<close>): the encoder \<open>BerEncoder\<close> with its free
  functions \<open>tlv\<close> and \<open>tlv2\<close>, the decoder \<open>BerTlvAny::parse\<close>, the typed promotion
  \<open>expect\<close> and the child iterator \<open>BerTlvIter\<close>. The encoder's buffer is the list it has
  assembled so far; the decoder keeps its cursor as an index into the input, as the code
  does. The theory shows that the decoder reads back what the encoder wrote, in front of
  any continuation, that a parse looks at no byte past the record it reports, and that the
  iterator ends and splits a sequence of records into exactly those records.
\<close>

section \<open>Encoder\<close>

definition SHORT_FORM_CEILING :: nat where "SHORT_FORM_CEILING = 0x80"
definition LONG_FORM_1B :: u8 where "LONG_FORM_1B = 0x81"
definition LONG_FORM_2B :: u8 where "LONG_FORM_2B = 0x82"
definition LONG_FORM_3B :: u8 where "LONG_FORM_3B = 0x83"
definition LONG_FORM_4B :: u8 where "LONG_FORM_4B = 0x84"
definition U24_MAX :: nat where "U24_MAX = 2 ^ 24 - 1"
definition MULTI_BYTE_TAG_MASK :: u8 where "MULTI_BYTE_TAG_MASK = 0x1F"
definition TAG_MORE_OCTETS :: u8 where "TAG_MORE_OCTETS = 0x80"

lemmas ber_consts = SHORT_FORM_CEILING_def LONG_FORM_1B_def LONG_FORM_2B_def LONG_FORM_3B_def
  LONG_FORM_4B_def U24_MAX_def MULTI_BYTE_TAG_MASK_def TAG_MORE_OCTETS_def

datatype BerEncodeError = LengthTooLarge nat | MalformedTag u16

text \<open>
  The push operations return the buffer they leave together with their result, because a
  push that fails on the length has already appended the tag.
\<close>

definition push_length :: "bytes \<Rightarrow> nat \<Rightarrow> bytes \<times> (unit, BerEncodeError) result" where
  "push_length out len =
     (if len < SHORT_FORM_CEILING then (out @ [of_nat len], Ok ())
      else if len < 2 ^ 8 then (out @ [LONG_FORM_1B, of_nat len], Ok ())
      else if len < 2 ^ 16 then (out @ [LONG_FORM_2B] @ be_bytes 2 len, Ok ())
      else if len \<le> U24_MAX then (out @ [LONG_FORM_3B] @ drop 1 (be_bytes 4 len), Ok ())
      else if len < 2 ^ 32 then (out @ [LONG_FORM_4B] @ be_bytes 4 len, Ok ())
      else (out, Err (LengthTooLarge len)))"

definition push_tlv :: "bytes \<Rightarrow> u8 \<Rightarrow> bytes \<Rightarrow> bytes \<times> (unit, BerEncodeError) result" where
  "push_tlv out tag value =
     (if tag AND MULTI_BYTE_TAG_MASK = MULTI_BYTE_TAG_MASK
      then (out, Err (MalformedTag (ucast tag)))
      else case push_length (out @ [tag]) (length value) of
             (out', Err e) \<Rightarrow> (out', Err e)
           | (out', Ok _) \<Rightarrow> (out' @ value, Ok ()))"

definition push_tlv_tag2 :: "bytes \<Rightarrow> u16 \<Rightarrow> bytes \<Rightarrow> bytes \<times> (unit, BerEncodeError) result" where
  "push_tlv_tag2 out tag2 value =
     (let tag_hi = u16_hi tag2; tag_lo = u16_lo tag2 in
      if tag_hi AND MULTI_BYTE_TAG_MASK \<noteq> MULTI_BYTE_TAG_MASK \<or> tag_lo AND TAG_MORE_OCTETS \<noteq> 0
      then (out, Err (MalformedTag tag2))
      else case push_length (out @ [tag_hi] @ [tag_lo]) (length value) of
             (out', Err e) \<Rightarrow> (out', Err e)
           | (out', Ok _) \<Rightarrow> (out' @ value, Ok ()))"

definition tlv :: "u8 \<Rightarrow> bytes \<Rightarrow> (bytes, BerEncodeError) result" where
  "tlv tag value =
     (case push_tlv [] tag value of (out, Ok _) \<Rightarrow> Ok out | (out, Err e) \<Rightarrow> Err e)"

definition tlv2 :: "u16 \<Rightarrow> bytes \<Rightarrow> (bytes, BerEncodeError) result" where
  "tlv2 tag2 value =
     (case push_tlv_tag2 [] tag2 value of (out, Ok _) \<Rightarrow> Ok out | (out, Err e) \<Rightarrow> Err e)"

section \<open>Decoder\<close>

datatype BerError =
    Empty
  | Truncated
  | UnsupportedLengthForm
  | UnsupportedTagForm
  | IntegerOutOfRange
  | UnexpectedTag (expected: u16) (got: u16)

record BerTlvAny =
  tlv_tag :: u16
  tlv_value :: bytes
  tlv_size :: nat

text \<open>The closure \<open>next\<close> of \<open>parse\<close>: one byte at the cursor, which then moves on.\<close>

definition ber_next :: "bytes \<Rightarrow> nat \<Rightarrow> bool \<Rightarrow> (u8 \<times> nat, BerError) result" where
  "ber_next bytes idx label_first_byte =
     (if idx < length bytes then Ok (bytes ! idx, idx + 1)
      else Err (if label_first_byte \<and> idx = 0 then Empty else Truncated))"

definition ber_tag :: "bytes \<Rightarrow> nat \<Rightarrow> (u16 \<times> nat, BerError) result" where
  "ber_tag bytes idx =
     and_then (ber_next bytes idx True) (\<lambda>(first, idx).
       if first AND MULTI_BYTE_TAG_MASK = MULTI_BYTE_TAG_MASK
       then and_then (ber_next bytes idx False) (\<lambda>(second, idx).
              if second AND TAG_MORE_OCTETS \<noteq> 0 then Err UnsupportedTagForm
              else Ok (push_bit 8 (ucast first) OR ucast second, idx))
       else Ok (ucast first, idx))"

definition LENGTH_OCTET_COUNT_MASK :: u8 where "LENGTH_OCTET_COUNT_MASK = 0x0F"

definition ber_long_form :: "u8 \<Rightarrow> bool" where
  "ber_long_form m \<longleftrightarrow> m \<in> {LONG_FORM_1B, LONG_FORM_2B, LONG_FORM_3B, LONG_FORM_4B}"

definition ber_length :: "bytes \<Rightarrow> nat \<Rightarrow> (nat \<times> nat, BerError) result" where
  "ber_length bytes idx =
     and_then (ber_next bytes idx False) (\<lambda>(len_first, idx).
       if unat len_first < SHORT_FORM_CEILING then Ok (unat len_first, idx)
       else if ber_long_form len_first
       then let nbytes = unat (len_first AND LENGTH_OCTET_COUNT_MASK) in
            and_then (ok_or (slice_get bytes idx (idx + nbytes)) Truncated) (\<lambda>len_bytes.
              Ok (be_value len_bytes, idx + nbytes))
       else Err UnsupportedLengthForm)"

definition ber_parse :: "bytes \<Rightarrow> (BerTlvAny, BerError) result" where
  "ber_parse bytes =
     and_then (ber_tag bytes 0) (\<lambda>(tag, idx).
     and_then (ber_length bytes idx) (\<lambda>(len, idx).
       let value_end = idx + len in
       and_then (ok_or (slice_get bytes idx value_end) Truncated) (\<lambda>value.
         Ok \<lparr>tlv_tag = tag, tlv_value = value, tlv_size = value_end\<rparr>)))"

text \<open>\<open>BerTlvAny::expect\<close> and \<open>BerTlv::parse\<close> for the marker type whose \<open>TAG\<close> is \<open>t\<close>.\<close>

definition ber_expect :: "u16 \<Rightarrow> BerTlvAny \<Rightarrow> (bytes \<times> nat, BerError) result" where
  "ber_expect t p =
     (if tlv_tag p \<noteq> t then Err (UnexpectedTag t (tlv_tag p))
      else Ok (tlv_value p, tlv_size p))"

definition ber_parse_typed :: "u16 \<Rightarrow> bytes \<Rightarrow> (bytes \<times> nat, BerError) result" where
  "ber_parse_typed t bytes = and_then (ber_parse bytes) (ber_expect t)"

text \<open>
  \<open>BerTlvIter::next\<close>: the item it yields, if any, and the bytes that remain. A parse error
  is yielded once and empties the iterator.
\<close>

definition ber_iter_next :: "bytes \<Rightarrow> (BerTlvAny, BerError) result option \<times> bytes" where
  "ber_iter_next remaining =
     (if remaining = [] then (None, remaining)
      else case ber_parse remaining of
             Ok parsed \<Rightarrow>
               (Some (Ok parsed),
                case slice_get remaining (tlv_size parsed) (length remaining) of
                  Some rest \<Rightarrow> rest | None \<Rightarrow> [])
           | Err e \<Rightarrow> (Some (Err e), []))"

section \<open>What a parse consumes\<close>

lemma ber_next_Ok: "ber_next bs i b = Ok (x, j) \<longleftrightarrow> i < length bs \<and> x = bs ! i \<and> j = i + 1"
  by (auto simp: ber_next_def)

lemma ber_tag_cursor: "ber_tag bs i = Ok (t, j) \<Longrightarrow> i < j \<and> j \<le> length bs"
  by (auto simp: ber_tag_def ber_next_def result_simps split: if_splits)

lemma ber_length_cursor: "ber_length bs i = Ok (l, j) \<Longrightarrow> i < j \<and> j \<le> length bs"
  by (auto simp: ber_length_def ber_next_def slice_get_Some_iff Let_def result_simps split: if_splits)

lemma ber_parse_OkE:
  assumes "ber_parse bs = Ok p"
  obtains t i j l where "ber_tag bs 0 = Ok (t, i)" "ber_length bs i = Ok (l, j)"
    "j + l \<le> length bs" "0 < i" "i < j"
    "p = \<lparr>tlv_tag = t, tlv_value = take l (drop j bs), tlv_size = j + l\<rparr>"
  using assms ber_tag_cursor ber_length_cursor
  by (auto simp: ber_parse_def result_simps slice_get_Some_iff Let_def)

lemma ber_parse_size:
  assumes "ber_parse bs = Ok p"
  shows "2 \<le> tlv_size p" and "tlv_size p \<le> length bs"
  using assms by (auto elim!: ber_parse_OkE)

text \<open>
  Draining the iterator: every item \<open>next\<close> yields until it yields none. The iterator ends
  because each successful parse consumes at least two bytes and a failed one empties it.
\<close>

lemma ber_iter_next_Ok:
  "bs \<noteq> [] \<Longrightarrow> ber_parse bs = Ok p \<Longrightarrow> ber_iter_next bs = (Some (Ok p), drop (tlv_size p) bs)"
  using ber_parse_size(2) [of bs p] by (auto simp: ber_iter_next_def slice_get_def)

lemma ber_iter_next_shrinks:
  "ber_iter_next bs = (Some r, rest) \<Longrightarrow> length rest < length bs"
  using ber_parse_size [of bs]
  by (cases "ber_parse bs") (auto simp: ber_iter_next_def slice_get_def split: if_splits)

function ber_items :: "bytes \<Rightarrow> (BerTlvAny, BerError) result list" where
  "ber_items remaining =
     (case ber_iter_next remaining of
        (None, _) \<Rightarrow> []
      | (Some item, rest) \<Rightarrow> item # ber_items rest)"
  by pat_completeness auto
termination
  by (relation "measure length") (auto dest: ber_iter_next_shrinks sym)

declare ber_items.simps [simp del]

section \<open>Reading back what was written\<close>

lemma push_length_append: "push_length out len = (out @ fst (push_length [] len), snd (push_length [] len))"
  by (simp add: push_length_def)

lemma ber_length_short:
  assumes "len < 128"
  shows "ber_length (pre @ of_nat len # rest) (length pre) = Ok (len, length pre + 1)"
  using assms by (simp add: ber_length_def ber_next_def ber_consts result_simps)

lemma ber_length_long:
  assumes "ber_long_form m"
    and "length lb = unat (m AND LENGTH_OCTET_COUNT_MASK)"
  shows "ber_length (pre @ m # lb @ rest) (length pre) = Ok (be_value lb, length pre + 1 + length lb)"
proof -
  have "\<not> unat m < SHORT_FORM_CEILING"
    using assms(1) by (auto simp: ber_long_form_def ber_consts)
  then show ?thesis
    using assms by (simp add: ber_length_def ber_next_def slice_get_def Let_def)
qed

lemma ber_length_long_be:
  assumes "ber_long_form m"
    and "unat (m AND LENGTH_OCTET_COUNT_MASK) = n" and "len < 256 ^ n"
  shows "ber_length (pre @ (m # be_bytes n len) @ rest) (length pre) =
    Ok (len, length pre + length (m # be_bytes n len))"
proof -
  have "ber_length (pre @ m # be_bytes n len @ rest) (length pre) =
      Ok (be_value (be_bytes n len), length pre + 1 + length (be_bytes n len))"
    by (rule ber_length_long [OF assms(1)]) (simp only: length_be_bytes assms(2))
  then show ?thesis
    by (simp only: be_value_be_bytes [OF assms(3)] append_Cons list.size add_Suc_right) simp
qed

lemma long_form_counts:
  "unat (LONG_FORM_1B AND LENGTH_OCTET_COUNT_MASK) = 1"
  "unat (LONG_FORM_2B AND LENGTH_OCTET_COUNT_MASK) = 2"
  "unat (LONG_FORM_3B AND LENGTH_OCTET_COUNT_MASK) = 3"
  "unat (LONG_FORM_4B AND LENGTH_OCTET_COUNT_MASK) = 4"
  by (simp_all add: ber_consts LENGTH_OCTET_COUNT_MASK_def)

lemma push_length_cases:
  assumes "push_length [] len = (lb, Ok ())"
  obtains "len < 128" "lb = [of_nat len]"
    | m n where "ber_long_form m"
        "unat (m AND LENGTH_OCTET_COUNT_MASK) = n" "len < 256 ^ n" "lb = m # be_bytes n len"
proof -
  consider "len < 128" "lb = [of_nat len]"
    | "len < 256 ^ 1" "lb = LONG_FORM_1B # be_bytes 1 len"
    | "len < 256 ^ 2" "lb = LONG_FORM_2B # be_bytes 2 len"
    | "len < 256 ^ 3" "lb = LONG_FORM_3B # be_bytes 3 len"
    | "len < 256 ^ 4" "lb = LONG_FORM_4B # be_bytes 4 len"
    using assms unfolding push_length_def SHORT_FORM_CEILING_def U24_MAX_def drop_be_bytes_4
    by (simp add: be_bytes_unfold(1) split: if_splits)
  then show ?thesis
  proof cases
    case 1
    then show ?thesis by (rule that(1))
  next
    case 2
    then show ?thesis by (intro that(2) [OF _ long_form_counts(1)]) (simp_all add: ber_long_form_def)
  next
    case 3
    then show ?thesis by (intro that(2) [OF _ long_form_counts(2)]) (simp_all add: ber_long_form_def)
  next
    case 4
    then show ?thesis by (intro that(2) [OF _ long_form_counts(3)]) (simp_all add: ber_long_form_def)
  next
    case 5
    then show ?thesis by (intro that(2) [OF _ long_form_counts(4)]) (simp_all add: ber_long_form_def)
  qed
qed

lemma ber_length_push_length:
  assumes "push_length [] len = (lb, Ok ())"
  shows "ber_length (pre @ lb @ rest) (length pre) = Ok (len, length pre + length lb)"
proof (rule push_length_cases [OF assms])
  assume "len < 128" and lb: "lb = [of_nat len]"
  from ber_length_short [OF this(1)] show ?thesis unfolding lb by simp
next
  fix m n
  assume "ber_long_form m"
    and "unat (m AND LENGTH_OCTET_COUNT_MASK) = n" and "len < 256 ^ n"
    and lb: "lb = m # be_bytes n len"
  from ber_length_long_be [OF this(1-3)] show ?thesis unfolding lb .
qed

text \<open>One-byte and two-byte tags behind one encoder, as the children of a template mix them.\<close>

datatype ber_tag_octets = Tag1 u8 | Tag2 u16

fun ber_encode :: "ber_tag_octets \<times> bytes \<Rightarrow> (bytes, BerEncodeError) result" where
  "ber_encode (Tag1 t, v) = tlv t v"
| "ber_encode (Tag2 t, v) = tlv2 t v"

fun ber_tag_of :: "ber_tag_octets \<Rightarrow> u16" where
  "ber_tag_of (Tag1 t) = ucast t"
| "ber_tag_of (Tag2 t) = t"

fun ber_tag_bytes :: "ber_tag_octets \<Rightarrow> bytes" where
  "ber_tag_bytes (Tag1 t) = [t]"
| "ber_tag_bytes (Tag2 t) = [u16_hi t, u16_lo t]"

fun ber_tag_ok :: "ber_tag_octets \<Rightarrow> bool" where
  "ber_tag_ok (Tag1 t) \<longleftrightarrow> t AND MULTI_BYTE_TAG_MASK \<noteq> MULTI_BYTE_TAG_MASK"
| "ber_tag_ok (Tag2 t) \<longleftrightarrow>
     u16_hi t AND MULTI_BYTE_TAG_MASK = MULTI_BYTE_TAG_MASK \<and> u16_lo t AND TAG_MORE_OCTETS = 0"

definition ber_view :: "ber_tag_octets \<times> bytes \<Rightarrow> nat \<Rightarrow> BerTlvAny" where
  "ber_view x n = \<lparr>tlv_tag = ber_tag_of (fst x), tlv_value = snd x, tlv_size = n\<rparr>"

lemma push_length_Ok_iff:
  "(\<exists>lb. push_length [] len = (lb, Ok ())) \<longleftrightarrow> len < 2 ^ 32"
  by (simp add: push_length_def ber_consts)

lemma ber_encode_Ok:
  "ber_encode (t, v) = Ok w \<longleftrightarrow>
     (\<exists>lb. ber_tag_ok t \<and> push_length [] (length v) = (lb, Ok ()) \<and> w = ber_tag_bytes t @ lb @ v)"
  by (cases t; cases "push_length [] (length v)")
    (auto simp: tlv_def tlv2_def push_tlv_def push_tlv_tag2_def Let_def
      push_length_append [of "[_]"] push_length_append [of "[_, _]"]
      split: prod.splits result.splits)

lemma ber_tag_encoded:
  "ber_tag_ok t \<Longrightarrow> ber_tag (ber_tag_bytes t @ rest) 0 = Ok (ber_tag_of t, length (ber_tag_bytes t))"
  by (cases t)
    (auto simp: ber_tag_def ber_next_def u16_of_be_def [symmetric])

lemma ber_parse_encode:
  assumes "ber_encode x = Ok w"
  shows "ber_parse (w @ rest) = Ok (ber_view x (length w))"
proof -
  obtain t v where x: "x = (t, v)" by (cases x)
  from assms obtain lb where t: "ber_tag_ok t" and lb: "push_length [] (length v) = (lb, Ok ())"
    and w: "w = ber_tag_bytes t @ lb @ v"
    by (auto simp: x ber_encode_Ok)
  have "ber_length (w @ rest) (length (ber_tag_bytes t)) =
      Ok (length v, length (ber_tag_bytes t) + length lb)"
    using ber_length_push_length [OF lb, of "ber_tag_bytes t" "v @ rest"] by (simp add: w)
  with ber_tag_encoded [OF t, of "lb @ v @ rest"] show ?thesis
    by (simp add: ber_parse_def w x ber_view_def slice_get_def)
qed

lemma ber_encode_nonempty: "ber_encode x = Ok w \<Longrightarrow> w \<noteq> []"
  by (cases x; cases "fst x") (auto simp: ber_encode_Ok)

interpretation ber_codec: record_reader ber_encode ber_parse ber_view tlv_size ber_items
proof unfold_locales
  show "ber_items [] = []"
    by (subst ber_items.simps) (simp add: ber_iter_next_def)
  show "ber_items bs = Ok p # ber_items (drop (tlv_size p) bs)"
    if "bs \<noteq> []" "ber_parse bs = Ok p" for bs p
    by (subst ber_items.simps) (simp add: ber_iter_next_Ok [OF that])
qed (auto simp: ber_parse_encode ber_view_def ber_encode_nonempty)

text \<open>A parse depends on the bytes of the record it reports and on nothing behind them.\<close>

lemma ber_tag_local:
  "ber_tag (pre @ r) i = Ok (t, j) \<Longrightarrow> j \<le> length pre \<Longrightarrow> ber_tag (pre @ s) i = Ok (t, j)"
  by (auto simp: ber_tag_def ber_next_def nth_append result_simps split: if_splits)

lemma ber_length_local:
  "ber_length (pre @ r) i = Ok (l, j) \<Longrightarrow> j \<le> length pre \<Longrightarrow> ber_length (pre @ s) i = Ok (l, j)"
proof -
  assume r: "ber_length (pre @ r) i = Ok (l, j)" and j: "j \<le> length pre"
  from ber_length_cursor [OF r] j have i: "i < length pre" by simp
  define n where "n = unat (pre ! i AND LENGTH_OCTET_COUNT_MASK)"
  from r j show ?thesis
    unfolding ber_length_def ber_next_def Let_def
    by (auto simp: i nth_append n_def [symmetric] result_simps slice_get_def split: if_split_asm)
qed

lemma ber_parse_local:
  assumes "ber_parse (pre @ r) = Ok p" and "tlv_size p \<le> length pre"
  shows "ber_parse (pre @ s) = Ok p"
proof -
  from assms(1) obtain t i j l where *: "ber_tag (pre @ r) 0 = Ok (t, i)"
    "ber_length (pre @ r) i = Ok (l, j)" "i < j"
    "p = \<lparr>tlv_tag = t, tlv_value = take l (drop j (pre @ r)), tlv_size = j + l\<rparr>"
    by (rule ber_parse_OkE)
  moreover from * assms(2) have "j + l \<le> length pre" by simp
  ultimately have "ber_tag (pre @ s) 0 = Ok (t, i)" "ber_length (pre @ s) i = Ok (l, j)"
    by (auto intro: ber_tag_local ber_length_local)
  with * \<open>j + l \<le> length pre\<close> show ?thesis
    by (simp add: ber_parse_def slice_get_def)
qed

text \<open>
  The errors that say the input ended are the only ones more input can change: a refused tag
  or length form is refused again.
\<close>

lemma ber_tag_error_stable:
  "ber_tag bs 0 = Err e \<Longrightarrow> e \<notin> {Empty, Truncated} \<Longrightarrow> ber_tag (bs @ s) 0 = Err e"
  by (auto simp: ber_tag_def ber_next_def nth_append result_simps split: if_split_asm)

lemma ber_length_error_stable:
  "ber_length bs i = Err e \<Longrightarrow> e \<notin> {Empty, Truncated} \<Longrightarrow> ber_length (bs @ s) i = Err e"
  by (auto simp: ber_length_def ber_next_def nth_append result_simps slice_get_def Let_def
      split: if_split_asm)

lemma ber_parse_error_stable:
  assumes "ber_parse bs = Err e" and "e \<notin> {Empty, Truncated}"
  shows "ber_parse (bs @ s) = Err e"
proof (cases "ber_tag bs 0")
  case (Err d)
  with assms ber_tag_error_stable [of bs d s] show ?thesis by (auto simp: ber_parse_def)
next
  case (Ok ti)
  then obtain t i where ti: "ber_tag bs 0 = Ok (t, i)" by (cases ti) auto
  with ber_tag_local [of bs "[]" 0 t i s] ber_tag_cursor [of bs 0 t i]
  have tag: "ber_tag (bs @ s) 0 = Ok (t, i)" by simp
  from assms ti have "ber_length bs i = Err e"
    by (auto simp: ber_parse_def result_simps Let_def)
  with assms(2) ber_length_error_stable [of bs i e s] tag show ?thesis
    by (simp add: ber_parse_def)
qed

lemma ber_parse_Empty_iff: "ber_parse bs = Err Empty \<longleftrightarrow> bs = []"
  by (auto simp: ber_parse_def ber_tag_def ber_length_def ber_next_def result_simps Let_def
      split: if_split_asm)

section \<open>Properties\<close>

text \<open>
  Property C37. Whatever \<open>tlv\<close> or \<open>tlv2\<close> encodes, \<open>BerTlvAny::parse\<close> reads back in front of
  any continuation: the same tag, the same value, and as its size exactly the encoded length.
\<close>

theorem ber_roundtrip:
  assumes "ber_encode (t, v) = Ok w"
  shows "ber_parse (w @ rest) = Ok \<lparr>tlv_tag = ber_tag_of t, tlv_value = v, tlv_size = length w\<rparr>"
  using ber_codec.dec_enc [OF assms] by (simp add: ber_view_def)

theorem ber_roundtrip_witness:
  "ber_parse ([0x7F, 0x49, 0x02, 0xAB, 0xCD] @ [0x30]) =
     Ok \<lparr>tlv_tag = 0x7F49, tlv_value = [0xAB, 0xCD], tlv_size = 5\<rparr>"
proof -
  have "ber_encode (Tag2 0x7F49, [0xAB, 0xCD]) = Ok [0x7F, 0x49, 0x02, 0xAB, 0xCD]"
    by code_simp
  from ber_roundtrip [OF this, of "[0x30]"] show ?thesis by simp
qed

text \<open>
  Draining \<open>BerTlvIter\<close> over the concatenation of encoded records yields exactly
  those records, in order, and no error.
\<close>

theorem ber_items_of_records:
  assumes "list_all2 (\<lambda>x w. ber_encode x = Ok w) xs ws"
  shows "ber_items (concat ws) = map2 (\<lambda>x w. Ok (ber_view x (length w))) xs ws"
  using assms by (rule ber_codec.items_concat)

theorem ber_items_of_records_witness:
  "ber_items [0x02, 0x01, 0x05, 0x04, 0x00] =
     [Ok \<lparr>tlv_tag = 2, tlv_value = [5], tlv_size = 3\<rparr>,
      Ok \<lparr>tlv_tag = 4, tlv_value = [], tlv_size = 2\<rparr>]"
proof -
  have "list_all2 (\<lambda>x w. ber_encode x = Ok w) [(Tag1 2, [5]), (Tag1 4, [])] [[2, 1, 5], [4, 0]]"
    by code_simp
  from ber_items_of_records [OF this] show ?thesis by (simp add: ber_view_def)
qed

text \<open>
  A parse that succeeds stays inside its input, consumes at least the tag and one
  length octet, reports the last bytes of what it consumed as the value, and depends on no
  byte behind them: any other continuation gives the same record.
\<close>

theorem ber_parse_bounded:
  assumes "ber_parse bs = Ok p"
  shows "2 \<le> tlv_size p \<and> tlv_size p \<le> length bs
    \<and> length (tlv_value p) + 2 \<le> tlv_size p
    \<and> (\<exists>hdr. take (tlv_size p) bs = hdr @ tlv_value p)
    \<and> ber_parse (take (tlv_size p) bs @ rest) = Ok p"
proof -
  from assms obtain t i j l where *: "j + l \<le> length bs" "0 < i" "i < j"
    "p = \<lparr>tlv_tag = t, tlv_value = take l (drop j bs), tlv_size = j + l\<rparr>"
    by (rule ber_parse_OkE)
  then have "take (tlv_size p) bs = take j bs @ tlv_value p"
    by (simp add: take_add)
  moreover have "ber_parse (take (tlv_size p) bs @ rest) = Ok p"
  proof (rule ber_parse_local)
    show "ber_parse (take (tlv_size p) bs @ drop (tlv_size p) bs) = Ok p"
      using assms by (simp only: append_take_drop_id)
    show "tlv_size p \<le> length (take (tlv_size p) bs)"
      using ber_parse_size(2) [OF assms] by simp
  qed
  ultimately show ?thesis using * by auto
qed

theorem ber_parse_bounded_witness:
  "ber_parse ([0x04, 0x01, 0x2A] @ [0xFF]) = Ok \<lparr>tlv_tag = 4, tlv_value = [0x2A], tlv_size = 3\<rparr>"
proof -
  have "ber_parse [0x04, 0x01, 0x2A, 0x00] = Ok \<lparr>tlv_tag = 4, tlv_value = [0x2A], tlv_size = 3\<rparr>"
    by code_simp
  from ber_parse_bounded [OF this, of "[0xFF]"] show ?thesis by simp
qed

text \<open>
  Cutting an encoded record short is always noticed: every proper prefix is
  refused, as \<open>Empty\<close> when nothing is left and as \<open>Truncated\<close> otherwise.
\<close>

theorem ber_truncation_detected:
  assumes "ber_encode x = Ok w" and "k < length w"
  shows "ber_parse (take k w) = Err (if k = 0 then Empty else Truncated)"
proof (cases "ber_parse (take k w)")
  case (Ok p)
  then have "tlv_size p \<le> k" using ber_parse_size(2) [OF Ok] by simp
  with ber_parse_local [of "take k w" "[]" p "drop k w"] Ok assms(2)
  have "ber_parse (w @ []) = Ok p" by simp
  with ber_codec.dec_enc [OF assms(1), of "[]"] have "tlv_size p = length w"
    by (auto simp: ber_view_def)
  with \<open>tlv_size p \<le> k\<close> assms(2) show ?thesis by simp
next
  case (Err e)
  have "e \<in> {Empty, Truncated}"
    using ber_parse_error_stable [OF Err, of "drop k w"] ber_codec.dec_enc [OF assms(1), of "[]"]
    by auto
  with Err ber_parse_Empty_iff [of "take k w"] assms(2) show ?thesis by auto
qed

theorem ber_truncation_detected_witness:
  "ber_parse [0x30, 0x03, 0x02] = Err Truncated"
proof -
  have "ber_encode (Tag1 0x30, [0x02, 0x01, 0x05]) = Ok [0x30, 0x03, 0x02, 0x01, 0x05]"
    by code_simp
  from ber_truncation_detected [OF this, of 3] show ?thesis by simp
qed

end
