(* ===== verification/Status_Word.thy ===== *)
theory Status_Word
  imports Prelude
begin

text \<open>
  The status words of \<open>crates/apdu/src/status_word.rs\<close>: the retry counter \<open>PinRetries\<close>, the
  decoded enumeration \<open>StatusWord\<close>, and the two conversions between it and the wire. The
  theory shows that decoding loses nothing, that encoding is undone by decoding on every
  value the decoder produces, and that the counter family is recognised exactly.
\<close>

datatype PinRetries = PinRetries (retries_get: u8)

definition PinRetries_MAX :: u8 where "PinRetries_MAX = 0x0F"

definition retries_from_nibble :: "u8 \<Rightarrow> PinRetries option" where
  "retries_from_nibble n = (if n > PinRetries_MAX then None else Some (PinRetries n))"

definition retries_is_exhausted :: "PinRetries \<Rightarrow> bool" where
  "retries_is_exhausted r \<longleftrightarrow> retries_get r = 0"

datatype StatusWord =
    AuthenticationBlocked
  | AuthenticationFailed
  | EndOfFile
  | FileNotFound
  | OtherSw u16
  | PinIncorrect PinRetries
  | ReferenceDataInvalidated
  | ReferenceDataNotFound
  | SecurityNotSatisfied
  | SmDataObjectsIncorrect
  | Success
  | WrongLength

definition SW_SUCCESS :: u16 where "SW_SUCCESS = 0x9000"
definition SW_END_OF_FILE :: u16 where "SW_END_OF_FILE = 0x6282"
definition SW_AUTHENTICATION_FAILED :: u16 where "SW_AUTHENTICATION_FAILED = 0x6300"
definition SW_WRONG_LENGTH :: u16 where "SW_WRONG_LENGTH = 0x6700"
definition SW_SECURITY_NOT_SATISFIED :: u16 where "SW_SECURITY_NOT_SATISFIED = 0x6982"
definition SW_AUTHENTICATION_BLOCKED :: u16 where "SW_AUTHENTICATION_BLOCKED = 0x6983"
definition SW_REFERENCE_DATA_INVALIDATED :: u16 where "SW_REFERENCE_DATA_INVALIDATED = 0x6984"
definition SW_SM_DATA_OBJECTS_INCORRECT :: u16 where "SW_SM_DATA_OBJECTS_INCORRECT = 0x6988"
definition SW_FILE_NOT_FOUND :: u16 where "SW_FILE_NOT_FOUND = 0x6A82"
definition SW_REFERENCE_DATA_NOT_FOUND :: u16 where "SW_REFERENCE_DATA_NOT_FOUND = 0x6A88"
definition SW_PIN_COUNTER_PREFIX :: u16 where "SW_PIN_COUNTER_PREFIX = 0x63C0"
definition SW_PIN_COUNTER_MASK :: u16 where "SW_PIN_COUNTER_MASK = 0xFFF0"

lemmas sw_consts = SW_SUCCESS_def SW_END_OF_FILE_def SW_AUTHENTICATION_FAILED_def
  SW_WRONG_LENGTH_def SW_SECURITY_NOT_SATISFIED_def SW_AUTHENTICATION_BLOCKED_def
  SW_REFERENCE_DATA_INVALIDATED_def SW_SM_DATA_OBJECTS_INCORRECT_def SW_FILE_NOT_FOUND_def
  SW_REFERENCE_DATA_NOT_FOUND_def

definition sw_counter :: "PinRetries \<Rightarrow> u16" where
  "sw_counter retries =
     (let sw1 = u16_hi SW_PIN_COUNTER_PREFIX;
          prefix_sw2 = u16_lo SW_PIN_COUNTER_PREFIX;
          sw2 = prefix_sw2 OR (retries_get retries AND PinRetries_MAX)
      in u16_of_be sw1 sw2)"

fun sw_as_u16 :: "StatusWord \<Rightarrow> u16" where
  "sw_as_u16 AuthenticationBlocked = SW_AUTHENTICATION_BLOCKED"
| "sw_as_u16 AuthenticationFailed = SW_AUTHENTICATION_FAILED"
| "sw_as_u16 EndOfFile = SW_END_OF_FILE"
| "sw_as_u16 FileNotFound = SW_FILE_NOT_FOUND"
| "sw_as_u16 (OtherSw sw) = sw"
| "sw_as_u16 (PinIncorrect retries) = sw_counter retries"
| "sw_as_u16 ReferenceDataInvalidated = SW_REFERENCE_DATA_INVALIDATED"
| "sw_as_u16 ReferenceDataNotFound = SW_REFERENCE_DATA_NOT_FOUND"
| "sw_as_u16 SecurityNotSatisfied = SW_SECURITY_NOT_SATISFIED"
| "sw_as_u16 SmDataObjectsIncorrect = SW_SM_DATA_OBJECTS_INCORRECT"
| "sw_as_u16 Success = SW_SUCCESS"
| "sw_as_u16 WrongLength = SW_WRONG_LENGTH"

definition sw_from_u16 :: "u16 \<Rightarrow> StatusWord" where
  "sw_from_u16 sw =
     (if sw = SW_SUCCESS then Success
      else if sw = SW_END_OF_FILE then EndOfFile
      else if sw = SW_AUTHENTICATION_FAILED then AuthenticationFailed
      else if sw = SW_WRONG_LENGTH then WrongLength
      else if sw = SW_SECURITY_NOT_SATISFIED then SecurityNotSatisfied
      else if sw = SW_AUTHENTICATION_BLOCKED then AuthenticationBlocked
      else if sw = SW_REFERENCE_DATA_INVALIDATED then ReferenceDataInvalidated
      else if sw = SW_SM_DATA_OBJECTS_INCORRECT then SmDataObjectsIncorrect
      else if sw = SW_FILE_NOT_FOUND then FileNotFound
      else if sw = SW_REFERENCE_DATA_NOT_FOUND then ReferenceDataNotFound
      else if sw AND SW_PIN_COUNTER_MASK = SW_PIN_COUNTER_PREFIX
        then PinIncorrect (PinRetries (u16_lo sw AND PinRetries_MAX))
      else OtherSw sw)"

definition sw_from_bytes :: "u8 \<Rightarrow> u8 \<Rightarrow> StatusWord" where
  "sw_from_bytes sw1 sw2 = sw_from_u16 (u16_of_be sw1 sw2)"

definition sw_is_success :: "StatusWord \<Rightarrow> bool" where
  "sw_is_success sw \<longleftrightarrow> sw = Success"

fun sw_pin_retries :: "StatusWord \<Rightarrow> PinRetries option" where
  "sw_pin_retries (PinIncorrect retries) = Some retries"
| "sw_pin_retries _ = None"

section \<open>The counter family\<close>

text \<open>A word carries a counter when its top twelve bits are those of the prefix.\<close>

definition is_counter_word :: "u16 \<Rightarrow> bool" where
  "is_counter_word sw \<longleftrightarrow> sw AND SW_PIN_COUNTER_MASK = SW_PIN_COUNTER_PREFIX"

lemma nibble_le: "n AND PinRetries_MAX \<le> PinRetries_MAX"
  by (simp add: word_and_le1)

lemma u16_mask_split: "w = (w AND SW_PIN_COUNTER_MASK) OR (w AND 0x000F)"
proof -
  have "(w AND SW_PIN_COUNTER_MASK) OR (w AND 0x000F) = w AND (SW_PIN_COUNTER_MASK OR 0x000F)"
    by (rule bit.conj_disj_distrib [symmetric])
  also have "SW_PIN_COUNTER_MASK OR 0x000F = - 1"
    by (simp add: SW_PIN_COUNTER_MASK_def)
  finally show ?thesis by simp
qed

lemma u16_of_be_or: "u16_of_be h (a OR b) = u16_of_be h a OR ucast b"
  unfolding u16_of_be_def unsigned_or_eq by (rule or.assoc [symmetric])

lemma u16_lo_or: "u16_lo (v OR w) = u16_lo v OR u16_lo w"
  unfolding u16_lo_def by (rule bit_word_eqI) (simp add: bit_simps)

lemma u16_lo_ucast: "u16_lo (ucast (n :: u8)) = n"
  unfolding u16_lo_def by (rule bit_word_eqI) (simp add: bit_simps)

lemma ucast_u16_lo_nibble: "ucast (u16_lo w AND PinRetries_MAX) = w AND (0x000F :: u16)"
proof -
  have "ucast (u16_lo w) AND (0x000F :: u16) = w AND mask 8 AND 0x000F"
    unfolding u16_lo_def by (rule bit_word_eqI) (auto simp: bit_simps)
  then show ?thesis
    unfolding unsigned_and_eq PinRetries_MAX_def by (simp add: and.assoc mask_numeral)
qed

lemma sw_counter_eq:
  "sw_counter r = SW_PIN_COUNTER_PREFIX OR ucast (retries_get r AND PinRetries_MAX)"
  unfolding sw_counter_def Let_def u16_of_be_or by simp

lemma counter_prefix_facts:
  "SW_PIN_COUNTER_PREFIX AND SW_PIN_COUNTER_MASK = SW_PIN_COUNTER_PREFIX"
  "ucast PinRetries_MAX AND SW_PIN_COUNTER_MASK = 0"
  "u16_lo SW_PIN_COUNTER_PREFIX AND PinRetries_MAX = 0"
  by (simp_all add: SW_PIN_COUNTER_PREFIX_def SW_PIN_COUNTER_MASK_def PinRetries_MAX_def
      u16_lo_def)

lemma sw_counter_is_counter: "is_counter_word (sw_counter r)"
proof -
  have "ucast (retries_get r AND PinRetries_MAX) AND SW_PIN_COUNTER_MASK = 0"
    unfolding unsigned_and_eq and.assoc counter_prefix_facts by simp
  then show ?thesis
    unfolding is_counter_word_def sw_counter_eq bit.conj_disj_distrib2 counter_prefix_facts
    by simp
qed

lemma sw_counter_nibble:
  "u16_lo (sw_counter r) AND PinRetries_MAX = retries_get r AND PinRetries_MAX"
  unfolding sw_counter_eq u16_lo_or u16_lo_ucast bit.conj_disj_distrib2 counter_prefix_facts
  by (simp add: and.assoc)

lemma sw_counter_of_word:
  assumes "is_counter_word sw"
  shows "sw_counter (PinRetries (u16_lo sw AND PinRetries_MAX)) = sw"
proof -
  have "sw = SW_PIN_COUNTER_PREFIX OR (sw AND 0x000F)"
    using u16_mask_split [of sw] assms unfolding is_counter_word_def by simp
  then show ?thesis
    unfolding sw_counter_eq by (simp add: and.assoc ucast_u16_lo_nibble)
qed

lemma fixed_words_not_counter:
  "\<not> is_counter_word SW_SUCCESS" "\<not> is_counter_word SW_END_OF_FILE"
  "\<not> is_counter_word SW_AUTHENTICATION_FAILED" "\<not> is_counter_word SW_WRONG_LENGTH"
  "\<not> is_counter_word SW_SECURITY_NOT_SATISFIED" "\<not> is_counter_word SW_AUTHENTICATION_BLOCKED"
  "\<not> is_counter_word SW_REFERENCE_DATA_INVALIDATED"
  "\<not> is_counter_word SW_SM_DATA_OBJECTS_INCORRECT"
  "\<not> is_counter_word SW_FILE_NOT_FOUND" "\<not> is_counter_word SW_REFERENCE_DATA_NOT_FOUND"
  by (simp_all add: is_counter_word_def sw_consts SW_PIN_COUNTER_MASK_def
      SW_PIN_COUNTER_PREFIX_def)

lemma sw_from_counter:
  assumes "is_counter_word sw"
  shows "sw_from_u16 sw = PinIncorrect (PinRetries (u16_lo sw AND PinRetries_MAX))"
proof -
  have "sw \<noteq> w" if "\<not> is_counter_word w" for w
    using assms that by auto
  note this [OF fixed_words_not_counter(1)] this [OF fixed_words_not_counter(2)]
    this [OF fixed_words_not_counter(3)] this [OF fixed_words_not_counter(4)]
    this [OF fixed_words_not_counter(5)] this [OF fixed_words_not_counter(6)]
    this [OF fixed_words_not_counter(7)] this [OF fixed_words_not_counter(8)]
    this [OF fixed_words_not_counter(9)] this [OF fixed_words_not_counter(10)]
  with assms show ?thesis
    unfolding sw_from_u16_def is_counter_word_def by simp
qed

section \<open>The round trips\<close>

text \<open>The values \<open>from_u16\<close> can produce: no counter above a nibble, no \<open>Other\<close> for a named word.\<close>

fun sw_canonical :: "StatusWord \<Rightarrow> bool" where
  "sw_canonical (PinIncorrect r) \<longleftrightarrow> retries_get r \<le> PinRetries_MAX"
| "sw_canonical (OtherSw w) \<longleftrightarrow> sw_from_u16 w = OtherSw w"
| "sw_canonical _ \<longleftrightarrow> True"

lemma nibble_and_id:
  assumes "n \<le> PinRetries_MAX"
  shows "n AND PinRetries_MAX = n"
proof -
  have "PinRetries_MAX = mask 4" by (simp add: PinRetries_MAX_def mask_numeral)
  moreover have "unat n < 2 ^ 4"
    using assms by (simp add: PinRetries_MAX_def word_le_nat_alt)
  moreover have "take_bit 4 n = n"
    using calculation(2) by (rule take_bit_word_self)
  ultimately show ?thesis
    by (simp add: take_bit_eq_mask)
qed

text \<open>
  Decoding a status word and encoding it again gives back the same sixteen bits,
  for each of the 65536 words a card can send: \<open>from_u16\<close> loses no information.
\<close>
theorem status_word_decode_lossless: "sw_as_u16 (sw_from_u16 sw) = sw"
proof (cases "is_counter_word sw")
  case True
  then show ?thesis by (simp add: sw_from_counter sw_counter_of_word)
next
  case False
  then show ?thesis by (simp add: sw_from_u16_def is_counter_word_def)
qed

text \<open>
  Encoding is undone by decoding on exactly the values the decoder produces: a
  counter of at most fifteen, and an \<open>Other\<close> that does not alias a named status word.
\<close>
theorem status_word_encode_inverse: "sw_from_u16 (sw_as_u16 s) = s \<longleftrightarrow> sw_canonical s"
proof (cases s)
  case (PinIncorrect r)
  have "sw_from_u16 (sw_as_u16 s) = PinIncorrect (PinRetries (retries_get r AND PinRetries_MAX))"
    using PinIncorrect by (simp add: sw_from_counter sw_counter_is_counter sw_counter_nibble)
  moreover have "retries_get r AND PinRetries_MAX = retries_get r \<longleftrightarrow> retries_get r \<le> PinRetries_MAX"
    using nibble_and_id nibble_le by metis
  ultimately show ?thesis
    using PinIncorrect by (cases r) auto
qed (simp_all add: sw_from_u16_def sw_consts)

text \<open>
  A response reports remaining retries exactly when its status word is of the
  \<open>63 Cx\<close> family, and the count is then its low nibble; no other word is read as a counter.
\<close>
theorem pin_retries_exactly_counter_family:
  "sw_pin_retries (sw_from_u16 sw) =
     (if is_counter_word sw then retries_from_nibble (u16_lo sw AND PinRetries_MAX) else None)"
proof (cases "is_counter_word sw")
  case True
  then show ?thesis
    using nibble_le [of "u16_lo sw"] by (simp add: sw_from_counter retries_from_nibble_def)
next
  case False
  then show ?thesis by (simp add: sw_from_u16_def is_counter_word_def)
qed

end
