(* ===== verification/Apdu.thy ===== *)
theory Apdu
  imports Status_Word
begin

text \<open>
  The command side of \<open>crates/apdu/src\<close>: the validated primitives of \<open>primitives.rs\<close>, the two
  ownership paths of \<open>command.rs\<close> (replay-safe \<open>CommandApdu\<close>, credential-bearing
  \<open>CredentialCommand\<close>) and the response and outcome types of \<open>transport.rs\<close>. The specification
  side is a decoder for the short forms of ISO 7816-4 and a card that collects command chains;
  the constructors are proved against it.
\<close>

section \<open>Primitives\<close>

datatype Aid = Aid (aid_as_bytes: bytes)

datatype AidError = AidLengthOutOfRange nat

definition AID_MIN_LENGTH :: nat where "AID_MIN_LENGTH = 5"
definition AID_MAX_LENGTH :: nat where "AID_MAX_LENGTH = 16"

definition aid_new :: "bytes \<Rightarrow> (Aid, AidError) result" where
  "aid_new bs =
     (if length bs < AID_MIN_LENGTH \<or> length bs > AID_MAX_LENGTH
      then Err (AidLengthOutOfRange (length bs)) else Ok (Aid bs))"

definition aid_len :: "Aid \<Rightarrow> nat" where "aid_len a = length (aid_as_bytes a)"

datatype Sfi = Sfi (sfi_value: u8)

datatype SfiError = SfiOutOfRange u8

definition SFI_MAX :: u8 where "SFI_MAX = 30"
definition SFI_SHORT_FORM_FLAG :: u8 where "SFI_SHORT_FORM_FLAG = 0x80"

definition sfi_new :: "u8 \<Rightarrow> (Sfi, SfiError) result" where
  "sfi_new v = (if v = 0 \<or> v > SFI_MAX then Err (SfiOutOfRange v) else Ok (Sfi v))"

definition sfi_as_p1_short_form :: "Sfi \<Rightarrow> u8" where
  "sfi_as_p1_short_form s = SFI_SHORT_FORM_FLAG OR sfi_value s"

text \<open>A file identifier is an array of exactly two bytes.\<close>

datatype FileId = FileId u8 u8

definition FILE_ID_LENGTH :: nat where "FILE_ID_LENGTH = 2"

definition file_id_from_u16 :: "u16 \<Rightarrow> FileId" where
  "file_id_from_u16 w = FileId (u16_hi w) (u16_lo w)"

definition FILE_ID_MF :: FileId where "FILE_ID_MF = file_id_from_u16 0x3F00"

fun file_id_as_bytes :: "FileId \<Rightarrow> bytes" where
  "file_id_as_bytes (FileId hi lo) = [hi, lo]"

section \<open>Replay-safe commands\<close>

definition APDU_HEADER_LEN :: nat where "APDU_HEADER_LEN = 4"
definition LC_LEN :: nat where "LC_LEN = 1"
definition LE_LEN :: nat where "LE_LEN = 1"
definition SHORT_APDU_DATA_MAX :: nat where "SHORT_APDU_DATA_MAX = 255"
definition SHORT_CASE_2_LEN :: nat where "SHORT_CASE_2_LEN = APDU_HEADER_LEN + LE_LEN"

datatype ApduClass = Plain | SecureMessaging | ChainedFirst

fun class_as_byte :: "ApduClass \<Rightarrow> u8" where
  "class_as_byte Plain = 0x00"
| "class_as_byte SecureMessaging = 0x0C"
| "class_as_byte ChainedFirst = 0x10"

record CommandHeader =
  hdr_class :: ApduClass
  hdr_instruction :: u8
  hdr_p1 :: u8
  hdr_p2 :: u8

definition header_to_bytes :: "CommandHeader \<Rightarrow> bytes" where
  "header_to_bytes h = [class_as_byte (hdr_class h), hdr_instruction h, hdr_p1 h, hdr_p2 h]"

datatype CommandDataError = DataEmpty | DataTooLong nat

record CommandApdu =
  cmd_bytes :: bytes
  cmd_wrong_le_retry :: bool

definition from_wire :: "bytes \<Rightarrow> CommandApdu" where
  "from_wire bs = \<lparr>cmd_bytes = bs, cmd_wrong_le_retry = False\<rparr>"

definition short_form_lc :: "bytes \<Rightarrow> (u8, CommandDataError) result" where
  "short_form_lc data =
     (if data = [] then Err DataEmpty
      else if length data > SHORT_APDU_DATA_MAX then Err (DataTooLong (length data))
      else case u8_try_from (length data) of
             Some lc \<Rightarrow> Ok lc
           | None \<Rightarrow> Err (DataTooLong (length data)))"

definition case_1 :: "CommandHeader \<Rightarrow> CommandApdu" where
  "case_1 header = from_wire (header_to_bytes header)"

definition case_2 :: "CommandHeader \<Rightarrow> u8 \<Rightarrow> CommandApdu" where
  "case_2 header le = from_wire (header_to_bytes header @ [le])"

definition case_3 :: "CommandHeader \<Rightarrow> bytes \<Rightarrow> (CommandApdu, CommandDataError) result" where
  "case_3 header data =
     and_then (short_form_lc data) (\<lambda>lc. Ok (from_wire (header_to_bytes header @ [lc] @ data)))"

definition case_4 :: "CommandHeader \<Rightarrow> bytes \<Rightarrow> u8 \<Rightarrow> (CommandApdu, CommandDataError) result" where
  "case_4 header data le =
     and_then (short_form_lc data)
       (\<lambda>lc. Ok (from_wire (header_to_bytes header @ [lc] @ data @ [le])))"

text \<open>The loop of \<open>command_chain\<close> over the peekable chunk iterator.\<close>

fun chain_loop :: "CommandHeader \<Rightarrow> u8 \<Rightarrow> bytes list \<Rightarrow> (CommandApdu list, CommandDataError) result"
where
  "chain_loop header le [] = Ok []"
| "chain_loop header le [chunk] = and_then (case_4 header chunk le) (\<lambda>c. Ok [c])"
| "chain_loop header le (chunk # rest) =
     and_then (case_3 (header\<lparr>hdr_class := ChainedFirst\<rparr>) chunk)
       (\<lambda>c. and_then (chain_loop header le rest) (\<lambda>cs. Ok (c # cs)))"

definition command_chain ::
  "CommandHeader \<Rightarrow> bytes \<Rightarrow> u8 \<Rightarrow> (CommandApdu list, CommandDataError) result" where
  "command_chain header data le =
     (if data = [] then Err DataEmpty
      else chain_loop header le (chunks SHORT_APDU_DATA_MAX data))"

definition allow_wrong_le_retry :: "CommandApdu \<Rightarrow> CommandApdu" where
  "allow_wrong_le_retry c = c\<lparr>cmd_wrong_le_retry := (length (cmd_bytes c) = SHORT_CASE_2_LEN)\<rparr>"

definition corrected_wrong_le :: "CommandApdu \<Rightarrow> u8 \<Rightarrow> CommandApdu option" where
  "corrected_wrong_le c le =
     (if \<not> cmd_wrong_le_retry c then None
      else if cmd_bytes c = [] then None
      else Some \<lparr>cmd_bytes = butlast (cmd_bytes c) @ [le], cmd_wrong_le_retry = False\<rparr>)"

section \<open>Credential-bearing commands\<close>

definition CREDENTIAL_BODY_MAX :: nat where "CREDENTIAL_BODY_MAX = 24"
definition CREDENTIAL_APDU_MAX :: nat where
  "CREDENTIAL_APDU_MAX = APDU_HEADER_LEN + LC_LEN + CREDENTIAL_BODY_MAX"
definition CREDENTIAL_WIRE_MAX :: nat where "CREDENTIAL_WIRE_MAX = 64"
definition CREDENTIAL_WIRE_PREFIX :: u8 where "CREDENTIAL_WIRE_PREFIX = 5"

datatype CredentialBodyError = BodyEmpty | BodyTooLong | WireTooLong

record UnvalidatedCredentialBlock =
  block_bytes :: bytes
  block_length :: nat

definition block_zeroed :: UnvalidatedCredentialBlock where
  "block_zeroed = \<lparr>block_bytes = replicate CREDENTIAL_BODY_MAX 0, block_length = 0\<rparr>"

definition block_write :: "bytes \<Rightarrow> UnvalidatedCredentialBlock \<Rightarrow> UnvalidatedCredentialBlock" where
  "block_write src b = b\<lparr>block_bytes := copy_into (block_bytes b) 0 src\<rparr>"

definition block_set_filled :: "nat \<Rightarrow> UnvalidatedCredentialBlock \<Rightarrow> UnvalidatedCredentialBlock" where
  "block_set_filled n b = b\<lparr>block_length := n\<rparr>"

record CredentialBody =
  body_bytes :: bytes
  body_length :: u8

definition body_from_block ::
  "UnvalidatedCredentialBlock \<Rightarrow> (CredentialBody, CredentialBodyError) result" where
  "body_from_block block =
     (let declared = block_length block in
      if declared = 0 then Err BodyEmpty
      else if declared > CREDENTIAL_BODY_MAX then Err BodyTooLong
      else case u8_try_from declared of
             None \<Rightarrow> Err BodyTooLong
           | Some len \<Rightarrow>
               Ok \<lparr>body_bytes = copy_into (replicate CREDENTIAL_BODY_MAX 0) 0
                                  (take declared (block_bytes block)),
                   body_length = len\<rparr>)"

record CredentialCommand =
  cred_bytes :: bytes
  cred_length :: u8

definition credential_assemble :: "CommandHeader \<Rightarrow> CredentialBody \<Rightarrow> CredentialCommand" where
  "credential_assemble header body =
     (let bs = replicate CREDENTIAL_WIRE_MAX 0;
          bs = copy_into bs 0 (header_to_bytes header);
          bs = bs[APDU_HEADER_LEN := body_length body];
          data_len = unat (body_length body);
          body_start = APDU_HEADER_LEN + LC_LEN;
          bs = copy_into bs body_start (take data_len (body_bytes body))
      in \<lparr>cred_bytes = bs, cred_length = CREDENTIAL_WIRE_PREFIX + body_length body\<rparr>)"

definition from_protected_parts ::
  "CommandHeader \<Rightarrow> bytes \<Rightarrow> u8 \<Rightarrow> (CredentialCommand, CredentialBodyError) result" where
  "from_protected_parts header body le =
     (if body = [] then Err BodyEmpty
      else
        let total = APDU_HEADER_LEN + LC_LEN + length body + LE_LEN in
        if \<not> total \<le> CREDENTIAL_WIRE_MAX then Err WireTooLong
        else case u8_try_from (length body) of
               None \<Rightarrow> Err WireTooLong
             | Some lc \<Rightarrow>
               (case u8_try_from total of
                  None \<Rightarrow> Err WireTooLong
                | Some len \<Rightarrow>
                    let bs = replicate CREDENTIAL_WIRE_MAX 0;
                        bs = copy_into bs 0 (header_to_bytes header);
                        bs = bs[APDU_HEADER_LEN := lc];
                        body_start = APDU_HEADER_LEN + LC_LEN;
                        bs = copy_into bs body_start body;
                        bs = bs[body_start + length body := le]
                    in Ok \<lparr>cred_bytes = bs, cred_length = len\<rparr>))"

definition expose_wire :: "CredentialCommand \<Rightarrow> (bytes \<Rightarrow> 'r) \<Rightarrow> 'r" where
  "expose_wire c adapter_send = adapter_send (take (unat (cred_length c)) (cred_bytes c))"

section \<open>Responses and outcomes\<close>

record ResponseApdu =
  rsp_body :: bytes
  rsp_sw1 :: u8
  rsp_sw2 :: u8

definition status_word :: "ResponseApdu \<Rightarrow> StatusWord" where
  "status_word r = sw_from_bytes (rsp_sw1 r) (rsp_sw2 r)"

definition response_is_ok :: "ResponseApdu \<Rightarrow> bool" where
  "response_is_ok r = sw_is_success (status_word r)"

datatype TransportErrorKind =
    Backend | KindNoCard | KindTimeoutUnknownState | KindCardReset | KindProtocolDesync
  | KindReaderRemoved

datatype TransportOutcome =
    Response ResponseApdu
  | NoCard | TimeoutUnknownState | CardReset | ProtocolDesync | ReaderRemoved

fun into_response :: "TransportOutcome \<Rightarrow> (ResponseApdu, TransportOutcome) result" where
  "into_response (Response r) = Ok r"
| "into_response other = Err other"

fun outcome_kind :: "TransportOutcome \<Rightarrow> TransportErrorKind option" where
  "outcome_kind (Response _) = None"
| "outcome_kind NoCard = Some KindNoCard"
| "outcome_kind TimeoutUnknownState = Some KindTimeoutUnknownState"
| "outcome_kind CardReset = Some KindCardReset"
| "outcome_kind ProtocolDesync = Some KindProtocolDesync"
| "outcome_kind ReaderRemoved = Some KindReaderRemoved"

section \<open>Specification: short forms and a chaining card\<close>

text \<open>
  \<open>decode_short\<close> reads the four short cases of ISO 7816-4: header alone, header and Le, header,
  Lc and data, and all of them. A card with a chaining buffer appends the data of a command whose
  class byte announces a continuation and dispatches the whole on the command that ends it.
\<close>

record short_apdu =
  sa_header :: bytes
  sa_data :: bytes
  sa_le :: "u8 option"

fun decode_short :: "bytes \<Rightarrow> short_apdu option" where
  "decode_short [c, i, p, q] = Some \<lparr>sa_header = [c, i, p, q], sa_data = [], sa_le = None\<rparr>"
| "decode_short [c, i, p, q, le] =
     Some \<lparr>sa_header = [c, i, p, q], sa_data = [], sa_le = Some le\<rparr>"
| "decode_short (c # i # p # q # lc # body) =
     (if lc = 0 then None
      else if length body = unat lc
        then Some \<lparr>sa_header = [c, i, p, q], sa_data = body, sa_le = None\<rparr>
      else if length body = unat lc + 1
        then Some \<lparr>sa_header = [c, i, p, q], sa_data = butlast body, sa_le = Some (last body)\<rparr>
      else None)"
| "decode_short _ = None"

fun card_run :: "bytes \<Rightarrow> bytes list \<Rightarrow> (bytes \<times> short_apdu list) option" where
  "card_run pending [] = Some (pending, [])"
| "card_run pending (wire # wires) =
     (case decode_short wire of
        None \<Rightarrow> None
      | Some a \<Rightarrow>
          if hd (sa_header a) = class_as_byte ChainedFirst
          then card_run (pending @ sa_data a) wires
          else map_option (\<lambda>(p, done). (p, a\<lparr>sa_data := pending @ sa_data a\<rparr> # done))
                 (card_run [] wires))"

lemma header_to_bytes_cases:
  obtains c i p q where "header_to_bytes h = [c, i, p, q]" "c = class_as_byte (hdr_class h)"
  by (simp add: header_to_bytes_def)

lemma length_header_to_bytes [simp]: "length (header_to_bytes h) = 4"
  by (simp add: header_to_bytes_def)

lemma hd_header_to_bytes [simp]: "hd (header_to_bytes h) = class_as_byte (hdr_class h)"
  by (simp add: header_to_bytes_def)

lemma class_as_byte_inject [simp]: "class_as_byte a = class_as_byte b \<longleftrightarrow> a = b"
  by (cases a; cases b) simp_all

lemma class_as_byte_chained [simp]: "class_as_byte a = 0x10 \<longleftrightarrow> a = ChainedFirst"
  by (cases a) simp_all

lemma of_nat_u8_nonzero: "0 < n \<Longrightarrow> n < 256 \<Longrightarrow> (of_nat n :: u8) \<noteq> 0"
  by (rule notI, drule arg_cong [of _ _ unat]) simp

lemma decode_case_1: "decode_short (header_to_bytes h) =
    Some \<lparr>sa_header = header_to_bytes h, sa_data = [], sa_le = None\<rparr>"
  by (simp add: header_to_bytes_def)

lemma decode_case_2: "decode_short (header_to_bytes h @ [le]) =
    Some \<lparr>sa_header = header_to_bytes h, sa_data = [], sa_le = Some le\<rparr>"
  by (simp add: header_to_bytes_def)

lemma decode_case_3:
  assumes "data \<noteq> []" "length data < 256"
  shows "decode_short (header_to_bytes h @ [of_nat (length data)] @ data) =
    Some \<lparr>sa_header = header_to_bytes h, sa_data = data, sa_le = None\<rparr>"
proof (cases data)
  case (Cons d ds)
  then show ?thesis
    using assms of_nat_u8_nonzero [of "length data"]
    by (simp add: header_to_bytes_def unat_of_nat_u8 del: of_nat_Suc)
qed (use assms in simp)

lemma decode_case_4:
  assumes "data \<noteq> []" "length data < 256"
  shows "decode_short (header_to_bytes h @ [of_nat (length data)] @ data @ [le]) =
    Some \<lparr>sa_header = header_to_bytes h, sa_data = data, sa_le = Some le\<rparr>"
proof (cases data)
  case (Cons d ds)
  then show ?thesis
    using assms of_nat_u8_nonzero [of "length data"]
    by (simp add: header_to_bytes_def unat_of_nat_u8 del: of_nat_Suc)
qed (use assms in simp)

lemmas decode_cases = decode_case_1 decode_case_2 decode_case_3 decode_case_4

lemma short_form_lc_Ok_iff [result_simps]:
  "short_form_lc data = Ok lc \<longleftrightarrow>
     data \<noteq> [] \<and> length data \<le> 255 \<and> lc = of_nat (length data)"
  by (auto simp: short_form_lc_def SHORT_APDU_DATA_MAX_def)

lemma case_3_eq:
  "data \<noteq> [] \<Longrightarrow> length data \<le> 255 \<Longrightarrow>
     case_3 h data = Ok (from_wire (header_to_bytes h @ [of_nat (length data)] @ data))"
  by (simp add: case_3_def short_form_lc_def SHORT_APDU_DATA_MAX_def)

lemma case_4_eq:
  "data \<noteq> [] \<Longrightarrow> length data \<le> 255 \<Longrightarrow>
     case_4 h data le = Ok (from_wire (header_to_bytes h @ [of_nat (length data)] @ data @ [le]))"
  by (simp add: case_4_def short_form_lc_def SHORT_APDU_DATA_MAX_def)

lemma from_wire_sel [simp]: "cmd_bytes (from_wire bs) = bs" "\<not> cmd_wrong_le_retry (from_wire bs)"
  by (simp_all add: from_wire_def)

lemma chain_loop_card:
  assumes "cs \<noteq> []" "\<forall>c\<in>set cs. c \<noteq> [] \<and> length c \<le> 255" "hdr_class h \<noteq> ChainedFirst"
  shows "\<exists>cmds. chain_loop h le cs = Ok cmds \<and> length cmds = length cs \<and>
           card_run pending (map cmd_bytes cmds) =
             Some ([], [\<lparr>sa_header = header_to_bytes h, sa_data = pending @ concat cs,
                         sa_le = Some le\<rparr>])"
  using assms
proof (induction h le cs arbitrary: pending rule: chain_loop.induct)
  case (2 h le c)
  then show ?case by (simp add: case_4_eq decode_case_4 [simplified])
next
  case (3 h le c d ds)
  obtain cmds where cmds: "chain_loop h le (d # ds) = Ok cmds" "length cmds = length (d # ds)"
      "card_run (pending @ c) (map cmd_bytes cmds) =
         Some ([], [\<lparr>sa_header = header_to_bytes h, sa_data = (pending @ c) @ concat (d # ds),
                     sa_le = Some le\<rparr>])"
    using "3.IH" [of "pending @ c"] "3.prems" by auto
  have c: "c \<noteq> []" "length c \<le> 255" "length c < 256"
    using "3.prems" by auto
  note case_3_eq [OF c(1,2), of "h\<lparr>hdr_class := ChainedFirst\<rparr>"]
    decode_case_3 [OF c(1,3), of "h\<lparr>hdr_class := ChainedFirst\<rparr>"]
  with cmds show ?case
    by simp
qed simp

section \<open>Properties of replay-safe commands\<close>

text \<open>
  Property C40. A command chain delivers exactly its data field: for any header that is not
  itself a continuation and any non-empty data of whatever length, \<open>command_chain\<close> succeeds,
  and a card that collects the resulting wire commands dispatches exactly one command, with
  the caller's header, the whole data field and the caller's Le, and holds nothing back.
\<close>
theorem command_chain_delivers:
  assumes "data \<noteq> []" "hdr_class header \<noteq> ChainedFirst"
  shows "\<exists>cmds. command_chain header data le = Ok cmds \<and>
           length cmds = (length data + 254) div 255 \<and>
           card_run [] (map cmd_bytes cmds) =
             Some ([], [\<lparr>sa_header = header_to_bytes header, sa_data = data, sa_le = Some le\<rparr>])"
proof -
  have cs: "chunks 255 data \<noteq> []" "\<forall>c\<in>set (chunks 255 data). c \<noteq> [] \<and> length c \<le> 255"
    using assms chunks_bounds by (auto simp: chunks_eq_Nil_iff)
  show ?thesis
    using chain_loop_card [OF cs assms(2), of le "[]"] assms(1)
    by (simp add: command_chain_def SHORT_APDU_DATA_MAX_def concat_chunks length_chunks)
qed

theorem command_chain_delivers_witness:
  "\<exists>cmds. command_chain \<lparr>hdr_class = Plain, hdr_instruction = 0x2A, hdr_p1 = 0, hdr_p2 = 0\<rparr>
            (replicate 300 7) 0 = Ok cmds \<and> length cmds = 2"
  using command_chain_delivers [of "replicate 300 7"
      "\<lparr>hdr_class = Plain, hdr_instruction = 0x2A, hdr_p1 = 0, hdr_p2 = 0\<rparr>" 0]
  by fastforce

text \<open>
  The wrong-Le correction happens at most once and changes only Le: a corrected
  command exists only for a command that was marked by its builder, has every byte but the last
  in common with it, and cannot itself be corrected, whatever Le is asked for.
\<close>
theorem wrong_le_corrected_once:
  assumes "corrected_wrong_le c le = Some c'"
  shows "cmd_wrong_le_retry c \<and> cmd_bytes c' = butlast (cmd_bytes c) @ [le] \<and>
         length (cmd_bytes c') = length (cmd_bytes c) \<and> (\<forall>le'. corrected_wrong_le c' le' = None)"
  using assms by (auto simp: corrected_wrong_le_def split: if_splits)

theorem wrong_le_corrected_once_witness:
  "corrected_wrong_le (allow_wrong_le_retry (from_wire [0, 0xB0, 0, 0, 0])) 9 =
     Some \<lparr>cmd_bytes = [0, 0xB0, 0, 0, 9], cmd_wrong_le_retry = False\<rparr> \<and>
   corrected_wrong_le \<lparr>cmd_bytes = [0, 0xB0, 0, 0, 9], cmd_wrong_le_retry = False\<rparr> 3 = None"
  using wrong_le_corrected_once [of "allow_wrong_le_retry (from_wire [0, 0xB0, 0, 0, 0])" 9
      "\<lparr>cmd_bytes = [0, 0xB0, 0, 0, 9], cmd_wrong_le_retry = False\<rparr>"]
  by (simp add: corrected_wrong_le_def allow_wrong_le_retry_def from_wire_def
      SHORT_CASE_2_LEN_def APDU_HEADER_LEN_def LE_LEN_def)

section \<open>Properties of credential commands\<close>

lemmas credential_consts = CREDENTIAL_WIRE_MAX_def CREDENTIAL_BODY_MAX_def APDU_HEADER_LEN_def
  LC_LEN_def LE_LEN_def CREDENTIAL_WIRE_PREFIX_def

lemma wire_layout:
  assumes "length hdr = 4" "length d \<le> 59"
  shows "copy_into ((copy_into (replicate 64 (0 :: u8)) 0 hdr)[4 := x]) 5 d =
           hdr @ [x] @ d @ replicate (59 - length d) 0"
proof -
  have "replicate 60 (0 :: u8) = 0 # replicate 59 0"
    using replicate_Suc [of 59] by simp
  then have "(copy_into (replicate 64 (0 :: u8)) 0 hdr)[4 := x] = hdr @ [x] @ replicate 59 0"
    using assms by (simp add: copy_into_zero list_update_append)
  then show ?thesis
    using assms by (simp add: copy_into_def)
qed

text \<open>The bytes a card sees when the command is exposed to an adapter.\<close>

abbreviation credential_wire :: "CredentialCommand \<Rightarrow> bytes" where
  "credential_wire c \<equiv> expose_wire c (\<lambda>w. w)"

lemma credential_assemble_wire:
  assumes "length (body_bytes b) = 24" "unat (body_length b) \<le> 24"
  shows "credential_wire (credential_assemble h b) =
           header_to_bytes h @ [body_length b] @ take (unat (body_length b)) (body_bytes b)"
proof -
  have "unat (5 + body_length b) = 5 + unat (body_length b)"
    using assms by (simp add: unat_word_ariths)
  then show ?thesis
    using assms by (simp add: credential_assemble_def expose_wire_def credential_consts wire_layout)
qed

lemma body_from_block_Ok:
  assumes "0 < block_length b" "block_length b \<le> 24" "length (block_bytes b) = 24"
  shows "body_from_block b =
           Ok \<lparr>body_bytes = take (block_length b) (block_bytes b) @ replicate (24 - block_length b) 0,
               body_length = of_nat (block_length b)\<rparr>"
  using assms by (simp add: body_from_block_def Let_def credential_consts copy_into_zero)

text \<open>
  A credential of one to twenty-four bytes, written into a zeroed block, declared
  and assembled, reaches the adapter as the header, its length and the credential, and nothing
  else: no byte is lost, padded or repeated, and a card reads it as one case 3 command.
\<close>
theorem credential_command_exact:
  assumes "secret \<noteq> []" "length secret \<le> CREDENTIAL_BODY_MAX"
  shows "\<exists>body. body_from_block (block_set_filled (length secret) (block_write secret block_zeroed))
                  = Ok body \<and>
           credential_wire (credential_assemble header body) =
             header_to_bytes header @ [of_nat (length secret)] @ secret \<and>
           decode_short (credential_wire (credential_assemble header body)) =
             Some \<lparr>sa_header = header_to_bytes header, sa_data = secret, sa_le = None\<rparr>"
proof -
  let ?b = "block_set_filled (length secret) (block_write secret block_zeroed)"
  have b: "block_bytes ?b = secret @ replicate (24 - length secret) 0" "block_length ?b = length secret"
    by (simp_all add: block_set_filled_def block_write_def block_zeroed_def copy_into_zero
        CREDENTIAL_BODY_MAX_def)
  have len: "length secret < 256" "length secret \<le> 24"
    using assms(2) by (simp_all add: CREDENTIAL_BODY_MAX_def)
  define body where "body = \<lparr>body_bytes = secret @ replicate (24 - length secret) (0 :: u8),
      body_length = of_nat (length secret)\<rparr>"
  have "body_from_block ?b = Ok body"
    using body_from_block_Ok [of ?b] assms(1) len(2) b by (simp add: body_def)
  moreover have "credential_wire (credential_assemble header body) =
      header_to_bytes header @ [of_nat (length secret)] @ secret"
    using len by (subst credential_assemble_wire) (simp_all add: body_def)
  ultimately show ?thesis
    using decode_case_3 [OF assms(1) len(1), of header] by (intro exI [of _ body]) simp
qed

theorem credential_command_exact_witness:
  "\<exists>body. body_from_block (block_set_filled (Suc (Suc (Suc (Suc 0)))) (block_write [0x31, 0x32, 0x33, 0x34] block_zeroed))
            = Ok body \<and>
     credential_wire (credential_assemble
       \<lparr>hdr_class = Plain, hdr_instruction = 0x20, hdr_p1 = 0, hdr_p2 = 0x11\<rparr> body) =
       [0, 0x20, 0, 0x11, 4, 0x31, 0x32, 0x33, 0x34]"
  using credential_command_exact [of "[0x31, 0x32, 0x33, 0x34]"
      "\<lparr>hdr_class = Plain, hdr_instruction = 0x20, hdr_p1 = 0, hdr_p2 = 0x11\<rparr>"]
  by (auto simp: CREDENTIAL_BODY_MAX_def header_to_bytes_def)

lemma protected_wire:
  assumes "body \<noteq> []" "length body \<le> 58"
  shows "\<exists>c. from_protected_parts header body le = Ok c \<and>
    credential_wire c = header_to_bytes header @ [of_nat (length body)] @ body @ [le]"
proof -
  let ?bs = "header_to_bytes header @ [of_nat (length body)] @ body @ replicate (59 - length body) 0"
  let ?c = "\<lparr>cred_bytes = ?bs[5 + length body := le], cred_length = of_nat (6 + length body)\<rparr>"
  have ok: "from_protected_parts header body le = Ok ?c"
    using assms by (simp add: from_protected_parts_def Let_def credential_consts wire_layout
        add.commute del: append_Cons append_assoc)
  have "replicate (59 - length body) (0 :: u8) = 0 # replicate (58 - length body) 0"
    using assms by (metis Suc_diff_le replicate_Suc eval_nat_numeral(3) semiring_norm(26)
        semiring_norm(27) semiring_norm(28))
  then have "?bs[5 + length body := le] =
      header_to_bytes header @ [of_nat (length body)] @ body @ [le] @ replicate (58 - length body) 0"
    by (simp add: list_update_append)
  then have "credential_wire ?c = header_to_bytes header @ [of_nat (length body)] @ body @ [le]"
    using assms by (simp add: expose_wire_def unat_of_nat_u8 del: of_nat_add)
  with ok show ?thesis by blast
qed

text \<open>
  A protected credential body is accepted exactly when it is non-empty and fits the
  sixty-four byte storage with its header, Lc and Le; an accepted one is exposed as a case 4
  command carrying that body and Le, and a rejected one names the reason.
\<close>
theorem protected_credential_exact:
  "(body = [] \<longrightarrow> from_protected_parts header body le = Err BodyEmpty) \<and>
   (body \<noteq> [] \<and> 58 < length body \<longrightarrow> from_protected_parts header body le = Err WireTooLong) \<and>
   (body \<noteq> [] \<and> length body \<le> 58 \<longrightarrow>
      (\<exists>c. from_protected_parts header body le = Ok c \<and>
           decode_short (credential_wire c) =
             Some \<lparr>sa_header = header_to_bytes header, sa_data = body, sa_le = Some le\<rparr>))"
proof (cases "body \<noteq> [] \<and> length body \<le> 58")
  case True
  then obtain c where "from_protected_parts header body le = Ok c"
    "credential_wire c = header_to_bytes header @ [of_nat (length body)] @ body @ [le]"
    using protected_wire by blast
  then show ?thesis
    using True decode_case_4 [of body header le] by auto
next
  case False
  then show ?thesis
    by (auto simp: from_protected_parts_def Let_def credential_consts)
qed

theorem protected_credential_exact_witness:
  "\<exists>c. from_protected_parts \<lparr>hdr_class = SecureMessaging, hdr_instruction = 0x20, hdr_p1 = 0,
         hdr_p2 = 0x11\<rparr> [0x87, 0x01, 0x05] 0 = Ok c \<and>
       map_option sa_data (decode_short (credential_wire c)) = Some [0x87, 0x01, 0x05]"
  using protected_credential_exact [of "[0x87, 0x01, 0x05]" "\<lparr>hdr_class = SecureMessaging,
      hdr_instruction = 0x20, hdr_p1 = 0, hdr_p2 = 0x11\<rparr>" 0]
  by auto

end
