(* ===== verification/Iso7816.thy ===== *)
theory Iso7816
  imports Apdu
begin

text \<open>
  The typed command builders of \<open>crates/apdu/src/iso7816.rs\<close>: the SELECT forms, GET RESPONSE
  and READ BINARY with its two addressing modes. The theory shows that every builder emits a
  well-formed short command for every input its argument types admit, and that the addressing
  bytes of READ BINARY name one selector only.
\<close>

datatype SelectByAidNoFci = SelectByAidNoFci Aid

fun select_by_aid_into_apdu :: "SelectByAidNoFci \<Rightarrow> CommandApdu" where
  "select_by_aid_into_apdu (SelectByAidNoFci aid) =
     from_wire ([0x00, 0xA4, 0x04, 0x0C]
       @ [case u8_try_from (length (aid_as_bytes aid)) of Some n \<Rightarrow> n | None \<Rightarrow> 255]
       @ aid_as_bytes aid)"

datatype SelectEfNoFci = SelectEfNoFci FileId

fun select_ef_into_apdu :: "SelectEfNoFci \<Rightarrow> CommandApdu" where
  "select_ef_into_apdu (SelectEfNoFci fid) =
     from_wire ([0x00, 0xA4, 0x02, 0x0C, 2] @ file_id_as_bytes fid)"

datatype AbsolutePath = AbsolutePath (as_fids: "FileId list")

datatype AbsolutePathError = PathEmpty | PathStartsWithMf | PathTooLong nat

definition MAX_FIDS :: nat where "MAX_FIDS = 127"

definition absolute_path_new :: "FileId list \<Rightarrow> (AbsolutePath, AbsolutePathError) result" where
  "absolute_path_new fids =
     (if fids = [] then Err PathEmpty
      else if hd fids = FILE_ID_MF then Err PathStartsWithMf
      else if length fids > MAX_FIDS then Err (PathTooLong (length fids))
      else Ok (AbsolutePath fids))"

datatype SelectFileTarget =
    AnyByFileId "FileId option"
  | EfUnderCurrentDf FileId
  | ByName Aid
  | ByAbsolutePath AbsolutePath

fun target_as_p1 :: "SelectFileTarget \<Rightarrow> u8" where
  "target_as_p1 (AnyByFileId _) = 0x00"
| "target_as_p1 (EfUnderCurrentDf _) = 0x02"
| "target_as_p1 (ByName _) = 0x04"
| "target_as_p1 (ByAbsolutePath _) = 0x08"

fun target_data_len :: "SelectFileTarget \<Rightarrow> nat" where
  "target_data_len (AnyByFileId None) = 0"
| "target_data_len (AnyByFileId (Some _)) = FILE_ID_LENGTH"
| "target_data_len (EfUnderCurrentDf _) = FILE_ID_LENGTH"
| "target_data_len (ByName aid) = aid_len aid"
| "target_data_len (ByAbsolutePath path) = length (as_fids path) * FILE_ID_LENGTH"

fun target_append_data :: "SelectFileTarget \<Rightarrow> bytes \<Rightarrow> bytes" where
  "target_append_data (AnyByFileId None) out = out"
| "target_append_data (AnyByFileId (Some fid)) out = out @ file_id_as_bytes fid"
| "target_append_data (EfUnderCurrentDf fid) out = out @ file_id_as_bytes fid"
| "target_append_data (ByName aid) out = out @ aid_as_bytes aid"
| "target_append_data (ByAbsolutePath path) out =
     foldl (\<lambda>acc fid. acc @ file_id_as_bytes fid) out (as_fids path)"

datatype SelectFileResponseMode = Fci | Fcp | NoResponse

fun mode_as_p2 :: "SelectFileResponseMode \<Rightarrow> u8" where
  "mode_as_p2 Fci = 0x00"
| "mode_as_p2 Fcp = 0x04"
| "mode_as_p2 NoResponse = 0x0C"

record SelectFile =
  sf_class :: ApduClass
  sf_target :: SelectFileTarget
  sf_response_mode :: SelectFileResponseMode

definition SELECT_INS :: u8 where "SELECT_INS = 0xA4"
definition SELECT_LE_ANY :: u8 where "SELECT_LE_ANY = 0x00"

definition select_file_into_apdu :: "SelectFile \<Rightarrow> CommandApdu" where
  "select_file_into_apdu s =
     (let data_len = target_data_len (sf_target s);
          out = [class_as_byte (sf_class s), SELECT_INS, target_as_p1 (sf_target s),
                 mode_as_p2 (sf_response_mode s)];
          out = (if data_len > 0
                 then target_append_data (sf_target s)
                        (out @ [case u8_try_from data_len of Some n \<Rightarrow> n | None \<Rightarrow> 255])
                 else out);
          out = (if sf_response_mode s = Fci \<or> sf_response_mode s = Fcp
                 then out @ [SELECT_LE_ANY] else out)
      in from_wire out)"

record GetResponse =
  gr_class :: ApduClass
  gr_le :: u8

definition get_response_into_apdu :: "GetResponse \<Rightarrow> CommandApdu" where
  "get_response_into_apdu g =
     allow_wrong_le_retry (from_wire [class_as_byte (gr_class g), 0xC0, 0x00, 0x00, gr_le g])"

datatype DirectOffset15 = DirectOffset15 (offset_as_u16: u16)

datatype DirectOffset15Error = OffsetOutOfRange u16

definition DIRECT_OFFSET_MAX :: u16 where "DIRECT_OFFSET_MAX = 0x7FFF"

definition direct_offset_try_new :: "u16 \<Rightarrow> (DirectOffset15, DirectOffset15Error) result" where
  "direct_offset_try_new off =
     (if off > DIRECT_OFFSET_MAX then Err (OffsetOutOfRange off) else Ok (DirectOffset15 off))"

datatype ReadBinaryOffset = Direct DirectOffset15 | BySfi Sfi u8

fun offset_as_p1 :: "ReadBinaryOffset \<Rightarrow> u8" where
  "offset_as_p1 (Direct off) = u16_hi (offset_as_u16 off)"
| "offset_as_p1 (BySfi sfi _) = sfi_as_p1_short_form sfi"

fun offset_as_p2 :: "ReadBinaryOffset \<Rightarrow> u8" where
  "offset_as_p2 (Direct off) = u16_lo (offset_as_u16 off)"
| "offset_as_p2 (BySfi _ off) = off"

record ReadBinary =
  rb_class :: ApduClass
  rb_offset :: ReadBinaryOffset
  rb_le :: u8

definition read_binary_into_apdu :: "ReadBinary \<Rightarrow> CommandApdu" where
  "read_binary_into_apdu r =
     allow_wrong_le_retry (from_wire [class_as_byte (rb_class r), 0xB0, offset_as_p1 (rb_offset r),
       offset_as_p2 (rb_offset r), rb_le r])"

section \<open>What the argument types admit\<close>

text \<open>
  A value of a validated type exists only through its constructor: an argument is admitted when
  the constructor returns it.
\<close>

definition aid_admitted :: "Aid \<Rightarrow> bool" where
  "aid_admitted a \<longleftrightarrow> aid_new (aid_as_bytes a) = Ok a"

definition path_admitted :: "AbsolutePath \<Rightarrow> bool" where
  "path_admitted p \<longleftrightarrow> absolute_path_new (as_fids p) = Ok p"

fun target_admitted :: "SelectFileTarget \<Rightarrow> bool" where
  "target_admitted (ByName a) \<longleftrightarrow> aid_admitted a"
| "target_admitted (ByAbsolutePath p) \<longleftrightarrow> path_admitted p"
| "target_admitted _ \<longleftrightarrow> True"

fun offset_admitted :: "ReadBinaryOffset \<Rightarrow> bool" where
  "offset_admitted (Direct off) \<longleftrightarrow> direct_offset_try_new (offset_as_u16 off) = Ok off"
| "offset_admitted (BySfi sfi _) \<longleftrightarrow> sfi_new (sfi_value sfi) = Ok sfi"

lemma aid_admitted_iff: "aid_admitted a \<longleftrightarrow> 5 \<le> aid_len a \<and> aid_len a \<le> 16"
  by (cases a) (auto simp: aid_admitted_def aid_new_def aid_len_def AID_MIN_LENGTH_def
      AID_MAX_LENGTH_def)

lemma path_admitted_iff:
  "path_admitted p \<longleftrightarrow>
     as_fids p \<noteq> [] \<and> hd (as_fids p) \<noteq> FILE_ID_MF \<and> length (as_fids p) \<le> 127"
  by (cases p) (auto simp: path_admitted_def absolute_path_new_def MAX_FIDS_def)

lemma length_file_id_as_bytes [simp]: "length (file_id_as_bytes f) = 2"
  by (cases f) simp

lemma foldl_append_eq: "foldl (\<lambda>acc x. acc @ f x) out xs = out @ concat (map f xs)"
  by (induction xs arbitrary: out) simp_all

text \<open>The data field of a SELECT target, read off independently of the output buffer.\<close>

abbreviation target_data :: "SelectFileTarget \<Rightarrow> bytes" where
  "target_data t \<equiv> target_append_data t []"

lemma target_append_data_eq: "target_append_data t out = out @ target_data t"
proof (cases t)
  case (AnyByFileId f)
  then show ?thesis by (cases f) simp_all
qed (simp_all add: foldl_append_eq)

lemma length_concat_fids: "length (concat (map file_id_as_bytes fs)) = length fs * 2"
  by (induction fs) simp_all

lemma length_target_data: "length (target_data t) = target_data_len t"
proof (cases t)
  case (AnyByFileId f)
  then show ?thesis by (cases f) (simp_all add: FILE_ID_LENGTH_def)
qed (simp_all add: FILE_ID_LENGTH_def aid_len_def foldl_append_eq length_concat_fids)

lemma target_data_len_bound: "target_admitted t \<Longrightarrow> target_data_len t < 256"
proof (cases t)
  case (AnyByFileId f)
  then show ?thesis by (cases f) (simp_all add: FILE_ID_LENGTH_def)
qed (simp_all add: FILE_ID_LENGTH_def aid_admitted_iff path_admitted_iff)

section \<open>Properties\<close>

definition select_header :: "SelectFile \<Rightarrow> CommandHeader" where
  "select_header s = \<lparr>hdr_class = sf_class s, hdr_instruction = SELECT_INS,
     hdr_p1 = target_as_p1 (sf_target s), hdr_p2 = mode_as_p2 (sf_response_mode s)\<rparr>"

lemma select_file_wire:
  "target_admitted (sf_target s) \<Longrightarrow>
   cmd_bytes (select_file_into_apdu s) =
     header_to_bytes (select_header s)
     @ (if target_data (sf_target s) = [] then []
        else [of_nat (length (target_data (sf_target s)))] @ target_data (sf_target s))
     @ (if sf_response_mode s = NoResponse then [] else [0])"
  using target_data_len_bound [of "sf_target s"] length_target_data [of "sf_target s"]
  by (cases "sf_response_mode s")
    (auto simp: select_file_into_apdu_def Let_def select_header_def header_to_bytes_def
      target_append_data_eq [of _ "_ # _"] SELECT_LE_ANY_def simp flip: length_greater_0_conv)

text \<open>
  SELECT FILE is well formed for every admitted target, class and response mode: a
  card decodes the emitted bytes to the SELECT header with the P1 and P2 of the request, exactly
  the data field of the target, and an Le exactly when a response template is expected.
\<close>
theorem select_file_well_formed:
  assumes "target_admitted (sf_target s)"
  shows "decode_short (cmd_bytes (select_file_into_apdu s)) =
           Some \<lparr>sa_header = header_to_bytes (select_header s), sa_data = target_data (sf_target s),
                 sa_le = (if sf_response_mode s = NoResponse then None else Some 0)\<rparr>"
proof -
  have "length (target_data (sf_target s)) < 256"
    using target_data_len_bound [OF assms] length_target_data [of "sf_target s"] by simp
  then show ?thesis
    unfolding select_file_wire [OF assms]
    using decode_case_1 [of "select_header s"] decode_case_2 [of "select_header s" 0]
      decode_case_3 [of "target_data (sf_target s)" "select_header s"]
      decode_case_4 [of "target_data (sf_target s)" "select_header s" 0]
    by auto
qed

theorem select_file_well_formed_witness:
  "decode_short (cmd_bytes (select_file_into_apdu \<lparr>sf_class = Plain,
     sf_target = ByAbsolutePath (AbsolutePath [FileId 0x50 0x15, FileId 0x43 0x31]),
     sf_response_mode = Fci\<rparr>)) =
   Some \<lparr>sa_header = [0, 0xA4, 8, 0], sa_data = [0x50, 0x15, 0x43, 0x31], sa_le = Some 0\<rparr>"
  using select_file_well_formed [of "\<lparr>sf_class = Plain,
     sf_target = ByAbsolutePath (AbsolutePath [FileId 0x50 0x15, FileId 0x43 0x31]),
     sf_response_mode = Fci\<rparr>"]
  by (simp add: path_admitted_iff FILE_ID_MF_def file_id_from_u16_def u16_hi_def u16_lo_def
      select_header_def header_to_bytes_def SELECT_INS_def)

lemma offset_admitted_direct: "offset_admitted (Direct off) \<Longrightarrow> \<not> bit (offset_as_p1 (Direct off)) 7"
proof -
  assume "offset_admitted (Direct off)"
  then have "unat (offset_as_u16 off) < 2 ^ 15"
    by (cases off) (auto simp: direct_offset_try_new_def DIRECT_OFFSET_MAX_def word_less_nat_alt
        split: if_splits)
  then have "\<not> bit (offset_as_u16 off) 15"
    using bit_take_bit_iff [of 15 "offset_as_u16 off" 15] by (simp add: take_bit_word_self)
  then show ?thesis
    by (simp add: u16_hi_def bit_simps)
qed

lemma sfi_p1_bit: "bit (offset_as_p1 (BySfi sfi off)) 7"
  by (simp add: sfi_as_p1_short_form_def SFI_SHORT_FORM_FLAG_def bit_simps)

lemma sfi_p1_value:
  assumes "offset_admitted (BySfi sfi off)"
  shows "take_bit 5 (offset_as_p1 (BySfi sfi off)) = sfi_value sfi"
proof -
  have "unat (sfi_value sfi) < 2 ^ 5"
    using assms by (auto simp: sfi_new_def SFI_MAX_def word_less_nat_alt split: if_splits)
  then have "take_bit 5 (sfi_value sfi) = sfi_value sfi" by (rule take_bit_word_self)
  then show ?thesis
    by (simp add: sfi_as_p1_short_form_def SFI_SHORT_FORM_FLAG_def take_bit_or)
qed

text \<open>
  The addressing bytes of READ BINARY are unambiguous: two admitted selectors with
  the same P1 and P2 are the same selector, so a direct fifteen-bit offset is never read as a
  short file identifier or the other way round.
\<close>
theorem read_binary_addressing_unique:
  assumes "offset_admitted a" "offset_admitted b"
    and "offset_as_p1 a = offset_as_p1 b" "offset_as_p2 a = offset_as_p2 b"
  shows "a = b"
proof (cases a; cases b)
  fix x y assume ab: "a = Direct x" "b = Direct y"
  then have "offset_as_u16 x = offset_as_u16 y"
    using assms(3,4) u16_of_be_parts by (metis offset_as_p1.simps(1) offset_as_p2.simps(1))
  then show "a = b" using ab by (simp add: DirectOffset15.expand)
next
  fix x s o' assume ab: "a = Direct x" "b = BySfi s o'"
  then show "a = b" using offset_admitted_direct sfi_p1_bit assms(1,3) by metis
next
  fix x s o' assume ab: "a = BySfi s o'" "b = Direct x"
  then show "a = b" using offset_admitted_direct sfi_p1_bit assms(2,3) by metis
next
  fix s o' t p assume ab: "a = BySfi s o'" "b = BySfi t p"
  then have "sfi_value s = sfi_value t" using sfi_p1_value assms(1,2,3) by metis
  then show "a = b" using ab assms(4) by (simp add: Sfi.expand)
qed

theorem read_binary_addressing_unique_witness:
  "offset_admitted (BySfi (Sfi 30) 4) \<and> offset_admitted (Direct (DirectOffset15 0x1E04)) \<and>
   \<not> (offset_as_p1 (BySfi (Sfi 30) 4) = offset_as_p1 (Direct (DirectOffset15 0x1E04)) \<and>
      offset_as_p2 (BySfi (Sfi 30) 4) = offset_as_p2 (Direct (DirectOffset15 0x1E04)))"
  using read_binary_addressing_unique [of "BySfi (Sfi 30) 4" "Direct (DirectOffset15 0x1E04)"]
  by (auto simp: sfi_new_def SFI_MAX_def direct_offset_try_new_def DIRECT_OFFSET_MAX_def)

text \<open>
  Exactly the read-only case 2 builders, GET RESPONSE and READ BINARY, produce a
  command that an adapter may correct after a wrong-Le status; the correction is the same request
  with the Le the card asked for. No SELECT form can be replayed this way.
\<close>
theorem wrong_le_retry_only_reads:
  "corrected_wrong_le (get_response_into_apdu g) le =
     Some (from_wire (butlast (cmd_bytes (get_response_into_apdu g)) @ [le])) \<and>
   corrected_wrong_le (read_binary_into_apdu r) le =
     Some (from_wire (cmd_bytes (read_binary_into_apdu (r\<lparr>rb_le := le\<rparr>)))) \<and>
   corrected_wrong_le (select_file_into_apdu s) le = None \<and>
   corrected_wrong_le (select_by_aid_into_apdu a) le = None \<and>
   corrected_wrong_le (select_ef_into_apdu f) le = None"
  by (cases a; cases f)
    (simp add: corrected_wrong_le_def get_response_into_apdu_def read_binary_into_apdu_def
      allow_wrong_le_retry_def select_file_into_apdu_def SHORT_CASE_2_LEN_def APDU_HEADER_LEN_def
      LE_LEN_def Let_def from_wire_def)

end
