(* ===== verification/Rapp_State.thy ===== *)
theory Rapp_State
  imports Prelude
begin

text \<open>
  The three state machines of \<open>crates/rapp/src/state.rs\<close> and the endpoint state they drive:
  pairing, session and operation, each a table from a state and an event to a successor and an
  ordered list of effects. A table is split into consecutive groups of match arms; a group
  answers \<open>None\<close> for input it has no arm for, and the whole transition is the first group that
  answers, then \<open>UnexpectedInput\<close>. No two arms overlap, so the split keeps the meaning of the
  match. The name \<open>None\<close> of the idle operation is written \<open>OpNone\<close>, and the two events called
  \<open>SessionClosed\<close> carry their machine's name.
\<close>

datatype EndpointRole =
    Requester | Proxy

record Guards =
  g_user_initiated :: bool
  g_local_user_action :: bool
  g_transcript_matches :: bool
  g_granted_sets_equal :: bool
  g_initiation_permitted :: bool
  g_pairing_routed :: bool
  g_ready_parameters_match :: bool
  g_untried_pairing_candidate :: bool

definition Guards_default :: Guards where
  "Guards_default = \<lparr>g_user_initiated = False, g_local_user_action = False, g_transcript_matches = False,
     g_granted_sets_equal = False, g_initiation_permitted = False, g_pairing_routed = False,
     g_ready_parameters_match = False, g_untried_pairing_candidate = False\<rparr>"

datatype PairingState =
    Unpaired | Offering | Exchanging | Handshaking | Confirming | StorageConfirming
  | PairedDisconnected | PairedConnected | Revoking | Revoked

datatype SessionState =
    Absent | Connecting | Authenticating | Healthy | Closing | Closed

datatype OperationState =
    OpNone | Requested | Queued | AwaitingConsent | Executing | Completed | Rejected
  | Cancelled

datatype PairingEvent =
    StartPairing | OfferExpiredOrCancelled | AttemptStarted | CodeEntered | AttemptFailed
  | AttemptRefused | CandidateBusy | LastCandidateFailed | NoCustodianTried | SearchInterrupted
  | KeyConfirmed | HandshakeAuthenticated | HandshakeFailed | HelloVerified | BothConfirmed
  | DeniedAbortedOrTimedOut | PairRecordStoreFailed | PeerStorageConfirmed | SessionHealthy
  | PairingSessionClosed | ForgetPairing | ExpiryCheck | IdleExpired | RevocationNoticeSent
  | NoticeWindowExpired | RevocationAttemptEnded | PeerRevocationNotice | PeerWithdrawalNotice

datatype SessionEvent =
    Connect | PreambleReceived | TransportConnected | TransportFailed | HandshakeComplete
  | HandshakeCompleteWhileRevoking | ReadyVerified | CandidateFailure
  | AuthenticatedProtocolViolation | SessionHelloReceived | PeerSilent | SilenceLimitReached
  | UserDisconnect | LocalCloseRequested | ServiceWithdrawn | CardUnavailable
  | PeerCloseReceived | SessionIntegrityFailed | CloseRequestedByPairing
  | CloseCompleteOrDeadline

datatype OperationEvent =
    RequestReceived | RequestDuplicate | RequestWhileBusy | RequestUnauthorized
  | RequestUnsupported | CardHeldElsewhere | CardAcquiredForConsent | CardAcquiredForRead
  | UserDenied | UserApproved | WaitingForCard | CardFound | WrongPin | RetryFloorRefused
  | CardSuccess | CardError | RequestExpired | OpSessionClosed | RequestSent | ProgressReceived
  | ResultCompletedReceived | ResultRejectedReceived | ResultCancelledReceived

text \<open>
  The enumeration \<open>Action\<close> is written as four consecutive ranges of its variants, in the order of
  the source: the pairing ceremony, the stored record, the session and the operation.
\<close>

datatype CeremonyAction =
    GenerateOffer | GeneratePairingCode | AdvertisePairingMode | DisplayPairingCode
  | HidePairingCode | DestroyOffer | ReadOffer | BeginCpaceInitiator | TryNextCandidate
  | AdmitAttempt | EndFailedAttempt | AnswerBusy | DeferCandidate | ShowWrongCode
  | ShowNoneInPairingMode | ConsumeOffer | DerivePairingSecret | BeginPairingHandshake
  | DeriveChannelIdentifiers | DestroyPairingSecret | SendPairingHello | SendPairingConfirm
  | SendPairingAbortBestEffort | DestroyCandidateKeys | CloseCandidate

datatype RecordAction =
    StorePairRecordAtomically | SendPairingStored | MarkRecordConfirmed | ClosePairingChannel
  | RevokeUnconfirmedPairRecord | MarkRecordRevoked | SendClosePairingRevoked | CloseSession
  | DestroyPairKeys | RecordLastSession | WithdrawIdentity | ShowConnected
  | ShowPairedDisconnected | ShowForgotten | ShowPeerForgot | ShowPeerWithdrawn
  | ClearResidualPairRecord | SendSessionHello | RecordPeerDisplayName | ShowPairingNotStored

datatype SessionAction =
    OpenTransport | SendSessionPreamble | BeginKkInitiator | BeginKkResponder
  | DeriveSessionIdentifiers | SendSessionReady | SendCardStatus | StartLiveness
  | SendLivenessPing | RecordPeerCloseReason | EchoPeerClose | SendCloseUserDisconnect
  | SendCloseNormal | SendCloseProtocolViolation | SendCloseServiceWithdrawn
  | SendCloseCardUnavailable | NoteCloseNoticeImpossible | ProceedWithoutCloseNotice
  | DestroySessionMaterial | DestroyCredentialBuffers | ShowDisconnecting
  | ShowConnectionStopped

datatype OperationAction =
    StartExpiryClock | SendErrorBusy | SendErrorDuplicateOperation | SendResultUnauthorized
  | SendResultUnsupportedParameter | SendProgressQueued | PresentConsent
  | SendProgressConsentShown | DismissConsent | ExecuteRead | CheckRetryFloor
  | ConsumeCardCommand | SendProgressWaitingForCard | SendProgressCardWaitEnded
  | PromptPinAgain | SendResultCompleted | SendResultUserCancelled | SendResultRetryFloor
  | SendResultCardError | SendResultOperationExpired | ClearOperationCredentials
  | ContinueCardExchangeLocally | DiscardAnswer | ReleaseCard | ShowProgress | ReleaseResult
  | ReleaseFailure | ReportOperationLost

datatype Action = Cer CeremonyAction | Rec RecordAction | Ses SessionAction | Opn OperationAction

fun op_is_terminal :: "OperationState \<Rightarrow> bool" where
  "op_is_terminal Completed = True"
| "op_is_terminal Rejected = True"
| "op_is_terminal Cancelled = True"
| "op_is_terminal _ = False"

record 's Transition =
  tr_state :: 's
  tr_actions :: "Action list"

datatype TransitionError = WrongRole | GuardFailed | UnexpectedInput | TerminalOperation

definition require :: "bool \<Rightarrow> (unit, TransitionError) result" where
  "require condition = (if condition then Ok () else Err GuardFailed)"

definition require_role :: "EndpointRole \<Rightarrow> EndpointRole \<Rightarrow> (unit, TransitionError) result" where
  "require_role role expected = (if role = expected then Ok () else Err WrongRole)"

abbreviation go :: "'s \<Rightarrow> Action list \<Rightarrow> ('s Transition, TransitionError) result" where
  "go s actions \<equiv> Ok \<lparr>tr_state = s, tr_actions = actions\<rparr>"

section \<open>The pairing machine\<close>

definition pairing_arms_1 ::
  "PairingState \<Rightarrow> EndpointRole \<Rightarrow> PairingEvent \<Rightarrow> Guards \<Rightarrow>
     (PairingState Transition, TransitionError) result option" where
  "pairing_arms_1 self role event guards = (case (self, event) of
      (Unpaired, StartPairing) \<Rightarrow> Some (
       and_then (require_role role Proxy) (\<lambda>_.
         and_then (require (g_user_initiated guards)) (\<lambda>_.
           go Offering
             [Cer GenerateOffer, Cer GeneratePairingCode, Cer AdvertisePairingMode,
              Cer DisplayPairingCode])))
    | (Offering, OfferExpiredOrCancelled) \<Rightarrow> Some (
       and_then (require_role role Proxy) (\<lambda>_.
         go Unpaired [Cer DestroyOffer, Cer HidePairingCode]))
    | (Offering, AttemptStarted) \<Rightarrow> Some (
       and_then (require_role role Proxy) (\<lambda>_.
         go Exchanging [Cer AdmitAttempt]))
    | (Unpaired, CodeEntered) \<Rightarrow> Some (
       and_then (require_role role Requester) (\<lambda>_.
         and_then (require (g_user_initiated guards)) (\<lambda>_.
           go Exchanging [Cer ReadOffer, Cer BeginCpaceInitiator])))
    | (Exchanging, AttemptFailed) \<Rightarrow> Some (
     (case role of
        Proxy \<Rightarrow>
           go Offering [Cer EndFailedAttempt]
      | Requester \<Rightarrow>
           and_then (require (g_untried_pairing_candidate guards)) (\<lambda>_.
             go Exchanging
               [Cer CloseCandidate, Cer TryNextCandidate, Cer ReadOffer,
                Cer BeginCpaceInitiator])))
    | (Offering, AttemptRefused) \<Rightarrow> Some (
       and_then (require_role role Proxy) (\<lambda>_.
         go self [Cer AnswerBusy]))
    | (Exchanging, AttemptRefused) \<Rightarrow> Some (
       and_then (require_role role Proxy) (\<lambda>_.
         go self [Cer AnswerBusy]))
    | (Exchanging, CandidateBusy) \<Rightarrow> Some (
       and_then (require_role role Requester) (\<lambda>_.
         and_then (require (g_untried_pairing_candidate guards)) (\<lambda>_.
           go Exchanging
             [Cer CloseCandidate, Cer DeferCandidate, Cer TryNextCandidate, Cer ReadOffer,
              Cer BeginCpaceInitiator])))
    | (Exchanging, LastCandidateFailed) \<Rightarrow> Some (
       and_then (require_role role Requester) (\<lambda>_.
         go Unpaired [Cer CloseCandidate, Cer ShowWrongCode]))
    | (Exchanging, NoCustodianTried) \<Rightarrow> Some (
       and_then (require_role role Requester) (\<lambda>_.
         go Unpaired [Cer CloseCandidate, Cer ShowNoneInPairingMode]))
    | (Exchanging, SearchInterrupted) \<Rightarrow> Some (
       and_then (require_role role Requester) (\<lambda>_.
         go Unpaired [Cer CloseCandidate]))
    | (Exchanging, OfferExpiredOrCancelled) \<Rightarrow> Some (
       and_then (require_role role Proxy) (\<lambda>_.
         go Unpaired [Cer DestroyOffer, Cer HidePairingCode, Cer CloseCandidate]))
    | _ \<Rightarrow> None)"

definition pairing_arms_2 ::
  "PairingState \<Rightarrow> EndpointRole \<Rightarrow> PairingEvent \<Rightarrow> Guards \<Rightarrow>
     (PairingState Transition, TransitionError) result option" where
  "pairing_arms_2 self role event guards = (case (self, event) of
      (Exchanging, KeyConfirmed) \<Rightarrow> Some (
     (case role of
        Proxy \<Rightarrow>
           go Handshaking
             [Cer ConsumeOffer, Cer HidePairingCode, Cer DerivePairingSecret,
              Cer BeginPairingHandshake]
      | Requester \<Rightarrow>
           go Handshaking [Cer DerivePairingSecret, Cer BeginPairingHandshake]))
    | (Handshaking, HandshakeAuthenticated) \<Rightarrow> Some (
     (case role of
        Requester \<Rightarrow>
           and_then (require (g_transcript_matches guards)) (\<lambda>_.
             go Confirming
               [Cer DeriveChannelIdentifiers, Cer DestroyPairingSecret, Cer SendPairingHello])
      | Proxy \<Rightarrow>
           and_then (require (g_transcript_matches guards)) (\<lambda>_.
             go Confirming [Cer DeriveChannelIdentifiers, Cer DestroyPairingSecret])))
    | (Handshaking, HandshakeFailed) \<Rightarrow> Some (
       go Unpaired [Cer DestroyPairingSecret, Cer DestroyCandidateKeys, Cer CloseCandidate])
    | (Confirming, HelloVerified) \<Rightarrow> Some (
       and_then (require_role role Proxy) (\<lambda>_.
         go Confirming [Cer SendPairingConfirm]))
    | (Confirming, BothConfirmed) \<Rightarrow> Some (
       and_then (require (g_granted_sets_equal guards)) (\<lambda>_.
         go StorageConfirming [Rec StorePairRecordAtomically, Rec SendPairingStored]))
    | (Confirming, DeniedAbortedOrTimedOut) \<Rightarrow> Some (
       go Unpaired
         [Cer SendPairingAbortBestEffort, Cer DestroyCandidateKeys, Cer CloseCandidate])
    | (Confirming, PairRecordStoreFailed) \<Rightarrow> Some (
       go Unpaired
         [Cer SendPairingAbortBestEffort, Cer DestroyCandidateKeys, Cer CloseCandidate,
          Rec ShowPairingNotStored])
    | (StorageConfirming, PeerStorageConfirmed) \<Rightarrow> Some (
       go PairedDisconnected [Rec MarkRecordConfirmed, Rec ClosePairingChannel])
    | (StorageConfirming, DeniedAbortedOrTimedOut) \<Rightarrow> Some (
       go Unpaired [Rec RevokeUnconfirmedPairRecord, Rec DestroyPairKeys, Cer CloseCandidate])
    | (PairedDisconnected, SessionHealthy) \<Rightarrow> Some (
       go PairedConnected [Rec RecordLastSession, Rec ShowConnected])
    | (PairedConnected, PairingSessionClosed) \<Rightarrow> Some (
       go PairedDisconnected [Rec RecordLastSession, Rec ShowPairedDisconnected])
    | (PairedConnected, PeerWithdrawalNotice) \<Rightarrow> Some (
       and_then (require_role role Proxy) (\<lambda>_.
         go PairedDisconnected [Rec RecordLastSession, Rec ShowPeerWithdrawn]))
    | _ \<Rightarrow> None)"

definition pairing_arms_3 ::
  "PairingState \<Rightarrow> EndpointRole \<Rightarrow> PairingEvent \<Rightarrow> Guards \<Rightarrow>
     (PairingState Transition, TransitionError) result option" where
  "pairing_arms_3 self role event guards = (case (self, event) of
      (PairedConnected, ForgetPairing) \<Rightarrow> Some (
       and_then (require (g_local_user_action guards)) (\<lambda>_.
         go Revoked
           [Rec MarkRecordRevoked, Rec SendClosePairingRevoked, Rec CloseSession,
            Rec DestroyPairKeys, Rec WithdrawIdentity, Rec ShowForgotten]))
    | (PairedDisconnected, ForgetPairing) \<Rightarrow> Some (
       and_then (require (g_local_user_action guards)) (\<lambda>_.
         go Revoking [Rec MarkRecordRevoked, Rec WithdrawIdentity, Rec ShowForgotten]))
    | (PairedConnected, ExpiryCheck) \<Rightarrow> Some (
       go PairedConnected [Rec RecordLastSession])
    | (PairedDisconnected, ExpiryCheck) \<Rightarrow> Some (
       go PairedDisconnected [])
    | (PairedDisconnected, IdleExpired) \<Rightarrow> Some (
     (case role of
        Proxy \<Rightarrow>
           go Revoking [Rec MarkRecordRevoked, Rec WithdrawIdentity]
      | Requester \<Rightarrow>
           go Revoked [Rec MarkRecordRevoked, Rec DestroyPairKeys, Rec WithdrawIdentity]))
    | (Revoking, RevocationNoticeSent) \<Rightarrow> Some (
       go Revoked [Rec DestroyPairKeys])
    | (Revoking, NoticeWindowExpired) \<Rightarrow> Some (
       and_then (require_role role Proxy) (\<lambda>_.
         go Revoked [Rec DestroyPairKeys]))
    | (Revoking, RevocationAttemptEnded) \<Rightarrow> Some (
       and_then (require_role role Requester) (\<lambda>_.
         go Revoked [Rec DestroyPairKeys]))
    | (PairedDisconnected, PeerRevocationNotice) \<Rightarrow> Some (
       go Revoked
         [Rec MarkRecordRevoked, Rec CloseSession, Rec DestroyPairKeys, Rec WithdrawIdentity,
          Rec ShowPeerForgot])
    | (PairedConnected, PeerRevocationNotice) \<Rightarrow> Some (
       go Revoked
         [Rec MarkRecordRevoked, Rec CloseSession, Rec DestroyPairKeys, Rec WithdrawIdentity,
          Rec ShowPeerForgot])
    | (Revoking, PeerRevocationNotice) \<Rightarrow> Some (
       go Revoked
         [Rec MarkRecordRevoked, Rec CloseSession, Rec DestroyPairKeys, Rec WithdrawIdentity,
          Rec ShowPeerForgot])
    | (Revoked, ForgetPairing) \<Rightarrow> Some (
       and_then (require (g_local_user_action guards)) (\<lambda>_.
         go Unpaired [Rec ClearResidualPairRecord]))
    | _ \<Rightarrow> None)"

definition pairing_transition ::
  "PairingState \<Rightarrow> EndpointRole \<Rightarrow> PairingEvent \<Rightarrow> Guards \<Rightarrow> (PairingState Transition, TransitionError) result"
where
  "pairing_transition self role event guards =
     (case pairing_arms_1 self role event guards of Some r \<Rightarrow> r | None \<Rightarrow>
     (case pairing_arms_2 self role event guards of Some r \<Rightarrow> r | None \<Rightarrow>
     (case pairing_arms_3 self role event guards of Some r \<Rightarrow> r | None \<Rightarrow>
     Err UnexpectedInput)))"

section \<open>The session machine\<close>

definition session_arms_1 ::
  "SessionState \<Rightarrow> EndpointRole \<Rightarrow> SessionEvent \<Rightarrow> Guards \<Rightarrow>
     (SessionState Transition, TransitionError) result option" where
  "session_arms_1 self role event guards = (case (self, event) of
      (Absent, Connect) \<Rightarrow> Some (
       and_then (require_role role Requester) (\<lambda>_.
         and_then (require (g_initiation_permitted guards)) (\<lambda>_.
           go Connecting [Ses OpenTransport])))
    | (Absent, PreambleReceived) \<Rightarrow> Some (
       and_then (require_role role Proxy) (\<lambda>_.
         and_then (require (g_pairing_routed guards)) (\<lambda>_.
           go Authenticating [Ses BeginKkResponder])))
    | (Connecting, TransportConnected) \<Rightarrow> Some (
       and_then (require_role role Requester) (\<lambda>_.
         go Authenticating [Ses SendSessionPreamble, Ses BeginKkInitiator]))
    | (Connecting, TransportFailed) \<Rightarrow> Some (
       and_then (require_role role Requester) (\<lambda>_.
         go Closed [Ses DestroySessionMaterial, Ses ShowConnectionStopped]))
    | (Authenticating, HandshakeComplete) \<Rightarrow> Some (
     (case role of
        Proxy \<Rightarrow>
           go Healthy
             [Ses DeriveSessionIdentifiers, Ses SendSessionReady, Ses SendCardStatus,
              Ses StartLiveness]
      | Requester \<Rightarrow>
           go Authenticating [Ses DeriveSessionIdentifiers]))
    | (Authenticating, HandshakeCompleteWhileRevoking) \<Rightarrow> Some (
       go Closing [Ses DeriveSessionIdentifiers, Rec SendClosePairingRevoked])
    | (Authenticating, PeerCloseReceived) \<Rightarrow> Some (
       and_then (require_role role Requester) (\<lambda>_.
         go Closed [Ses RecordPeerCloseReason, Ses EchoPeerClose, Ses DestroySessionMaterial]))
    | (Authenticating, ReadyVerified) \<Rightarrow> Some (
       and_then (require_role role Requester) (\<lambda>_.
         and_then (require (g_ready_parameters_match guards)) (\<lambda>_.
           go Healthy
             [Rec RecordPeerDisplayName, Rec SendSessionHello, Ses StartLiveness,
              Rec ShowConnected])))
    | (Authenticating, CandidateFailure) \<Rightarrow> Some (
       go Closed [Ses DestroySessionMaterial, Cer CloseCandidate])
    | (Authenticating, TransportFailed) \<Rightarrow> Some (
       go Closed [Ses DestroySessionMaterial, Ses ShowConnectionStopped])
    | (Authenticating, AuthenticatedProtocolViolation) \<Rightarrow> Some (
       go Closing [Ses SendCloseProtocolViolation, Ses ShowDisconnecting])
    | (Healthy, SessionHelloReceived) \<Rightarrow> Some (
       and_then (require_role role Proxy) (\<lambda>_.
         go Healthy [Rec RecordPeerDisplayName]))
    | _ \<Rightarrow> None)"

definition session_arms_2 ::
  "SessionState \<Rightarrow> EndpointRole \<Rightarrow> SessionEvent \<Rightarrow> Guards \<Rightarrow>
     (SessionState Transition, TransitionError) result option" where
  "session_arms_2 self role event guards = (case (self, event) of
      (Healthy, PeerSilent) \<Rightarrow> Some (
       go Healthy [Ses SendLivenessPing])
    | (Healthy, SilenceLimitReached) \<Rightarrow> Some (
       go Closing [Ses NoteCloseNoticeImpossible, Ses ShowDisconnecting])
    | (Healthy, UserDisconnect) \<Rightarrow> Some (
       go Closing [Ses SendCloseUserDisconnect, Ses ShowDisconnecting])
    | (Healthy, LocalCloseRequested) \<Rightarrow> Some (
       go Closing [Ses SendCloseNormal, Ses ShowDisconnecting])
    | (Healthy, ServiceWithdrawn) \<Rightarrow> Some (
       go Closing [Ses SendCloseServiceWithdrawn, Ses ShowDisconnecting])
    | (Connecting, ServiceWithdrawn) \<Rightarrow> Some (
       and_then (require_role role Requester) (\<lambda>_.
         go Closed [Ses DestroySessionMaterial, Cer CloseCandidate, Ses ShowConnectionStopped]))
    | (Authenticating, ServiceWithdrawn) \<Rightarrow> Some (
       and_then (require_role role Requester) (\<lambda>_.
         go Closed [Ses DestroySessionMaterial, Cer CloseCandidate, Ses ShowConnectionStopped]))
    | (Healthy, CardUnavailable) \<Rightarrow> Some (
       and_then (require_role role Proxy) (\<lambda>_.
         go Closing [Ses SendCloseCardUnavailable, Ses ShowDisconnecting]))
    | (Healthy, PeerCloseReceived) \<Rightarrow> Some (
       go Closing [Ses RecordPeerCloseReason, Ses EchoPeerClose, Ses ShowDisconnecting])
    | (Healthy, TransportFailed) \<Rightarrow> Some (
       go Closing [Ses NoteCloseNoticeImpossible, Ses ShowDisconnecting])
    | (Healthy, SessionIntegrityFailed) \<Rightarrow> Some (
       go Closing [Ses NoteCloseNoticeImpossible, Ses ShowDisconnecting])
    | (Healthy, AuthenticatedProtocolViolation) \<Rightarrow> Some (
       go Closing [Ses SendCloseProtocolViolation, Ses ShowDisconnecting])
    | (Healthy, CloseRequestedByPairing) \<Rightarrow> Some (
       go Closing [Ses ShowDisconnecting])
    | (Connecting, CloseRequestedByPairing) \<Rightarrow> Some (
       go Closed [Ses DestroySessionMaterial, Cer CloseCandidate, Ses ShowConnectionStopped])
    | (Authenticating, CloseRequestedByPairing) \<Rightarrow> Some (
       go Closed [Ses DestroySessionMaterial, Cer CloseCandidate, Ses ShowConnectionStopped])
    | (Closing, PeerCloseReceived) \<Rightarrow> Some (
       go Closed
         [Ses RecordPeerCloseReason, Ses DestroySessionMaterial, Ses DestroyCredentialBuffers,
          Ses ShowConnectionStopped])
    | (Closing, TransportFailed) \<Rightarrow> Some (
       go Closing [Ses ProceedWithoutCloseNotice])
    | (Closing, CloseCompleteOrDeadline) \<Rightarrow> Some (
       go Closed
         [Ses DestroySessionMaterial, Ses DestroyCredentialBuffers, Ses ShowConnectionStopped])
    | _ \<Rightarrow> None)"

definition session_transition ::
  "SessionState \<Rightarrow> EndpointRole \<Rightarrow> SessionEvent \<Rightarrow> Guards \<Rightarrow> (SessionState Transition, TransitionError) result"
where
  "session_transition self role event guards =
     (case session_arms_1 self role event guards of Some r \<Rightarrow> r | None \<Rightarrow>
     (case session_arms_2 self role event guards of Some r \<Rightarrow> r | None \<Rightarrow>
     Err UnexpectedInput))"

section \<open>The operation machine\<close>

definition operation_arms_1 ::
  "OperationState \<Rightarrow> EndpointRole \<Rightarrow> OperationEvent \<Rightarrow> Guards \<Rightarrow>
     (OperationState Transition, TransitionError) result option" where
  "operation_arms_1 self role event guards = (case (self, event) of
      (OpNone, RequestReceived) \<Rightarrow> Some (
       and_then (require_role role Proxy) (\<lambda>_.
         go Requested [Opn StartExpiryClock]))
    | (OpNone, RequestDuplicate) \<Rightarrow> Some (
       and_then (require_role role Proxy) (\<lambda>_.
         go OpNone [Opn SendErrorDuplicateOperation]))
    | (OpNone, RequestWhileBusy) \<Rightarrow> Some (
       and_then (require_role role Proxy) (\<lambda>_.
         go OpNone [Opn SendErrorBusy]))
    | (OpNone, RequestUnauthorized) \<Rightarrow> Some (
       and_then (require_role role Proxy) (\<lambda>_.
         go Rejected [Opn SendResultUnauthorized]))
    | (OpNone, RequestUnsupported) \<Rightarrow> Some (
       and_then (require_role role Proxy) (\<lambda>_.
         go Rejected [Opn SendResultUnsupportedParameter]))
    | (Requested, CardHeldElsewhere) \<Rightarrow> Some (
       and_then (require_role role Proxy) (\<lambda>_.
         go Queued [Opn SendProgressQueued]))
    | (Requested, CardAcquiredForConsent) \<Rightarrow> Some (
       and_then (require_role role Proxy) (\<lambda>_.
         go AwaitingConsent [Opn PresentConsent, Opn SendProgressConsentShown]))
    | (Queued, CardAcquiredForConsent) \<Rightarrow> Some (
       and_then (require_role role Proxy) (\<lambda>_.
         go AwaitingConsent [Opn PresentConsent, Opn SendProgressConsentShown]))
    | (Requested, CardAcquiredForRead) \<Rightarrow> Some (
       and_then (require_role role Proxy) (\<lambda>_.
         go Executing [Opn ExecuteRead]))
    | (Queued, CardAcquiredForRead) \<Rightarrow> Some (
       and_then (require_role role Proxy) (\<lambda>_.
         go Executing [Opn ExecuteRead]))
    | _ \<Rightarrow> None)"

definition operation_arms_2 ::
  "OperationState \<Rightarrow> EndpointRole \<Rightarrow> OperationEvent \<Rightarrow> Guards \<Rightarrow>
     (OperationState Transition, TransitionError) result option" where
  "operation_arms_2 self role event guards = (case (self, event) of
      (AwaitingConsent, UserDenied) \<Rightarrow> Some (
       and_then (require_role role Proxy) (\<lambda>_.
         go Rejected [Opn DismissConsent, Opn SendResultUserCancelled, Opn ReleaseCard]))
    | (AwaitingConsent, UserApproved) \<Rightarrow> Some (
       and_then (require_role role Proxy) (\<lambda>_.
         go Executing [Opn DismissConsent, Opn CheckRetryFloor, Opn ConsumeCardCommand]))
    | (Executing, WaitingForCard) \<Rightarrow> Some (
       and_then (require_role role Proxy) (\<lambda>_.
         go Executing [Opn SendProgressWaitingForCard]))
    | (Executing, CardFound) \<Rightarrow> Some (
       and_then (require_role role Proxy) (\<lambda>_.
         go Executing [Opn SendProgressCardWaitEnded]))
    | (Executing, WrongPin) \<Rightarrow> Some (
       and_then (require_role role Proxy) (\<lambda>_.
         go Executing [Opn PromptPinAgain]))
    | (Executing, RetryFloorRefused) \<Rightarrow> Some (
       and_then (require_role role Proxy) (\<lambda>_.
         go Rejected
           [Opn ClearOperationCredentials, Opn SendResultRetryFloor, Opn ReleaseCard]))
    | (Executing, CardSuccess) \<Rightarrow> Some (
       and_then (require_role role Proxy) (\<lambda>_.
         go Completed
           [Opn ClearOperationCredentials, Opn SendResultCompleted, Opn ReleaseCard]))
    | (Executing, CardError) \<Rightarrow> Some (
       and_then (require_role role Proxy) (\<lambda>_.
         go Rejected [Opn ClearOperationCredentials, Opn SendResultCardError, Opn ReleaseCard]))
    | (Requested, RequestExpired) \<Rightarrow> Some (
       and_then (require_role role Proxy) (\<lambda>_.
         go Cancelled [Opn DismissConsent, Opn SendResultOperationExpired, Opn ReleaseCard]))
    | (Queued, RequestExpired) \<Rightarrow> Some (
       and_then (require_role role Proxy) (\<lambda>_.
         go Cancelled [Opn DismissConsent, Opn SendResultOperationExpired, Opn ReleaseCard]))
    | _ \<Rightarrow> None)"

definition operation_arms_3 ::
  "OperationState \<Rightarrow> EndpointRole \<Rightarrow> OperationEvent \<Rightarrow> Guards \<Rightarrow>
     (OperationState Transition, TransitionError) result option" where
  "operation_arms_3 self role event guards = (case (self, event) of
      (AwaitingConsent, RequestExpired) \<Rightarrow> Some (
       and_then (require_role role Proxy) (\<lambda>_.
         go Cancelled [Opn DismissConsent, Opn SendResultOperationExpired, Opn ReleaseCard]))
    | (Requested, OpSessionClosed) \<Rightarrow> Some (
     (case role of
        Proxy \<Rightarrow>
           go OpNone [Opn DismissConsent, Opn ClearOperationCredentials, Opn ReleaseCard]
      | Requester \<Rightarrow>
           go OpNone [Opn ReportOperationLost]))
    | (Queued, OpSessionClosed) \<Rightarrow> Some (
       and_then (require_role role Proxy) (\<lambda>_.
         go OpNone [Opn DismissConsent, Opn ClearOperationCredentials, Opn ReleaseCard]))
    | (AwaitingConsent, OpSessionClosed) \<Rightarrow> Some (
       and_then (require_role role Proxy) (\<lambda>_.
         go OpNone [Opn DismissConsent, Opn ClearOperationCredentials, Opn ReleaseCard]))
    | (Executing, OpSessionClosed) \<Rightarrow> Some (
       and_then (require_role role Proxy) (\<lambda>_.
         go OpNone
           [Opn ContinueCardExchangeLocally, Opn DiscardAnswer, Opn ClearOperationCredentials,
            Opn ReleaseCard]))
    | (OpNone, RequestSent) \<Rightarrow> Some (
       and_then (require_role role Requester) (\<lambda>_.
         go Requested []))
    | (Requested, ProgressReceived) \<Rightarrow> Some (
       and_then (require_role role Requester) (\<lambda>_.
         go Requested [Opn ShowProgress]))
    | (Requested, ResultCompletedReceived) \<Rightarrow> Some (
       and_then (require_role role Requester) (\<lambda>_.
         go Completed [Opn ReleaseResult]))
    | (Requested, ResultRejectedReceived) \<Rightarrow> Some (
       and_then (require_role role Requester) (\<lambda>_.
         go Rejected [Opn ReleaseFailure]))
    | (Requested, ResultCancelledReceived) \<Rightarrow> Some (
       and_then (require_role role Requester) (\<lambda>_.
         go Cancelled [Opn ReleaseFailure]))
    | _ \<Rightarrow> None)"

definition operation_transition ::
  "OperationState \<Rightarrow> EndpointRole \<Rightarrow> OperationEvent \<Rightarrow> Guards \<Rightarrow> (OperationState Transition, TransitionError) result"
where
  "operation_transition self role event guards =
     (case operation_arms_1 self role event guards of Some r \<Rightarrow> r | None \<Rightarrow>
     (case operation_arms_2 self role event guards of Some r \<Rightarrow> r | None \<Rightarrow>
     (case operation_arms_3 self role event guards of Some r \<Rightarrow> r | None \<Rightarrow>
     if self = Completed \<or> self = Rejected \<or> self = Cancelled then Err TerminalOperation
     else Err UnexpectedInput)))"

section \<open>The endpoint\<close>

record RappState =
  rs_role :: EndpointRole
  rs_pairing :: PairingState
  rs_session :: SessionState

definition unpaired :: "EndpointRole \<Rightarrow> RappState" where
  "unpaired role = \<lparr>rs_role = role, rs_pairing = Unpaired, rs_session = Absent\<rparr>"

definition operation_admission_permitted :: "RappState \<Rightarrow> bool" where
  "operation_admission_permitted s \<longleftrightarrow> rs_pairing s = PairedConnected \<and> rs_session s = Healthy"

text \<open>A security event returns the updated state with the ordered effects of \<open>SecurityOutcome\<close>.\<close>

definition close_session :: "SessionEvent \<Rightarrow> RappState \<Rightarrow> RappState \<times> Action list" where
  "close_session event s =
     (case session_transition (rs_session s) (rs_role s) event Guards_default of
        Ok t \<Rightarrow> (s\<lparr>rs_session := tr_state t\<rparr>, tr_actions t)
      | Err _ \<Rightarrow> (s, []))"

definition violation_pairing_event :: "RappState \<Rightarrow> PairingEvent option" where
  "violation_pairing_event s = (case rs_pairing s of
      Handshaking \<Rightarrow> Some HandshakeFailed
    | Confirming \<Rightarrow> Some DeniedAbortedOrTimedOut
    | StorageConfirming \<Rightarrow> Some DeniedAbortedOrTimedOut
    | Exchanging \<Rightarrow> Some (case rs_role s of Proxy \<Rightarrow> AttemptFailed | Requester \<Rightarrow> LastCandidateFailed)
    | _ \<Rightarrow> None)"

definition authenticated_protocol_violation :: "RappState \<Rightarrow> RappState \<times> Action list" where
  "authenticated_protocol_violation s = (case violation_pairing_event s of
      Some event \<Rightarrow>
        (case pairing_transition (rs_pairing s) (rs_role s) event Guards_default of
           Ok t \<Rightarrow> (s\<lparr>rs_pairing := tr_state t\<rparr>, tr_actions t)
         | Err _ \<Rightarrow> (s, []))
    | None \<Rightarrow> close_session AuthenticatedProtocolViolation s)"

definition session_integrity_failed :: "RappState \<Rightarrow> RappState \<times> Action list" where
  "session_integrity_failed s = close_session SessionIntegrityFailed s"

definition silence_limit_reached :: "RappState \<Rightarrow> RappState \<times> Action list" where
  "silence_limit_reached s = close_session SilenceLimitReached s"

end
