(* ===== verification/Rapp_Model.thy ===== *)
theory Rapp_Model
  imports Rapp_State
begin

text \<open>
  The formal state model of the protocol, \<open>doc/protocols/rapp-state-machine-v26.11.2.yaml\<close>, read
  as three inductive step relations: one rule per entry of \<open>transitions\<close> in the order of the
  document (a list-valued \<open>from\<close> gives one rule per state, role \<open>both\<close> a role variable). The
  theorems below say that the transition functions of \<open>Rapp_State\<close> accept exactly what the
  document lists, with the same successor and the same ordered actions; the proofs about the
  machines then proceed by cases on the rules.
\<close>

section \<open>Pairing\<close>

inductive pairing_rule ::
  "EndpointRole \<Rightarrow> Guards \<Rightarrow> PairingState \<Rightarrow> PairingEvent \<Rightarrow> PairingState \<Rightarrow> Action list \<Rightarrow> bool"
  for role :: EndpointRole and g :: Guards where
  "role = Proxy \<Longrightarrow> g_user_initiated g \<Longrightarrow> pairing_rule role g Unpaired StartPairing Offering
     [Cer GenerateOffer, Cer GeneratePairingCode, Cer AdvertisePairingMode,
      Cer DisplayPairingCode]"
| "role = Proxy \<Longrightarrow> pairing_rule role g Offering OfferExpiredOrCancelled Unpaired
     [Cer DestroyOffer, Cer HidePairingCode]"
| "role = Proxy \<Longrightarrow> pairing_rule role g Offering AttemptStarted Exchanging
     [Cer AdmitAttempt]"
| "role = Requester \<Longrightarrow> g_user_initiated g \<Longrightarrow> pairing_rule role g Unpaired CodeEntered Exchanging
     [Cer ReadOffer, Cer BeginCpaceInitiator]"
| "role = Proxy \<Longrightarrow> pairing_rule role g Exchanging AttemptFailed Offering
     [Cer EndFailedAttempt]"
| "role = Proxy \<Longrightarrow> pairing_rule role g Offering AttemptRefused Offering
     [Cer AnswerBusy]"
| "role = Proxy \<Longrightarrow> pairing_rule role g Exchanging AttemptRefused Exchanging
     [Cer AnswerBusy]"
| "role = Requester \<Longrightarrow> g_untried_pairing_candidate g \<Longrightarrow> pairing_rule role g Exchanging CandidateBusy Exchanging
     [Cer CloseCandidate, Cer DeferCandidate, Cer TryNextCandidate, Cer ReadOffer,
      Cer BeginCpaceInitiator]"
| "role = Requester \<Longrightarrow> g_untried_pairing_candidate g \<Longrightarrow> pairing_rule role g Exchanging AttemptFailed Exchanging
     [Cer CloseCandidate, Cer TryNextCandidate, Cer ReadOffer, Cer BeginCpaceInitiator]"
| "role = Requester \<Longrightarrow> pairing_rule role g Exchanging LastCandidateFailed Unpaired
     [Cer CloseCandidate, Cer ShowWrongCode]"
| "role = Requester \<Longrightarrow> pairing_rule role g Exchanging NoCustodianTried Unpaired
     [Cer CloseCandidate, Cer ShowNoneInPairingMode]"
| "role = Requester \<Longrightarrow> pairing_rule role g Exchanging SearchInterrupted Unpaired
     [Cer CloseCandidate]"
| "role = Proxy \<Longrightarrow> pairing_rule role g Exchanging OfferExpiredOrCancelled Unpaired
     [Cer DestroyOffer, Cer HidePairingCode, Cer CloseCandidate]"
| "role = Proxy \<Longrightarrow> pairing_rule role g Exchanging KeyConfirmed Handshaking
     [Cer ConsumeOffer, Cer HidePairingCode, Cer DerivePairingSecret, Cer BeginPairingHandshake]"
| "role = Requester \<Longrightarrow> pairing_rule role g Exchanging KeyConfirmed Handshaking
     [Cer DerivePairingSecret, Cer BeginPairingHandshake]"
| "role = Requester \<Longrightarrow> g_transcript_matches g \<Longrightarrow> pairing_rule role g Handshaking HandshakeAuthenticated Confirming
     [Cer DeriveChannelIdentifiers, Cer DestroyPairingSecret, Cer SendPairingHello]"
| "role = Proxy \<Longrightarrow> g_transcript_matches g \<Longrightarrow> pairing_rule role g Handshaking HandshakeAuthenticated Confirming
     [Cer DeriveChannelIdentifiers, Cer DestroyPairingSecret]"
| "pairing_rule role g Handshaking HandshakeFailed Unpaired
     [Cer DestroyPairingSecret, Cer DestroyCandidateKeys, Cer CloseCandidate]"
| "role = Proxy \<Longrightarrow> pairing_rule role g Confirming HelloVerified Confirming
     [Cer SendPairingConfirm]"
| "g_granted_sets_equal g \<Longrightarrow> pairing_rule role g Confirming BothConfirmed StorageConfirming
     [Rec StorePairRecordAtomically, Rec SendPairingStored]"
| "pairing_rule role g Confirming DeniedAbortedOrTimedOut Unpaired
     [Cer SendPairingAbortBestEffort, Cer DestroyCandidateKeys, Cer CloseCandidate]"
| "pairing_rule role g Confirming PairRecordStoreFailed Unpaired
     [Cer SendPairingAbortBestEffort, Cer DestroyCandidateKeys, Cer CloseCandidate,
      Rec ShowPairingNotStored]"
| "pairing_rule role g StorageConfirming PeerStorageConfirmed PairedDisconnected
     [Rec MarkRecordConfirmed, Rec ClosePairingChannel]"
| "pairing_rule role g StorageConfirming DeniedAbortedOrTimedOut Unpaired
     [Rec RevokeUnconfirmedPairRecord, Rec DestroyPairKeys, Cer CloseCandidate]"
| "pairing_rule role g PairedDisconnected SessionHealthy PairedConnected
     [Rec RecordLastSession, Rec ShowConnected]"
| "pairing_rule role g PairedConnected PairingSessionClosed PairedDisconnected
     [Rec RecordLastSession, Rec ShowPairedDisconnected]"
| "role = Proxy \<Longrightarrow> pairing_rule role g PairedConnected PeerWithdrawalNotice PairedDisconnected
     [Rec RecordLastSession, Rec ShowPeerWithdrawn]"
| "g_local_user_action g \<Longrightarrow> pairing_rule role g PairedConnected ForgetPairing Revoked
     [Rec MarkRecordRevoked, Rec SendClosePairingRevoked, Rec CloseSession,
      Rec DestroyPairKeys, Rec WithdrawIdentity, Rec ShowForgotten]"
| "g_local_user_action g \<Longrightarrow> pairing_rule role g PairedDisconnected ForgetPairing Revoking
     [Rec MarkRecordRevoked, Rec WithdrawIdentity, Rec ShowForgotten]"
| "pairing_rule role g PairedConnected ExpiryCheck PairedConnected
     [Rec RecordLastSession]"
| "pairing_rule role g PairedDisconnected ExpiryCheck PairedDisconnected
     []"
| "role = Proxy \<Longrightarrow> pairing_rule role g PairedDisconnected IdleExpired Revoking
     [Rec MarkRecordRevoked, Rec WithdrawIdentity]"
| "role = Requester \<Longrightarrow> pairing_rule role g PairedDisconnected IdleExpired Revoked
     [Rec MarkRecordRevoked, Rec DestroyPairKeys, Rec WithdrawIdentity]"
| "pairing_rule role g Revoking RevocationNoticeSent Revoked
     [Rec DestroyPairKeys]"
| "role = Proxy \<Longrightarrow> pairing_rule role g Revoking NoticeWindowExpired Revoked
     [Rec DestroyPairKeys]"
| "role = Requester \<Longrightarrow> pairing_rule role g Revoking RevocationAttemptEnded Revoked
     [Rec DestroyPairKeys]"
| "pairing_rule role g PairedDisconnected PeerRevocationNotice Revoked
     [Rec MarkRecordRevoked, Rec CloseSession, Rec DestroyPairKeys, Rec WithdrawIdentity,
      Rec ShowPeerForgot]"
| "pairing_rule role g PairedConnected PeerRevocationNotice Revoked
     [Rec MarkRecordRevoked, Rec CloseSession, Rec DestroyPairKeys, Rec WithdrawIdentity,
      Rec ShowPeerForgot]"
| "pairing_rule role g Revoking PeerRevocationNotice Revoked
     [Rec MarkRecordRevoked, Rec CloseSession, Rec DestroyPairKeys, Rec WithdrawIdentity,
      Rec ShowPeerForgot]"
| "g_local_user_action g \<Longrightarrow> pairing_rule role g Revoked ForgetPairing Unpaired
     [Rec ClearResidualPairRecord]"

section \<open>Session\<close>

inductive session_rule ::
  "EndpointRole \<Rightarrow> Guards \<Rightarrow> SessionState \<Rightarrow> SessionEvent \<Rightarrow> SessionState \<Rightarrow> Action list \<Rightarrow> bool"
  for role :: EndpointRole and g :: Guards where
  "role = Requester \<Longrightarrow> g_initiation_permitted g \<Longrightarrow> session_rule role g Absent Connect Connecting
     [Ses OpenTransport]"
| "role = Proxy \<Longrightarrow> g_pairing_routed g \<Longrightarrow> session_rule role g Absent PreambleReceived Authenticating
     [Ses BeginKkResponder]"
| "role = Requester \<Longrightarrow> session_rule role g Connecting TransportConnected Authenticating
     [Ses SendSessionPreamble, Ses BeginKkInitiator]"
| "role = Requester \<Longrightarrow> session_rule role g Connecting TransportFailed Closed
     [Ses DestroySessionMaterial, Ses ShowConnectionStopped]"
| "role = Proxy \<Longrightarrow> session_rule role g Authenticating HandshakeComplete Healthy
     [Ses DeriveSessionIdentifiers, Ses SendSessionReady, Ses SendCardStatus, Ses StartLiveness]"
| "role = Requester \<Longrightarrow> session_rule role g Authenticating HandshakeComplete Authenticating
     [Ses DeriveSessionIdentifiers]"
| "session_rule role g Authenticating HandshakeCompleteWhileRevoking Closing
     [Ses DeriveSessionIdentifiers, Rec SendClosePairingRevoked]"
| "role = Requester \<Longrightarrow> session_rule role g Authenticating PeerCloseReceived Closed
     [Ses RecordPeerCloseReason, Ses EchoPeerClose, Ses DestroySessionMaterial]"
| "role = Requester \<Longrightarrow> g_ready_parameters_match g \<Longrightarrow> session_rule role g Authenticating ReadyVerified Healthy
     [Rec RecordPeerDisplayName, Rec SendSessionHello, Ses StartLiveness, Rec ShowConnected]"
| "session_rule role g Authenticating CandidateFailure Closed
     [Ses DestroySessionMaterial, Cer CloseCandidate]"
| "session_rule role g Authenticating TransportFailed Closed
     [Ses DestroySessionMaterial, Ses ShowConnectionStopped]"
| "session_rule role g Authenticating AuthenticatedProtocolViolation Closing
     [Ses SendCloseProtocolViolation, Ses ShowDisconnecting]"
| "role = Proxy \<Longrightarrow> session_rule role g Healthy SessionHelloReceived Healthy
     [Rec RecordPeerDisplayName]"
| "session_rule role g Healthy PeerSilent Healthy
     [Ses SendLivenessPing]"
| "session_rule role g Healthy SilenceLimitReached Closing
     [Ses NoteCloseNoticeImpossible, Ses ShowDisconnecting]"
| "session_rule role g Healthy UserDisconnect Closing
     [Ses SendCloseUserDisconnect, Ses ShowDisconnecting]"
| "session_rule role g Healthy LocalCloseRequested Closing
     [Ses SendCloseNormal, Ses ShowDisconnecting]"
| "session_rule role g Healthy ServiceWithdrawn Closing
     [Ses SendCloseServiceWithdrawn, Ses ShowDisconnecting]"
| "role = Requester \<Longrightarrow> session_rule role g Connecting ServiceWithdrawn Closed
     [Ses DestroySessionMaterial, Cer CloseCandidate, Ses ShowConnectionStopped]"
| "role = Requester \<Longrightarrow> session_rule role g Authenticating ServiceWithdrawn Closed
     [Ses DestroySessionMaterial, Cer CloseCandidate, Ses ShowConnectionStopped]"
| "role = Proxy \<Longrightarrow> session_rule role g Healthy CardUnavailable Closing
     [Ses SendCloseCardUnavailable, Ses ShowDisconnecting]"
| "session_rule role g Healthy PeerCloseReceived Closing
     [Ses RecordPeerCloseReason, Ses EchoPeerClose, Ses ShowDisconnecting]"
| "session_rule role g Healthy TransportFailed Closing
     [Ses NoteCloseNoticeImpossible, Ses ShowDisconnecting]"
| "session_rule role g Healthy SessionIntegrityFailed Closing
     [Ses NoteCloseNoticeImpossible, Ses ShowDisconnecting]"
| "session_rule role g Healthy AuthenticatedProtocolViolation Closing
     [Ses SendCloseProtocolViolation, Ses ShowDisconnecting]"
| "session_rule role g Healthy CloseRequestedByPairing Closing
     [Ses ShowDisconnecting]"
| "session_rule role g Connecting CloseRequestedByPairing Closed
     [Ses DestroySessionMaterial, Cer CloseCandidate, Ses ShowConnectionStopped]"
| "session_rule role g Authenticating CloseRequestedByPairing Closed
     [Ses DestroySessionMaterial, Cer CloseCandidate, Ses ShowConnectionStopped]"
| "session_rule role g Closing PeerCloseReceived Closed
     [Ses RecordPeerCloseReason, Ses DestroySessionMaterial, Ses DestroyCredentialBuffers,
      Ses ShowConnectionStopped]"
| "session_rule role g Closing TransportFailed Closing
     [Ses ProceedWithoutCloseNotice]"
| "session_rule role g Closing CloseCompleteOrDeadline Closed
     [Ses DestroySessionMaterial, Ses DestroyCredentialBuffers, Ses ShowConnectionStopped]"

section \<open>Operation\<close>

inductive operation_rule ::
  "EndpointRole \<Rightarrow> Guards \<Rightarrow> OperationState \<Rightarrow> OperationEvent \<Rightarrow> OperationState \<Rightarrow> Action list \<Rightarrow> bool"
  for role :: EndpointRole and g :: Guards where
  "role = Proxy \<Longrightarrow> operation_rule role g OpNone RequestReceived Requested
     [Opn StartExpiryClock]"
| "role = Proxy \<Longrightarrow> operation_rule role g OpNone RequestDuplicate OpNone
     [Opn SendErrorDuplicateOperation]"
| "role = Proxy \<Longrightarrow> operation_rule role g OpNone RequestWhileBusy OpNone
     [Opn SendErrorBusy]"
| "role = Proxy \<Longrightarrow> operation_rule role g OpNone RequestUnauthorized Rejected
     [Opn SendResultUnauthorized]"
| "role = Proxy \<Longrightarrow> operation_rule role g OpNone RequestUnsupported Rejected
     [Opn SendResultUnsupportedParameter]"
| "role = Proxy \<Longrightarrow> operation_rule role g Requested CardHeldElsewhere Queued
     [Opn SendProgressQueued]"
| "role = Proxy \<Longrightarrow> operation_rule role g Requested CardAcquiredForConsent AwaitingConsent
     [Opn PresentConsent, Opn SendProgressConsentShown]"
| "role = Proxy \<Longrightarrow> operation_rule role g Queued CardAcquiredForConsent AwaitingConsent
     [Opn PresentConsent, Opn SendProgressConsentShown]"
| "role = Proxy \<Longrightarrow> operation_rule role g Requested CardAcquiredForRead Executing
     [Opn ExecuteRead]"
| "role = Proxy \<Longrightarrow> operation_rule role g Queued CardAcquiredForRead Executing
     [Opn ExecuteRead]"
| "role = Proxy \<Longrightarrow> operation_rule role g AwaitingConsent UserDenied Rejected
     [Opn DismissConsent, Opn SendResultUserCancelled, Opn ReleaseCard]"
| "role = Proxy \<Longrightarrow> operation_rule role g AwaitingConsent UserApproved Executing
     [Opn DismissConsent, Opn CheckRetryFloor, Opn ConsumeCardCommand]"
| "role = Proxy \<Longrightarrow> operation_rule role g Executing WaitingForCard Executing
     [Opn SendProgressWaitingForCard]"
| "role = Proxy \<Longrightarrow> operation_rule role g Executing CardFound Executing
     [Opn SendProgressCardWaitEnded]"
| "role = Proxy \<Longrightarrow> operation_rule role g Executing WrongPin Executing
     [Opn PromptPinAgain]"
| "role = Proxy \<Longrightarrow> operation_rule role g Executing RetryFloorRefused Rejected
     [Opn ClearOperationCredentials, Opn SendResultRetryFloor, Opn ReleaseCard]"
| "role = Proxy \<Longrightarrow> operation_rule role g Executing CardSuccess Completed
     [Opn ClearOperationCredentials, Opn SendResultCompleted, Opn ReleaseCard]"
| "role = Proxy \<Longrightarrow> operation_rule role g Executing CardError Rejected
     [Opn ClearOperationCredentials, Opn SendResultCardError, Opn ReleaseCard]"
| "role = Proxy \<Longrightarrow> operation_rule role g Requested RequestExpired Cancelled
     [Opn DismissConsent, Opn SendResultOperationExpired, Opn ReleaseCard]"
| "role = Proxy \<Longrightarrow> operation_rule role g Queued RequestExpired Cancelled
     [Opn DismissConsent, Opn SendResultOperationExpired, Opn ReleaseCard]"
| "role = Proxy \<Longrightarrow> operation_rule role g AwaitingConsent RequestExpired Cancelled
     [Opn DismissConsent, Opn SendResultOperationExpired, Opn ReleaseCard]"
| "role = Proxy \<Longrightarrow> operation_rule role g Requested OpSessionClosed OpNone
     [Opn DismissConsent, Opn ClearOperationCredentials, Opn ReleaseCard]"
| "role = Proxy \<Longrightarrow> operation_rule role g Queued OpSessionClosed OpNone
     [Opn DismissConsent, Opn ClearOperationCredentials, Opn ReleaseCard]"
| "role = Proxy \<Longrightarrow> operation_rule role g AwaitingConsent OpSessionClosed OpNone
     [Opn DismissConsent, Opn ClearOperationCredentials, Opn ReleaseCard]"
| "role = Proxy \<Longrightarrow> operation_rule role g Executing OpSessionClosed OpNone
     [Opn ContinueCardExchangeLocally, Opn DiscardAnswer, Opn ClearOperationCredentials,
      Opn ReleaseCard]"
| "role = Requester \<Longrightarrow> operation_rule role g OpNone RequestSent Requested
     []"
| "role = Requester \<Longrightarrow> operation_rule role g Requested ProgressReceived Requested
     [Opn ShowProgress]"
| "role = Requester \<Longrightarrow> operation_rule role g Requested ResultCompletedReceived Completed
     [Opn ReleaseResult]"
| "role = Requester \<Longrightarrow> operation_rule role g Requested ResultRejectedReceived Rejected
     [Opn ReleaseFailure]"
| "role = Requester \<Longrightarrow> operation_rule role g Requested ResultCancelledReceived Cancelled
     [Opn ReleaseFailure]"
| "role = Requester \<Longrightarrow> operation_rule role g Requested OpSessionClosed OpNone
     [Opn ReportOperationLost]"

section \<open>The code implements the model\<close>

lemmas requirement_simps = require_def require_role_def

lemma pairing_arms_1_rule:
  "pairing_arms_1 s role e g = Some (Ok t) \<Longrightarrow> pairing_rule role g s e (tr_state t) (tr_actions t)"
  by (cases role)
    (auto simp: pairing_arms_1_def requirement_simps pairing_rule.simps
      split: PairingState.splits PairingEvent.splits if_splits)

lemma pairing_arms_2_rule:
  "pairing_arms_2 s role e g = Some (Ok t) \<Longrightarrow> pairing_rule role g s e (tr_state t) (tr_actions t)"
  by (cases role)
    (auto simp: pairing_arms_2_def requirement_simps pairing_rule.simps
      split: PairingState.splits PairingEvent.splits if_splits)

lemma pairing_arms_3_rule:
  "pairing_arms_3 s role e g = Some (Ok t) \<Longrightarrow> pairing_rule role g s e (tr_state t) (tr_actions t)"
  by (cases role)
    (auto simp: pairing_arms_3_def requirement_simps pairing_rule.simps
      split: PairingState.splits PairingEvent.splits if_splits)

lemmas pairing_arms_rule = pairing_arms_1_rule pairing_arms_2_rule pairing_arms_3_rule

lemmas pairing_transition_defs = pairing_transition_def pairing_arms_1_def pairing_arms_2_def pairing_arms_3_def
  requirement_simps

lemma pairing_transition_rule:
  "pairing_transition s role e g = Ok t \<Longrightarrow> pairing_rule role g s e (tr_state t) (tr_actions t)"
  by (auto simp: pairing_transition_def split: option.splits if_splits dest: pairing_arms_rule)

lemma pairing_rule_transition:
  "pairing_rule role g s e s' as \<Longrightarrow>
   pairing_transition s role e g = Ok \<lparr>tr_state = s', tr_actions = as\<rparr>"
  by (induction rule: pairing_rule.induct; cases role) (simp_all add: pairing_transition_defs)

lemma pairing_transition_iff:
  "pairing_transition s role e g = Ok \<lparr>tr_state = s', tr_actions = as\<rparr> \<longleftrightarrow>
   pairing_rule role g s e s' as"
  using pairing_rule_transition pairing_transition_rule by fastforce

lemma session_arms_1_rule:
  "session_arms_1 s role e g = Some (Ok t) \<Longrightarrow> session_rule role g s e (tr_state t) (tr_actions t)"
  by (cases role)
    (auto simp: session_arms_1_def requirement_simps session_rule.simps
      split: SessionState.splits SessionEvent.splits if_splits)

lemma session_arms_2_rule:
  "session_arms_2 s role e g = Some (Ok t) \<Longrightarrow> session_rule role g s e (tr_state t) (tr_actions t)"
  by (cases role)
    (auto simp: session_arms_2_def requirement_simps session_rule.simps
      split: SessionState.splits SessionEvent.splits if_splits)

lemmas session_arms_rule = session_arms_1_rule session_arms_2_rule

lemmas session_transition_defs = session_transition_def session_arms_1_def session_arms_2_def
  requirement_simps

lemma session_transition_rule:
  "session_transition s role e g = Ok t \<Longrightarrow> session_rule role g s e (tr_state t) (tr_actions t)"
  by (auto simp: session_transition_def split: option.splits if_splits dest: session_arms_rule)

lemma session_rule_transition:
  "session_rule role g s e s' as \<Longrightarrow>
   session_transition s role e g = Ok \<lparr>tr_state = s', tr_actions = as\<rparr>"
  by (induction rule: session_rule.induct; cases role) (simp_all add: session_transition_defs)

lemma session_transition_iff:
  "session_transition s role e g = Ok \<lparr>tr_state = s', tr_actions = as\<rparr> \<longleftrightarrow>
   session_rule role g s e s' as"
  using session_rule_transition session_transition_rule by fastforce

lemma operation_arms_1_rule:
  "operation_arms_1 s role e g = Some (Ok t) \<Longrightarrow> operation_rule role g s e (tr_state t) (tr_actions t)"
  by (cases role)
    (auto simp: operation_arms_1_def requirement_simps operation_rule.simps
      split: OperationState.splits OperationEvent.splits if_splits)

lemma operation_arms_2_rule:
  "operation_arms_2 s role e g = Some (Ok t) \<Longrightarrow> operation_rule role g s e (tr_state t) (tr_actions t)"
  by (cases role)
    (auto simp: operation_arms_2_def requirement_simps operation_rule.simps
      split: OperationState.splits OperationEvent.splits if_splits)

lemma operation_arms_3_rule:
  "operation_arms_3 s role e g = Some (Ok t) \<Longrightarrow> operation_rule role g s e (tr_state t) (tr_actions t)"
  by (cases role)
    (auto simp: operation_arms_3_def requirement_simps operation_rule.simps
      split: OperationState.splits OperationEvent.splits if_splits)

lemmas operation_arms_rule = operation_arms_1_rule operation_arms_2_rule operation_arms_3_rule

lemmas operation_transition_defs = operation_transition_def operation_arms_1_def operation_arms_2_def operation_arms_3_def
  requirement_simps

lemma operation_transition_rule:
  "operation_transition s role e g = Ok t \<Longrightarrow> operation_rule role g s e (tr_state t) (tr_actions t)"
  by (auto simp: operation_transition_def split: option.splits if_splits dest: operation_arms_rule)

lemma operation_rule_transition:
  "operation_rule role g s e s' as \<Longrightarrow>
   operation_transition s role e g = Ok \<lparr>tr_state = s', tr_actions = as\<rparr>"
  by (induction rule: operation_rule.induct; cases role) (simp_all add: operation_transition_defs)

lemma operation_transition_iff:
  "operation_transition s role e g = Ok \<lparr>tr_state = s', tr_actions = as\<rparr> \<longleftrightarrow>
   operation_rule role g s e s' as"
  using operation_rule_transition operation_transition_rule by fastforce

text \<open>
  Property C1. The implemented machines are the documented ones: for each of the three machines a
  transition function accepts an input, in a role and under given guard facts, exactly when the
  state model lists a rule for it, and then with the successor and the ordered actions of that rule.
\<close>
theorem machines_implement_model:
  "(pairing_transition ps role pe g = Ok \<lparr>tr_state = ps', tr_actions = pas\<rparr> \<longleftrightarrow>
      pairing_rule role g ps pe ps' pas) \<and>
   (session_transition ss role se g = Ok \<lparr>tr_state = ss', tr_actions = sas\<rparr> \<longleftrightarrow>
      session_rule role g ss se ss' sas) \<and>
   (operation_transition os role oe g = Ok \<lparr>tr_state = os', tr_actions = oas\<rparr> \<longleftrightarrow>
      operation_rule role g os oe os' oas)"
  by (simp add: pairing_transition_iff session_transition_iff operation_transition_iff)

end
