(* ===== verification/Rapp_Machines.thy ===== *)
theory Rapp_Machines
  imports Rapp_Model
begin

text \<open>
  What the transition tables of \<open>Rapp_State\<close> guarantee over whole histories. A machine is run on
  a list of inputs, a refused input leaving its state as it was, and a log accumulates what the
  emitted effects did: which secrets exist, whether the code is on screen, which messages went
  out. The locale states once that an invariant between state and log that every accepted input
  keeps holds in every reachable configuration; the three machines interpret it.
\<close>

section \<open>Machines with an effect log\<close>

inductive reach ::
  "('s \<Rightarrow> 'i \<Rightarrow> ('s Transition, TransitionError) result) \<Rightarrow> ('i \<Rightarrow> Action list \<Rightarrow> 'g \<Rightarrow> 'g) \<Rightarrow>
   's \<Rightarrow> 'g \<Rightarrow> 's \<Rightarrow> 'g \<Rightarrow> bool"
  for step journal s0 g0 where
  start: "reach step journal s0 g0 s0 g0"
| accept: "reach step journal s0 g0 s g \<Longrightarrow> step s i = Ok t \<Longrightarrow>
    reach step journal s0 g0 (tr_state t) (journal i (tr_actions t) g)"

fun machine_run ::
  "('s \<Rightarrow> 'i \<Rightarrow> ('s Transition, TransitionError) result) \<Rightarrow> ('i \<Rightarrow> Action list \<Rightarrow> 'g \<Rightarrow> 'g) \<Rightarrow>
   's \<Rightarrow> 'g \<Rightarrow> 'i list \<Rightarrow> 's \<times> 'g" where
  "machine_run step journal s g [] = (s, g)"
| "machine_run step journal s g (i # is) =
     (case step s i of
        Ok t \<Rightarrow> machine_run step journal (tr_state t) (journal i (tr_actions t) g) is
      | Err _ \<Rightarrow> machine_run step journal s g is)"

lemma machine_run_reach:
  "reach step journal s0 g0 s g \<Longrightarrow> machine_run step journal s g is = (s', g') \<Longrightarrow>
   reach step journal s0 g0 s' g'"
  by (induction "is" arbitrary: s g) (auto split: result.splits intro: accept)

locale logged_machine =
  fixes step :: "'s \<Rightarrow> 'i \<Rightarrow> ('s Transition, TransitionError) result"
    and journal :: "'i \<Rightarrow> Action list \<Rightarrow> 'g \<Rightarrow> 'g"
    and s0 :: 's and g0 :: 'g
    and inv :: "'s \<Rightarrow> 'g \<Rightarrow> bool"
  assumes inv_start: "inv s0 g0"
    and inv_accept: "inv s g \<Longrightarrow> step s i = Ok t \<Longrightarrow> inv (tr_state t) (journal i (tr_actions t) g)"
begin

lemma reach_inv: "reach step journal s0 g0 s g \<Longrightarrow> inv s g"
  by (induction rule: reach.induct) (auto intro: inv_start inv_accept)

lemma run_inv: "machine_run step journal s0 g0 is = (s, g) \<Longrightarrow> inv s g"
  using machine_run_reach [OF start] by (rule reach_inv)

end

section \<open>The pairing machine\<close>

type_synonym pairing_input = "PairingEvent \<times> Guards"

definition pairing_step ::
  "EndpointRole \<Rightarrow> PairingState \<Rightarrow> pairing_input \<Rightarrow> (PairingState Transition, TransitionError) result"
where
  "pairing_step role s i = pairing_transition s role (fst i) (snd i)"

lemma pairing_step_rule:
  "pairing_step role s i = Ok t \<Longrightarrow>
   pairing_rule role (snd i) s (fst i) (tr_state t) (tr_actions t)"
  by (simp add: pairing_step_def pairing_transition_rule)

datatype record_mark = NoRecord | Unconfirmed | Confirmed | RevokedMark

record custody =
  cu_keys :: bool
  cu_record :: record_mark
  cu_offer :: bool
  cu_code_shown :: bool
  cu_secret :: bool

definition no_custody :: custody where
  "no_custody = \<lparr>cu_keys = False, cu_record = NoRecord, cu_offer = False, cu_code_shown = False,
     cu_secret = False\<rparr>"

fun custody_effect :: "Action \<Rightarrow> custody \<Rightarrow> custody" where
  "custody_effect (Rec StorePairRecordAtomically) c = c\<lparr>cu_keys := True, cu_record := Unconfirmed\<rparr>"
| "custody_effect (Rec MarkRecordConfirmed) c = c\<lparr>cu_record := Confirmed\<rparr>"
| "custody_effect (Rec MarkRecordRevoked) c = c\<lparr>cu_record := RevokedMark\<rparr>"
| "custody_effect (Rec RevokeUnconfirmedPairRecord) c = c\<lparr>cu_record := RevokedMark\<rparr>"
| "custody_effect (Rec ClearResidualPairRecord) c = c\<lparr>cu_record := NoRecord\<rparr>"
| "custody_effect (Rec DestroyPairKeys) c = c\<lparr>cu_keys := False\<rparr>"
| "custody_effect (Cer GenerateOffer) c = c\<lparr>cu_offer := True\<rparr>"
| "custody_effect (Cer DestroyOffer) c = c\<lparr>cu_offer := False\<rparr>"
| "custody_effect (Cer ConsumeOffer) c = c\<lparr>cu_offer := False\<rparr>"
| "custody_effect (Cer DisplayPairingCode) c = c\<lparr>cu_code_shown := True\<rparr>"
| "custody_effect (Cer HidePairingCode) c = c\<lparr>cu_code_shown := False\<rparr>"
| "custody_effect (Cer DerivePairingSecret) c = c\<lparr>cu_secret := True\<rparr>"
| "custody_effect (Cer DestroyPairingSecret) c = c\<lparr>cu_secret := False\<rparr>"
| "custody_effect _ c = c"

definition custody_note :: "pairing_input \<Rightarrow> Action list \<Rightarrow> custody \<Rightarrow> custody" where
  "custody_note i = fold custody_effect"

fun record_mark_ok :: "PairingState \<Rightarrow> record_mark \<Rightarrow> bool" where
  "record_mark_ok StorageConfirming m \<longleftrightarrow> m = Unconfirmed"
| "record_mark_ok PairedDisconnected m \<longleftrightarrow> m = Confirmed"
| "record_mark_ok PairedConnected m \<longleftrightarrow> m = Confirmed"
| "record_mark_ok Revoking m \<longleftrightarrow> m = RevokedMark"
| "record_mark_ok Revoked m \<longleftrightarrow> m = RevokedMark"
| "record_mark_ok _ m \<longleftrightarrow> m = NoRecord \<or> m = RevokedMark"

fun keys_held :: "PairingState \<Rightarrow> bool" where
  "keys_held StorageConfirming = True"
| "keys_held PairedDisconnected = True"
| "keys_held PairedConnected = True"
| "keys_held Revoking = True"
| "keys_held _ = False"

fun offer_open :: "EndpointRole \<Rightarrow> PairingState \<Rightarrow> bool" where
  "offer_open Proxy Offering = True"
| "offer_open Proxy Exchanging = True"
| "offer_open _ _ = False"

definition custody_inv :: "EndpointRole \<Rightarrow> PairingState \<Rightarrow> custody \<Rightarrow> bool" where
  "custody_inv role s c \<longleftrightarrow>
     cu_keys c = keys_held s \<and> record_mark_ok s (cu_record c) \<and>
     cu_offer c = offer_open role s \<and> cu_code_shown c = offer_open role s \<and>
     cu_secret c = (s = Handshaking) \<and> (role = Requester \<longrightarrow> s \<noteq> Offering)"

lemma custody_rule:
  "pairing_rule role g s e s' as \<Longrightarrow> custody_inv role s c \<Longrightarrow>
   custody_inv role s' (fold custody_effect as c)"
  by (induction rule: pairing_rule.induct; cases role) (auto simp: custody_inv_def)

lemma custody_accept:
  "custody_inv role s c \<Longrightarrow> pairing_step role s i = Ok t \<Longrightarrow>
   custody_inv role (tr_state t) (custody_note i (tr_actions t) c)"
  unfolding custody_note_def by (rule custody_rule [OF pairing_step_rule])

lemma custody_start: "custody_inv role Unpaired no_custody"
  by (cases role) (simp_all add: custody_inv_def no_custody_def)

interpretation pairing_machine: logged_machine "pairing_step role" custody_note Unpaired no_custody
    "custody_inv role" for role
  by (unfold_locales, rule custody_start, rule custody_accept)

section \<open>The session machine\<close>

type_synonym session_input = "SessionEvent \<times> Guards"

definition session_step ::
  "EndpointRole \<Rightarrow> SessionState \<Rightarrow> session_input \<Rightarrow> (SessionState Transition, TransitionError) result"
where
  "session_step role s i = session_transition s role (fst i) (snd i)"

record session_log =
  sl_material :: bool
  sl_served :: bool
  sl_buffers_erased :: bool
  sl_closes :: nat

definition no_session :: session_log where
  "no_session = \<lparr>sl_material = False, sl_served = False, sl_buffers_erased = False, sl_closes = 0\<rparr>"

fun session_effect :: "Action \<Rightarrow> session_log \<Rightarrow> session_log" where
  "session_effect (Ses BeginKkInitiator) l = l\<lparr>sl_material := True\<rparr>"
| "session_effect (Ses BeginKkResponder) l = l\<lparr>sl_material := True\<rparr>"
| "session_effect (Ses DestroySessionMaterial) l = l\<lparr>sl_material := False\<rparr>"
| "session_effect (Ses DestroyCredentialBuffers) l = l\<lparr>sl_buffers_erased := True\<rparr>"
| "session_effect (Ses StartLiveness) l = l\<lparr>sl_served := True\<rparr>"
| "session_effect (Ses SendCloseUserDisconnect) l = l\<lparr>sl_closes := Suc (sl_closes l)\<rparr>"
| "session_effect (Ses SendCloseNormal) l = l\<lparr>sl_closes := Suc (sl_closes l)\<rparr>"
| "session_effect (Ses SendCloseProtocolViolation) l = l\<lparr>sl_closes := Suc (sl_closes l)\<rparr>"
| "session_effect (Ses SendCloseServiceWithdrawn) l = l\<lparr>sl_closes := Suc (sl_closes l)\<rparr>"
| "session_effect (Ses SendCloseCardUnavailable) l = l\<lparr>sl_closes := Suc (sl_closes l)\<rparr>"
| "session_effect (Ses EchoPeerClose) l = l\<lparr>sl_closes := Suc (sl_closes l)\<rparr>"
| "session_effect (Rec SendClosePairingRevoked) l = l\<lparr>sl_closes := Suc (sl_closes l)\<rparr>"
| "session_effect _ l = l"

definition session_note :: "session_input \<Rightarrow> Action list \<Rightarrow> session_log \<Rightarrow> session_log" where
  "session_note i = fold session_effect"

fun material_held :: "SessionState \<Rightarrow> bool" where
  "material_held Authenticating = True"
| "material_held Healthy = True"
| "material_held Closing = True"
| "material_held _ = False"

definition ending :: "SessionState \<Rightarrow> bool" where
  "ending s \<longleftrightarrow> s = Closing \<or> s = Closed"

definition session_inv :: "SessionState \<Rightarrow> session_log \<Rightarrow> bool" where
  "session_inv s l \<longleftrightarrow>
     sl_material l = material_held s \<and> (s = Healthy \<longrightarrow> sl_served l) \<and>
     (sl_served l \<longrightarrow> s = Healthy \<or> ending s) \<and> sl_closes l \<le> (if ending s then 1 else 0) \<and>
     (s = Closed \<and> sl_served l \<longrightarrow> sl_buffers_erased l)"

lemma session_rule_inv:
  "session_rule role g s e s' as \<Longrightarrow> session_inv s l \<Longrightarrow> session_inv s' (fold session_effect as l)"
  by (induction rule: session_rule.induct) (auto simp: session_inv_def ending_def)

lemma session_accept:
  "session_inv s l \<Longrightarrow> session_step role s i = Ok t \<Longrightarrow>
   session_inv (tr_state t) (session_note i (tr_actions t) l)"
  unfolding session_note_def session_step_def
  by (rule session_rule_inv [OF session_transition_rule])

lemma session_start: "session_inv Absent no_session"
  by (simp add: session_inv_def no_session_def ending_def)

interpretation session_machine: logged_machine "session_step role" session_note Absent no_session
    session_inv for role
  by (unfold_locales, rule session_start, rule session_accept)

section \<open>The operation machine\<close>

type_synonym operation_input = "OperationEvent \<times> Guards"

definition operation_step ::
  "EndpointRole \<Rightarrow> OperationState \<Rightarrow> operation_input \<Rightarrow>
   (OperationState Transition, TransitionError) result"
where
  "operation_step role s i = operation_transition s role (fst i) (snd i)"

text \<open>
  On the custodian the log counts, for the operation at hand, the card commands and the results
  sent, and keeps whether the holder approved it and whether it holds the card; on the requester
  it counts the requests sent and the outcomes reported to the application.
\<close>

record operation_log =
  ol_card :: bool
  ol_approved :: bool
  ol_commands :: nat
  ol_results :: nat
  ol_requests :: nat
  ol_reports :: nat

definition no_operation :: operation_log where
  "no_operation = \<lparr>ol_card = False, ol_approved = False, ol_commands = 0, ol_results = 0,
     ol_requests = 0, ol_reports = 0\<rparr>"

fun operation_effect :: "Action \<Rightarrow> operation_log \<Rightarrow> operation_log" where
  "operation_effect (Opn StartExpiryClock) l =
     l\<lparr>ol_approved := False, ol_commands := 0, ol_results := 0\<rparr>"
| "operation_effect (Opn PresentConsent) l = l\<lparr>ol_card := True\<rparr>"
| "operation_effect (Opn ExecuteRead) l = l\<lparr>ol_card := True\<rparr>"
| "operation_effect (Opn ReleaseCard) l = l\<lparr>ol_card := False\<rparr>"
| "operation_effect (Opn ConsumeCardCommand) l = l\<lparr>ol_commands := Suc (ol_commands l)\<rparr>"
| "operation_effect (Opn SendResultUnauthorized) l = l\<lparr>ol_results := Suc (ol_results l)\<rparr>"
| "operation_effect (Opn SendResultUnsupportedParameter) l = l\<lparr>ol_results := Suc (ol_results l)\<rparr>"
| "operation_effect (Opn SendResultCompleted) l = l\<lparr>ol_results := Suc (ol_results l)\<rparr>"
| "operation_effect (Opn SendResultUserCancelled) l = l\<lparr>ol_results := Suc (ol_results l)\<rparr>"
| "operation_effect (Opn SendResultRetryFloor) l = l\<lparr>ol_results := Suc (ol_results l)\<rparr>"
| "operation_effect (Opn SendResultCardError) l = l\<lparr>ol_results := Suc (ol_results l)\<rparr>"
| "operation_effect (Opn SendResultOperationExpired) l = l\<lparr>ol_results := Suc (ol_results l)\<rparr>"
| "operation_effect (Opn ReleaseResult) l = l\<lparr>ol_reports := Suc (ol_reports l)\<rparr>"
| "operation_effect (Opn ReleaseFailure) l = l\<lparr>ol_reports := Suc (ol_reports l)\<rparr>"
| "operation_effect (Opn ReportOperationLost) l = l\<lparr>ol_reports := Suc (ol_reports l)\<rparr>"
| "operation_effect _ l = l"

definition operation_event_note :: "OperationEvent \<Rightarrow> operation_log \<Rightarrow> operation_log" where
  "operation_event_note e l =
     (if e = UserApproved then l\<lparr>ol_approved := True\<rparr>
      else if e = RequestSent then l\<lparr>ol_requests := Suc (ol_requests l)\<rparr>
      else l)"

definition operation_note :: "operation_input \<Rightarrow> Action list \<Rightarrow> operation_log \<Rightarrow> operation_log" where
  "operation_note i as l = fold operation_effect as (operation_event_note (fst i) l)"

definition on_card :: "OperationState \<Rightarrow> bool" where
  "on_card s \<longleftrightarrow> s = AwaitingConsent \<or> s = Executing"

fun proxy_inv :: "OperationState \<Rightarrow> operation_log \<Rightarrow> bool" where
  "proxy_inv s l \<longleftrightarrow>
     ol_card l = on_card s \<and> ol_results l = (if op_is_terminal s then 1 else 0) \<and>
     ol_commands l \<le> 1 \<and> (ol_commands l = 1 \<longrightarrow> ol_approved l) \<and>
     (s = Requested \<or> s = Queued \<or> s = AwaitingConsent \<longrightarrow> ol_commands l = 0)"

fun requester_inv :: "OperationState \<Rightarrow> operation_log \<Rightarrow> bool" where
  "requester_inv s l \<longleftrightarrow>
     ol_requests l = ol_reports l + (if s = Requested then 1 else 0) \<and>
     s \<noteq> Queued \<and> s \<noteq> AwaitingConsent \<and> s \<noteq> Executing \<and>
     \<not> ol_card l \<and> ol_commands l = 0 \<and> ol_results l = 0"

fun operation_inv :: "EndpointRole \<Rightarrow> OperationState \<Rightarrow> operation_log \<Rightarrow> bool" where
  "operation_inv Proxy s l = proxy_inv s l"
| "operation_inv Requester s l = requester_inv s l"

lemma operation_rule_inv:
  "operation_rule role g s e s' as \<Longrightarrow> operation_inv role s l \<Longrightarrow>
   operation_inv role s' (fold operation_effect as (operation_event_note e l))"
  by (induction rule: operation_rule.induct; cases role)
    (auto simp: on_card_def operation_event_note_def)

lemma operation_accept:
  "operation_inv role s l \<Longrightarrow> operation_step role s i = Ok t \<Longrightarrow>
   operation_inv role (tr_state t) (operation_note i (tr_actions t) l)"
  unfolding operation_note_def operation_step_def
  by (rule operation_rule_inv [OF operation_transition_rule])

lemma operation_start: "operation_inv role OpNone no_operation"
  by (cases role) (simp_all add: no_operation_def on_card_def)

interpretation operation_machine: logged_machine "operation_step role" operation_note OpNone
    no_operation "operation_inv role" for role
  by (unfold_locales, rule operation_start, rule operation_accept)

section \<open>Revocation\<close>

text \<open>The three causes that may end an active pairing: the local user, idle expiry, the peer.\<close>

fun revokes :: "pairing_input \<Rightarrow> bool" where
  "revokes (ForgetPairing, g) \<longleftrightarrow> g_local_user_action g"
| "revokes (IdleExpired, g) \<longleftrightarrow> True"
| "revokes (PeerRevocationNotice, g) \<longleftrightarrow> True"
| "revokes _ \<longleftrightarrow> False"

fun active_pairing :: "PairingState \<Rightarrow> bool" where
  "active_pairing PairedDisconnected = True"
| "active_pairing PairedConnected = True"
| "active_pairing _ = False"

lemma pairing_rule_keeps_active:
  "pairing_rule role g s e s' as \<Longrightarrow> active_pairing s \<Longrightarrow> \<not> revokes (e, g) \<Longrightarrow> active_pairing s'"
  by (induction rule: pairing_rule.induct) auto

lemma pairing_step_keeps_active:
  "pairing_step role s i = Ok t \<Longrightarrow> active_pairing s \<Longrightarrow> \<not> revokes i \<Longrightarrow> active_pairing (tr_state t)"
  using pairing_rule_keeps_active [OF pairing_step_rule, of role s i t] by simp

section \<open>Properties of the machines\<close>


text \<open>
  No failure and no withdrawal revokes a pairing: an active pairing stays active
  through any sequence of inputs that contains no forgetting by the local user, no idle expiry and
  no revocation notice of the peer.
\<close>
theorem no_failure_revokes_pairing:
  assumes "active_pairing s" "list_all (\<lambda>i. \<not> revokes i) inputs"
  shows "active_pairing (fst (machine_run (pairing_step role) custody_note s c inputs))"
  using assms
  by (induction inputs arbitrary: s c) (auto split: result.splits dest: pairing_step_keeps_active)

theorem no_failure_revokes_pairing_witness:
  "active_pairing (fst (machine_run (pairing_step Proxy) custody_note PairedConnected no_custody
     [(HandshakeFailed, Guards_default), (PeerWithdrawalNotice, Guards_default),
      (DeniedAbortedOrTimedOut, Guards_default), (ForgetPairing, Guards_default)]))"
  using no_failure_revokes_pairing [of PairedConnected
     "[(HandshakeFailed, Guards_default), (PeerWithdrawalNotice, Guards_default),
       (DeniedAbortedOrTimedOut, Guards_default), (ForgetPairing, Guards_default)]"]
  by (simp add: Guards_default_def)

text \<open>
  Property C34. Session keys are destroyed on close and a close is announced at most once. After
  any sequence of inputs in either role: handshake and session keys exist exactly while the
  session authenticates, is healthy or is closing; at most one \<open>session.close\<close> of its own has
  been sent, and none before the session ends; and a closed session that served operations has
  erased its credential buffers.
\<close>
theorem session_material_destroyed:
  "case machine_run (session_step role) session_note Absent no_session inputs of (s, l) \<Rightarrow>
     sl_material l = material_held s \<and> sl_closes l \<le> (if ending s then 1 else 0) \<and>
     (s = Closed \<and> sl_served l \<longrightarrow> sl_buffers_erased l)"
  using session_machine.run_inv [of role inputs] by (auto simp: session_inv_def split: prod.splits)

theorem session_material_destroyed_witness:
  "case machine_run (session_step Proxy) session_note Absent no_session
     [(PreambleReceived, Guards_default\<lparr>g_pairing_routed := True\<rparr>), (HandshakeComplete, Guards_default),
      (UserDisconnect, Guards_default), (CloseCompleteOrDeadline, Guards_default)] of (s, l) \<Rightarrow>
     s = Closed \<and> sl_served l \<and> sl_buffers_erased l \<and> \<not> sl_material l"
  using session_material_destroyed [of Proxy
     "[(PreambleReceived, Guards_default\<lparr>g_pairing_routed := True\<rparr>), (HandshakeComplete, Guards_default),
       (UserDisconnect, Guards_default), (CloseCompleteOrDeadline, Guards_default)]"]
  by (simp add: session_step_def session_transition_defs session_note_def no_session_def
      Guards_default_def)


text \<open>
  Property C35. The requester accounts for every request: after any sequence of inputs the number
  of outcomes reported to the application is the number of requests sent, less one while a
  request is outstanding; losing the session reports the operation as lost.
\<close>
theorem requester_accounts_for_requests:
  "case machine_run (operation_step Requester) operation_note OpNone no_operation inputs of (s, l) \<Rightarrow>
     ol_requests l = ol_reports l + (if s = Requested then 1 else 0)"
  using operation_machine.run_inv [of Requester inputs] by (auto split: prod.splits)

text \<open>
  A finished operation is final: in either role, whatever the event and the guards, a
  completed, rejected or cancelled operation refuses it as \<open>TerminalOperation\<close>, and no operation
  that is still live is refused that way.
\<close>
theorem terminal_operation_final:
  "operation_transition s role e g = Err TerminalOperation \<longleftrightarrow> op_is_terminal s"
proof (cases "op_is_terminal s")
  case True
  then show ?thesis
    by (cases s) (simp_all add: operation_transition_defs)
next
  case False
  have "operation_transition s role e g \<noteq> Err TerminalOperation"
    using False by (cases s; cases role)
      (simp_all add: operation_transition_defs split: OperationEvent.split)
  with False show ?thesis by simp
qed

section \<open>Security events of an endpoint\<close>

text \<open>
  Every security event stops the session from serving and leaves the pairing alone:
  after an authenticated protocol violation, a failed decryption or the silence limit no operation
  is admitted any more, the role is unchanged, an active pairing is unchanged, and no pairing
  becomes revoking or revoked.
\<close>
theorem security_event_stops_session:
  assumes "f \<in> {authenticated_protocol_violation, session_integrity_failed, silence_limit_reached}"
  shows "\<not> operation_admission_permitted (fst (f s)) \<and> rs_role (fst (f s)) = rs_role s \<and>
         (active_pairing (rs_pairing s) \<longrightarrow> rs_pairing (fst (f s)) = rs_pairing s) \<and>
         (rs_pairing (fst (f s)) = Revoking \<longleftrightarrow> rs_pairing s = Revoking) \<and>
         (rs_pairing (fst (f s)) = Revoked \<longleftrightarrow> rs_pairing s = Revoked)"
proof -
  have close: "rs_session (fst (close_session e s)) \<noteq> Healthy \<and>
      rs_pairing (fst (close_session e s)) = rs_pairing s \<and>
      rs_role (fst (close_session e s)) = rs_role s"
    if "e \<in> {AuthenticatedProtocolViolation, SessionIntegrityFailed, SilenceLimitReached}" for e
    using that by (cases "rs_session s") (auto simp: close_session_def session_transition_defs)
  show ?thesis
  proof (cases "\<exists>e. f = authenticated_protocol_violation \<and> violation_pairing_event s = Some e")
    case True
    then show ?thesis
      by (cases "rs_pairing s"; cases "rs_role s")
        (auto simp: authenticated_protocol_violation_def violation_pairing_event_def
          pairing_transition_defs operation_admission_permitted_def)
  next
    case False
    then have "f s \<in> (\<lambda>e. close_session e s) ` {AuthenticatedProtocolViolation,
        SessionIntegrityFailed, SilenceLimitReached}"
      using assms by (auto simp: authenticated_protocol_violation_def session_integrity_failed_def
          silence_limit_reached_def split: option.splits)
    then obtain e where e: "e \<in> {AuthenticatedProtocolViolation, SessionIntegrityFailed,
        SilenceLimitReached}" "f s = close_session e s"
      by (elim imageE)
    then show ?thesis
      using close [OF e(1)] by (simp add: operation_admission_permitted_def)
  qed
qed

theorem security_event_stops_session_witness:
  "\<not> operation_admission_permitted (fst (authenticated_protocol_violation
      \<lparr>rs_role = Proxy, rs_pairing = PairedConnected, rs_session = Healthy\<rparr>)) \<and>
   rs_pairing (fst (authenticated_protocol_violation
      \<lparr>rs_role = Proxy, rs_pairing = PairedConnected, rs_session = Healthy\<rparr>)) = PairedConnected"
  using security_event_stops_session [of authenticated_protocol_violation
      "\<lparr>rs_role = Proxy, rs_pairing = PairedConnected, rs_session = Healthy\<rparr>"]
  by simp

end
