(* ===== verification/Rapp_Session.thy ===== *)
theory Rapp_Session
  imports Prelude
begin

text \<open>
  The small guards that stand around a session in \<open>crates/rapp/src\<close>: the liveness clock
  (\<open>liveness.rs\<close>), attempt admission, the pre-authentication rate limit and the phase deadlines
  (\<open>pairing_attempts.rs\<close>), the replay cache of routing nonces (\<open>routing.rs\<close>) and the treatment
  of a session's end (\<open>session_end.rs\<close>). Times are the 64-bit millisecond values of the platform
  clock with Rust's saturating arithmetic. A gate that admits at most one event per interval is
  described once, by the locale \<open>spaced_gate\<close>, and interpreted for the rate limit and for pings.
\<close>

section \<open>Liveness\<close>

definition LIVENESS_PING_AFTER_SILENCE_MS :: u64 where "LIVENESS_PING_AFTER_SILENCE_MS = 5000"
definition SESSION_SILENCE_LIMIT_MS :: u64 where "SESSION_SILENCE_LIMIT_MS = 30000"

datatype PingChallenge = PingChallenge bytes

record LivenessTracker =
  last_heard_ms :: u64
  last_ping_ms :: "u64 option"
  outstanding :: "PingChallenge option"
  lt_closed :: bool

datatype LivenessDecision = NoAction | SendPing PingChallenge | DecideClose | AlreadyClosed

datatype PongDisposition = Accepted | IgnoredUnmatched

definition liveness_new :: "u64 \<Rightarrow> LivenessTracker" where
  "liveness_new now =
     \<lparr>last_heard_ms = now, last_ping_ms = None, outstanding = None, lt_closed = False\<rparr>"

definition heard :: "u64 \<Rightarrow> LivenessTracker \<Rightarrow> LivenessTracker" where
  "heard now t = t\<lparr>last_heard_ms := now, last_ping_ms := None\<rparr>"

definition poll :: "u64 \<Rightarrow> PingChallenge \<Rightarrow> LivenessTracker \<Rightarrow> LivenessTracker \<times> LivenessDecision" where
  "poll now next_challenge t =
     (if lt_closed t then (t, AlreadyClosed)
      else
        let silence = saturating_sub now (last_heard_ms t) in
        if silence \<ge> SESSION_SILENCE_LIMIT_MS then (t\<lparr>lt_closed := True\<rparr>, DecideClose)
        else
          let since_ping = (case last_ping_ms t of None \<Rightarrow> silence
                            | Some ping \<Rightarrow> saturating_sub now ping) in
          if silence \<ge> LIVENESS_PING_AFTER_SILENCE_MS \<and> since_ping \<ge> LIVENESS_PING_AFTER_SILENCE_MS
          then (t\<lparr>last_ping_ms := Some now, outstanding := Some next_challenge\<rparr>,
                SendPing next_challenge)
          else (t, NoAction))"

definition receive_pong ::
  "u64 \<Rightarrow> PingChallenge \<Rightarrow> LivenessTracker \<Rightarrow> LivenessTracker \<times> PongDisposition" where
  "receive_pong now challenge t =
     (if outstanding t \<noteq> Some challenge then (t, IgnoredUnmatched)
      else (heard now (t\<lparr>outstanding := None\<rparr>), Accepted))"

definition liveness_close :: "LivenessTracker \<Rightarrow> LivenessTracker" where
  "liveness_close t = t\<lparr>lt_closed := True\<rparr>"

section \<open>Attempt admission\<close>

definition CPACE_ATTEMPT_WINDOW_MS :: u64 where "CPACE_ATTEMPT_WINDOW_MS = 5000"
definition POST_PAKE_HANDSHAKE_MS :: u64 where "POST_PAKE_HANDSHAKE_MS = 10000"
definition POST_PAKE_CONFIRMATION_MS :: u64 where "POST_PAKE_CONFIRMATION_MS = 10000"
definition PRE_AUTHENTICATION_SPACING_MS :: u64 where "PRE_AUTHENTICATION_SPACING_MS = 500"

definition phase_deadline_ms :: "u64 \<Rightarrow> u64 \<Rightarrow> u64" where
  "phase_deadline_ms start window = saturating_add start window"

record PreAuthenticationRateLimit =
  last_admitted_ms :: "u64 option"

definition rate_admit ::
  "u64 \<Rightarrow> PreAuthenticationRateLimit \<Rightarrow> PreAuthenticationRateLimit \<times> bool" where
  "rate_admit now l =
     (case last_admitted_ms l of
        Some prev \<Rightarrow>
          if saturating_sub now prev < PRE_AUTHENTICATION_SPACING_MS then (l, False)
          else (l\<lparr>last_admitted_ms := Some now\<rparr>, True)
      | None \<Rightarrow> (l\<lparr>last_admitted_ms := Some now\<rparr>, True))"

definition rate_wait_ms :: "u64 \<Rightarrow> PreAuthenticationRateLimit \<Rightarrow> u64" where
  "rate_wait_ms now l =
     (case last_admitted_ms l of
        None \<Rightarrow> 0
      | Some prev \<Rightarrow> saturating_sub PRE_AUTHENTICATION_SPACING_MS (saturating_sub now prev))"

record CpaceAttemptSlot =
  slot_consumed :: bool
  active_deadline_ms :: "u64 option"

definition slot_default :: CpaceAttemptSlot where
  "slot_default = \<lparr>slot_consumed = False, active_deadline_ms = None\<rparr>"

definition accepts_another_attempt :: "CpaceAttemptSlot \<Rightarrow> bool" where
  "accepts_another_attempt s \<longleftrightarrow> \<not> slot_consumed s \<and> active_deadline_ms s = None"

definition slot_admit :: "u64 \<Rightarrow> u64 \<Rightarrow> CpaceAttemptSlot \<Rightarrow> CpaceAttemptSlot \<times> bool" where
  "slot_admit now offer_expires_at s =
     (if \<not> accepts_another_attempt s \<or> now \<ge> offer_expires_at then (s, False)
      else (s\<lparr>active_deadline_ms :=
                Some (min (saturating_add now CPACE_ATTEMPT_WINDOW_MS) offer_expires_at)\<rparr>, True))"

definition active_attempt_wait_ms :: "u64 \<Rightarrow> CpaceAttemptSlot \<Rightarrow> u64" where
  "active_attempt_wait_ms now s =
     (case active_deadline_ms s of None \<Rightarrow> 0 | Some deadline \<Rightarrow> saturating_sub deadline now)"

definition attempt_is_live :: "u64 \<Rightarrow> CpaceAttemptSlot \<Rightarrow> bool" where
  "attempt_is_live now s =
     (case active_deadline_ms s of None \<Rightarrow> False | Some deadline \<Rightarrow> now < deadline)"

definition end_active_attempt :: "CpaceAttemptSlot \<Rightarrow> CpaceAttemptSlot" where
  "end_active_attempt s = s\<lparr>active_deadline_ms := None\<rparr>"

definition slot_consume :: "CpaceAttemptSlot \<Rightarrow> CpaceAttemptSlot" where
  "slot_consume s = s\<lparr>active_deadline_ms := None, slot_consumed := True\<rparr>"

section \<open>Replay cache\<close>

definition ROUTING_REPLAY_WINDOW :: nat where "ROUTING_REPLAY_WINDOW = 256"

record RoutingReplayCache =
  seen :: "bytes list"

definition replay_default :: RoutingReplayCache where
  "replay_default = \<lparr>seen = []\<rparr>"

definition replay_admit :: "bytes \<Rightarrow> RoutingReplayCache \<Rightarrow> RoutingReplayCache \<times> bool" where
  "replay_admit nonce c =
     (if nonce \<in> set (seen c) then (c, False)
      else
        let kept = (if length (seen c) = ROUTING_REPLAY_WINDOW then tl (seen c) else seen c)
        in (c\<lparr>seen := kept @ [nonce]\<rparr>, True))"

section \<open>The end of a session\<close>

datatype CloseReason =
    CloseNormal | CloseComplete | CloseUserDisconnect | ClosePolicy | CloseProtocolViolation
  | ClosePairingRevoked | CloseShutdown | CloseCardUnavailable | CloseServiceWithdrawn

datatype RequesterSessionEnd = EndRevoked | EndWithdrawn | EndViolation | EndLoss

fun of_received_close :: "CloseReason option \<Rightarrow> RequesterSessionEnd" where
  "of_received_close (Some ClosePairingRevoked) = EndRevoked"
| "of_received_close (Some CloseServiceWithdrawn) = EndWithdrawn"
| "of_received_close (Some CloseCardUnavailable) = EndWithdrawn"
| "of_received_close (Some CloseProtocolViolation) = EndViolation"
| "of_received_close (Some CloseNormal) = EndLoss"
| "of_received_close (Some CloseComplete) = EndLoss"
| "of_received_close (Some CloseUserDisconnect) = EndLoss"
| "of_received_close (Some ClosePolicy) = EndLoss"
| "of_received_close (Some CloseShutdown) = EndLoss"
| "of_received_close None = EndLoss"

definition of_detected_violation :: RequesterSessionEnd where
  "of_detected_violation = EndViolation"

fun redials :: "RequesterSessionEnd \<Rightarrow> bool" where
  "redials EndLoss = True"
| "redials _ = False"

fun withdraws_identity_at_once :: "RequesterSessionEnd \<Rightarrow> bool" where
  "withdraws_identity_at_once EndRevoked = True"
| "withdraws_identity_at_once EndWithdrawn = True"
| "withdraws_identity_at_once _ = False"

section \<open>Gates that space their emissions\<close>

fun emissions :: "('i \<Rightarrow> 's \<Rightarrow> 's \<times> bool) \<Rightarrow> ('i \<Rightarrow> u64) \<Rightarrow> 's \<Rightarrow> 'i list \<Rightarrow> u64 list" where
  "emissions step time s [] = []"
| "emissions step time s (i # is) =
     (case step i s of (s', emitted) \<Rightarrow>
        (if emitted then [time i] else []) @ emissions step time s' is)"

definition apart :: "u64 \<Rightarrow> u64 list \<Rightarrow> bool" where
  "apart gap ts \<longleftrightarrow> sorted_wrt (\<lambda>a b. unat a + unat gap \<le> unat b) ts"

definition clock_ordered :: "('i \<Rightarrow> u64) \<Rightarrow> 'i list \<Rightarrow> bool" where
  "clock_ordered time is \<longleftrightarrow> sorted_wrt (\<le>) (map time is)"

text \<open>
  A gate remembers its last emission: \<open>knows s p\<close> says that the state is late enough for an
  emission at \<open>p\<close> to hold back the next one.
\<close>

locale spaced_gate =
  fixes step :: "'i \<Rightarrow> 's \<Rightarrow> 's \<times> bool"
    and time :: "'i \<Rightarrow> u64"
    and gap :: u64
    and knows :: "'s \<Rightarrow> u64 \<Rightarrow> bool"
  assumes emit: "step i s = (s', True) \<Longrightarrow> knows s' (time i)"
    and keep: "knows s p \<Longrightarrow> p \<le> time i \<Longrightarrow> step i s = (s', False) \<Longrightarrow> knows s' p"
    and wait: "knows s p \<Longrightarrow> p \<le> time i \<Longrightarrow> step i s = (s', True) \<Longrightarrow>
                 unat p + unat gap \<le> unat (time i)"
begin

lemma emissions_after:
  assumes "knows s p" "\<forall>i\<in>set is. p \<le> time i" "clock_ordered time is"
  shows "apart gap (p # emissions step time s is)"
  using assms
proof (induction "is" arbitrary: s p)
  case (Cons i "is")
  obtain s' b where step: "step i s = (s', b)" by force
  have later: "\<forall>j\<in>set is. time i \<le> time j" "clock_ordered time is"
    using Cons.prems(3) by (auto simp: clock_ordered_def)
  show ?case
  proof (cases b)
    case True
    then have "apart gap (time i # emissions step time s' is)"
      using Cons.IH [OF emit later] step by simp
    moreover have "unat p + unat gap \<le> unat (time i)"
      using wait [OF Cons.prems(1), of i s'] Cons.prems(2) step True by simp
    ultimately show ?thesis
      using step True by (fastforce simp: apart_def)
  next
    case False
    then have "knows s' p"
      using keep [OF Cons.prems(1), of i s'] Cons.prems(2) step by simp
    then show ?thesis
      using Cons.IH [of s' p] Cons.prems(2) later(2) step False by simp
  qed
qed (simp add: apart_def)

lemma emissions_apart:
  assumes "clock_ordered time is"
  shows "apart gap (emissions step time s is)"
  using assms
proof (induction "is" arbitrary: s)
  case (Cons i "is")
  obtain s' b where step: "step i s = (s', b)" by force
  have later: "\<forall>j\<in>set is. time i \<le> time j" "clock_ordered time is"
    using Cons.prems by (auto simp: clock_ordered_def)
  show ?case
    using Cons.IH [OF later(2), of s'] emissions_after [OF emit later, of s s'] step
    by (cases b) simp_all
qed (simp add: apart_def)

end

section \<open>The two gates\<close>

definition rate_step :: "u64 \<Rightarrow> PreAuthenticationRateLimit \<Rightarrow> PreAuthenticationRateLimit \<times> bool" where
  "rate_step = rate_admit"

definition rate_knows :: "PreAuthenticationRateLimit \<Rightarrow> u64 \<Rightarrow> bool" where
  "rate_knows l p \<longleftrightarrow> last_admitted_ms l = Some p"

lemma unat_saturating_sub_ge:
  "saturating_sub a b \<ge> c \<Longrightarrow> b \<le> a \<Longrightarrow> unat b + unat c \<le> unat a"
  by (simp add: word_le_nat_alt unat_saturating_sub)

interpretation rate_gate: spaced_gate rate_step id PRE_AUTHENTICATION_SPACING_MS rate_knows
proof
  fix i :: u64 and s s' :: PreAuthenticationRateLimit and p :: u64
  show "rate_step i s = (s', True) \<Longrightarrow> rate_knows s' (id i)"
    by (auto simp: rate_step_def rate_admit_def rate_knows_def split: option.splits if_splits)
  show "rate_knows s p \<Longrightarrow> p \<le> id i \<Longrightarrow> rate_step i s = (s', False) \<Longrightarrow> rate_knows s' p"
    by (auto simp: rate_step_def rate_admit_def rate_knows_def split: option.splits if_splits)
  show "rate_knows s p \<Longrightarrow> p \<le> id i \<Longrightarrow> rate_step i s = (s', True) \<Longrightarrow>
      unat p + unat PRE_AUTHENTICATION_SPACING_MS \<le> unat (id i)"
    by (auto simp: rate_step_def rate_admit_def rate_knows_def not_less
        intro: unat_saturating_sub_ge split: if_splits)
qed

datatype liveness_input =
  Heard (li_time: u64) | Poll (li_time: u64) PingChallenge | Pong (li_time: u64) PingChallenge

fun liveness_step :: "liveness_input \<Rightarrow> LivenessTracker \<Rightarrow> LivenessTracker \<times> bool" where
  "liveness_step (Heard now) t = (heard now t, False)"
| "liveness_step (Poll now c) t = (fst (poll now c t), snd (poll now c t) = SendPing c)"
| "liveness_step (Pong now c) t = (fst (receive_pong now c t), False)"

definition liveness_knows :: "LivenessTracker \<Rightarrow> u64 \<Rightarrow> bool" where
  "liveness_knows t p \<longleftrightarrow>
     (case last_ping_ms t of Some q \<Rightarrow> q = p | None \<Rightarrow> p \<le> last_heard_ms t)"

lemma liveness_keep:
  "liveness_knows t p \<Longrightarrow> p \<le> li_time i \<Longrightarrow> liveness_step i t = (t', False) \<Longrightarrow> liveness_knows t' p"
  by (cases i) (auto simp: liveness_knows_def heard_def poll_def receive_pong_def Let_def
      split: if_splits option.splits)

lemma liveness_wait:
  "liveness_knows t p \<Longrightarrow> p \<le> li_time i \<Longrightarrow> liveness_step i t = (t', True) \<Longrightarrow>
   unat p + unat LIVENESS_PING_AFTER_SILENCE_MS \<le> unat (li_time i)"
proof (cases i)
  case (Poll now c)
  assume knows: "liveness_knows t p" and p: "p \<le> li_time i" and step: "liveness_step i t = (t', True)"
  then have "snd (poll now c t) = SendPing c" using Poll by simp
  then have ping: "saturating_sub now (last_heard_ms t) \<ge> LIVENESS_PING_AFTER_SILENCE_MS"
    "(case last_ping_ms t of None \<Rightarrow> saturating_sub now (last_heard_ms t)
      | Some q \<Rightarrow> saturating_sub now q) \<ge> LIVENESS_PING_AFTER_SILENCE_MS"
    by (auto simp: poll_def Let_def split: if_splits)
  show ?thesis
  proof (cases "last_ping_ms t")
    case None
    have "unat (last_heard_ms t) + unat LIVENESS_PING_AFTER_SILENCE_MS \<le> unat now"
      using ping(1)
      by (auto simp: word_le_nat_alt unat_saturating_sub LIVENESS_PING_AFTER_SILENCE_MS_def)
    then show ?thesis
      using knows None Poll by (simp add: liveness_knows_def word_le_nat_alt)
  next
    case (Some q)
    then show ?thesis
      using ping(2) knows p Poll by (simp add: liveness_knows_def unat_saturating_sub_ge)
  qed
qed simp_all

interpretation ping_gate: spaced_gate liveness_step li_time LIVENESS_PING_AFTER_SILENCE_MS
    liveness_knows
proof
  fix i :: liveness_input and s s' :: LivenessTracker
  show "liveness_step i s = (s', True) \<Longrightarrow> liveness_knows s' (li_time i)"
    by (cases i) (auto simp: liveness_knows_def poll_def Let_def split: if_splits)
qed (rule liveness_keep liveness_wait; assumption)+

section \<open>Properties\<close>

text \<open>
  The custodian never runs two pre-authentication attempts within 500 milliseconds:
  over any sequence of requests on a clock that does not go back, the times at which attempts are
  admitted are at least 500 milliseconds apart.
\<close>
theorem attempts_spaced:
  assumes "sorted_wrt (\<le>) (moments :: u64 list)"
  shows "apart 500 (emissions rate_admit id l moments)"
  using rate_gate.emissions_apart [of moments l] assms
  by (simp add: clock_ordered_def rate_step_def PRE_AUTHENTICATION_SPACING_MS_def)

theorem attempts_spaced_witness:
  "emissions rate_admit id \<lparr>last_admitted_ms = None\<rparr> [1000, 1499, 1500, 1700, 2100] = [1000, 1500, 2100] \<and>
   apart 500 (emissions rate_admit id \<lparr>last_admitted_ms = None\<rparr> [1000, 1499, 1500, 1700, 2100])"
  using attempts_spaced [of "[1000, 1499, 1500, 1700, 2100]" "\<lparr>last_admitted_ms = None\<rparr>"]
  by (simp add: rate_admit_def saturating_sub_def PRE_AUTHENTICATION_SPACING_MS_def)

text \<open>
  The time the rate limit reports to wait is exact: it is zero exactly when an
  attempt would be admitted now, and on a clock that is not behind the last admitted attempt an
  attempt is admitted at a later moment exactly when at least the reported time has passed.
\<close>
theorem rate_wait_exact:
  assumes "case last_admitted_ms l of None \<Rightarrow> True | Some prev \<Rightarrow> prev \<le> now"
    and "now \<le> later"
  shows "(rate_wait_ms now l = 0 \<longleftrightarrow> snd (rate_admit now l)) \<and>
         (snd (rate_admit later l) \<longleftrightarrow> unat now + unat (rate_wait_ms now l) \<le> unat later)"
  using assms
  by (auto simp: rate_wait_ms_def rate_admit_def word_le_nat_alt word_less_nat_alt
      unat_saturating_sub PRE_AUTHENTICATION_SPACING_MS_def unat_eq_0 [symmetric]
      split: option.splits)

theorem rate_wait_exact_witness:
  "rate_wait_ms 1200 \<lparr>last_admitted_ms = Some 1000\<rparr> = 300 \<and>
   snd (rate_admit 1500 \<lparr>last_admitted_ms = Some 1000\<rparr>)"
  using rate_wait_exact [of 1200 "\<lparr>last_admitted_ms = Some 1000\<rparr>" 1500]
  by (simp add: rate_wait_ms_def saturating_sub_def PRE_AUTHENTICATION_SPACING_MS_def)

text \<open>
  Pings are never sent more often than every five seconds: over any sequence of
  received messages, clock ticks and pongs on a clock that does not go back, from any state of the
  tracker, the times of the pings are at least 5000 milliseconds apart.
\<close>
theorem pings_spaced:
  assumes "clock_ordered li_time inputs"
  shows "apart 5000 (emissions liveness_step li_time t inputs)"
  using ping_gate.emissions_apart [OF assms, of t] by (simp add: LIVENESS_PING_AFTER_SILENCE_MS_def)

theorem pings_spaced_witness:
  "emissions liveness_step li_time (liveness_new 0)
     [Poll 5000 (PingChallenge [7]), Poll 7000 (PingChallenge [8]), Heard 8000,
      Poll 10000 (PingChallenge [9]), Poll 13000 (PingChallenge [7])] = [5000, 13000] \<and>
   apart 5000 (emissions liveness_step li_time (liveness_new 0)
     [Poll 5000 (PingChallenge [7]), Poll 7000 (PingChallenge [8]), Heard 8000,
      Poll 10000 (PingChallenge [9]), Poll 13000 (PingChallenge [7])])"
  using pings_spaced [of "[Poll 5000 (PingChallenge [7]), Poll 7000 (PingChallenge [8]), Heard 8000,
       Poll 10000 (PingChallenge [9]), Poll 13000 (PingChallenge [7])]"
      "liveness_new 0"]
  by (simp add: clock_ordered_def liveness_new_def poll_def heard_def saturating_sub_def Let_def
      SESSION_SILENCE_LIMIT_MS_def LIVENESS_PING_AFTER_SILENCE_MS_def)

fun liveness_decisions :: "LivenessTracker \<Rightarrow> liveness_input list \<Rightarrow> LivenessDecision list" where
  "liveness_decisions t [] = []"
| "liveness_decisions t (Poll now c # is) =
     snd (poll now c t) # liveness_decisions (fst (poll now c t)) is"
| "liveness_decisions t (i # is) = liveness_decisions (fst (liveness_step i t)) is"

lemma closed_stays:
  "lt_closed t \<Longrightarrow> set (liveness_decisions t is) \<subseteq> {AlreadyClosed}"
  by (induction t "is" rule: liveness_decisions.induct)
    (auto simp: poll_def heard_def receive_pong_def)

text \<open>
  Thirty seconds of silence end the session, once: a clock tick decides to close
  exactly when the tracker is open and nothing was heard for at least 30000 milliseconds, and every
  later decision, whatever arrives, is that the session is already closed.
\<close>
theorem silence_closes_once:
  "(snd (poll now c t) = DecideClose \<longleftrightarrow>
      \<not> lt_closed t \<and> unat (last_heard_ms t) + 30000 \<le> unat now) \<and>
   (snd (poll now c t) = DecideClose \<longrightarrow>
      set (liveness_decisions (fst (poll now c t)) inputs) \<subseteq> {AlreadyClosed})"
proof -
  have "snd (poll now c t) = DecideClose \<longleftrightarrow>
      \<not> lt_closed t \<and> SESSION_SILENCE_LIMIT_MS \<le> saturating_sub now (last_heard_ms t)"
    by (auto simp: poll_def Let_def)
  moreover have "snd (poll now c t) = DecideClose \<Longrightarrow> lt_closed (fst (poll now c t))"
    by (auto simp: poll_def Let_def split: if_splits)
  ultimately show ?thesis
    using closed_stays
    by (auto simp: SESSION_SILENCE_LIMIT_MS_def word_le_nat_alt unat_saturating_sub)
qed

theorem silence_closes_once_witness:
  "snd (poll 40000 (PingChallenge [7]) (liveness_new 10000)) = DecideClose \<and>
   set (liveness_decisions (fst (poll 40000 (PingChallenge [7]) (liveness_new 10000))) [Heard 41000, Poll 42000 (PingChallenge [8])])
     \<subseteq> {AlreadyClosed}"
  using silence_closes_once [of 40000 "PingChallenge [7]" "liveness_new 10000" "[Heard 41000, Poll 42000 (PingChallenge [8])]"]
  by (simp add: liveness_new_def)

datatype slot_op = Admit u64 u64 | EndAttempt | Consume

fun slot_run :: "CpaceAttemptSlot \<Rightarrow> slot_op list \<Rightarrow> CpaceAttemptSlot \<times> nat" where
  "slot_run s [] = (s, 0)"
| "slot_run s (Admit now expiry # ops) =
     (case slot_admit now expiry s of (s', admitted) \<Rightarrow>
        map_prod id (\<lambda>n. n + (if admitted then 1 else 0)) (slot_run s' ops))"
| "slot_run s (EndAttempt # ops) = slot_run (end_active_attempt s) ops"
| "slot_run s (Consume # ops) = slot_run (slot_consume s) ops"

lemma consumed_run:
  "slot_consumed s \<Longrightarrow> slot_consumed (fst (slot_run s ops)) \<and> snd (slot_run s ops) = 0"
  by (induction s ops rule: slot_run.induct)
    (auto simp: slot_admit_def accepts_another_attempt_def end_active_attempt_def slot_consume_def)

text \<open>
  An offer is used once: after a verified confirmation consumed it, no sequence of
  operations makes the slot admit another attempt. An attempt is admitted only while none is
  active and the offer has not expired, and its deadline then lies strictly after now, within five
  seconds and not past the offer's expiry.
\<close>
theorem offer_used_once:
  "snd (slot_run (slot_consume s) ops) = 0 \<and>
   (snd (slot_admit now expiry s) \<longleftrightarrow>
      \<not> slot_consumed s \<and> active_deadline_ms s = None \<and> now < expiry) \<and>
   (snd (slot_admit now expiry s) \<longrightarrow>
      (\<exists>d. active_deadline_ms (fst (slot_admit now expiry s)) = Some d \<and>
           now < d \<and> d \<le> expiry \<and> unat d \<le> unat now + 5000))"
proof -
  have "unat expiry \<le> 18446744073709551615"
    using unat_u64_less [of expiry] by linarith
  then have "now < min (saturating_add now 5000) expiry"
    "unat (min (saturating_add now 5000) expiry) \<le> unat now + 5000" if "now < expiry"
    using that
    by (auto simp: min_def word_less_nat_alt word_le_nat_alt unat_saturating_add)
  then show ?thesis
    using consumed_run [of "slot_consume s" ops]
    by (auto simp: slot_admit_def accepts_another_attempt_def slot_consume_def
        CPACE_ATTEMPT_WINDOW_MS_def not_le)
qed

theorem offer_used_once_witness:
  "snd (slot_admit 100 300000 slot_default) \<and>
   (\<exists>d. active_deadline_ms (fst (slot_admit 100 300000 slot_default)) = Some d \<and> d \<le> 300000) \<and>
   snd (slot_run (slot_consume slot_default) [EndAttempt, Admit 200 300000]) = 0"
  using offer_used_once [of slot_default "[EndAttempt, Admit 200 300000]" 100 300000]
  by (auto simp: slot_default_def)

section \<open>Replayed routing nonces\<close>

fun replay_run :: "RoutingReplayCache \<Rightarrow> bytes list \<Rightarrow> RoutingReplayCache \<times> bytes list" where
  "replay_run c [] = (c, [])"
| "replay_run c (n # ns) =
     (case replay_admit n c of (c', fresh) \<Rightarrow>
        map_prod id (\<lambda>acc. if fresh then n # acc else acc) (replay_run c' ns))"

definition recent :: "bytes list \<Rightarrow> bytes list" where
  "recent h = drop (length h - ROUTING_REPLAY_WINDOW) h"

definition fresh_in_window :: "bytes list \<Rightarrow> bool" where
  "fresh_in_window h \<longleftrightarrow> (\<forall>j < length h. h ! j \<notin> set (recent (take j h)))"

lemma recent_snoc:
  "recent (h @ [n]) =
     (if length (recent h) = ROUTING_REPLAY_WINDOW then tl (recent h) else recent h) @ [n]"
proof (cases "length h < 256")
  case False
  then have "Suc (length h) - 256 = Suc (length h - 256)" by simp
  then show ?thesis
    using False by (simp add: recent_def ROUTING_REPLAY_WINDOW_def tl_drop drop_Suc)
qed (simp add: recent_def ROUTING_REPLAY_WINDOW_def)

lemma fresh_snoc: "fresh_in_window h \<Longrightarrow> n \<notin> set (recent h) \<Longrightarrow> fresh_in_window (h @ [n])"
  by (auto simp: fresh_in_window_def nth_append less_Suc_eq)

lemma replay_run_window:
  assumes "seen c = recent h" "fresh_in_window h"
  shows "seen (fst (replay_run c ns)) = recent (h @ snd (replay_run c ns)) \<and>
         fresh_in_window (h @ snd (replay_run c ns))"
  using assms
proof (induction ns arbitrary: c h)
  case (Cons n ns)
  show ?case
  proof (cases "n \<in> set (seen c)")
    case True
    then show ?thesis
      using Cons by (simp add: replay_admit_def)
  next
    case False
    define c' where "c' = fst (replay_admit n c)"
    have "replay_admit n c = (c', True)" "seen c' = recent (h @ [n])"
      using False Cons.prems(1) by (simp_all add: c'_def replay_admit_def Let_def recent_snoc)
    then show ?thesis
      using Cons.IH [of c' "h @ [n]"] fresh_snoc [OF Cons.prems(2), of n] False Cons.prems(1) by simp
  qed
qed simp

text \<open>
  Property C36. A routing nonce is not accepted twice within the last 256 accepted ones: whatever
  nonces arrive, every accepted nonce differs from the 256 accepted before it, and the cache
  refuses the next nonce exactly when it is one of the 256 accepted last.
\<close>
theorem replay_refused:
  "case replay_run replay_default nonces of (c, accepted) \<Rightarrow>
     fresh_in_window accepted \<and> (snd (replay_admit n c) \<longleftrightarrow> n \<notin> set (recent accepted))"
proof -
  have "seen replay_default = recent []" "fresh_in_window []"
    by (simp_all add: replay_default_def recent_def fresh_in_window_def)
  from replay_run_window [OF this, of nonces] show ?thesis
    by (auto simp: replay_admit_def Let_def split: prod.splits)
qed

section \<open>How a session's end is treated\<close>

text \<open>
  A requester redials exactly after a loss, and gives up the custodian's identity at
  once exactly after a revocation or a withdrawal: for every close reason, or none, never both,
  and neither only for a protocol violation.
\<close>
theorem session_end_treatment:
  "(redials (of_received_close r) \<longleftrightarrow>
      r \<notin> Some ` {ClosePairingRevoked, CloseServiceWithdrawn, CloseCardUnavailable,
                   CloseProtocolViolation}) \<and>
   (withdraws_identity_at_once (of_received_close r) \<longleftrightarrow>
      r \<in> Some ` {ClosePairingRevoked, CloseServiceWithdrawn, CloseCardUnavailable}) \<and>
   \<not> redials of_detected_violation \<and> \<not> withdraws_identity_at_once of_detected_violation"
  by (cases r rule: of_received_close.cases) (auto simp: of_detected_violation_def)

end
