(* ===== verification/Rapp_Sar.thy ===== *)
theory Rapp_Sar
  imports Prelude
begin

text \<open>
  Segmentation and reassembly on the Bluetooth channel, \<open>crates/rapp/src/ble_sar.rs\<close>: the
  payload capacity, the sender \<open>segment\<close> and the receiver \<open>BleSarReassembler\<close> with its timer.
  The theory shows that what is segmented is reassembled to the same message, that nothing a peer
  sends makes the receiver hold more than the declared total, and that a refused fragment leaves
  the receiver empty.
\<close>

section \<open>The sender\<close>

definition BLE_SAR_HEADER_SIZE :: nat where "BLE_SAR_HEADER_SIZE = 6"
definition BLE_MINIMUM_ATT_MTU :: nat where "BLE_MINIMUM_ATT_MTU = 512"
definition BLE_SAR_MINIMUM_NON_FINAL_PAYLOAD :: nat where "BLE_SAR_MINIMUM_NON_FINAL_PAYLOAD = 64"
definition BLE_SAR_SEQUENCE_LIMIT :: nat where "BLE_SAR_SEQUENCE_LIMIT = 1024"
definition BLE_SAR_MAXIMUM_MESSAGE :: nat where "BLE_SAR_MAXIMUM_MESSAGE = 65535"
definition BLE_SAR_REASSEMBLY_TIMEOUT_MS :: u64 where "BLE_SAR_REASSEMBLY_TIMEOUT_MS = 5000"
definition ATTRIBUTE_VALUE_LIMIT :: nat where "ATTRIBUTE_VALUE_LIMIT = 512"
definition ATT_HEADER_SIZE :: nat where "ATT_HEADER_SIZE = 3"
definition OFFSET_TOTAL :: nat where "OFFSET_TOTAL = 0"
definition OFFSET_SEQUENCE :: nat where "OFFSET_SEQUENCE = 2"
definition OFFSET_FLAGS :: nat where "OFFSET_FLAGS = 4"
definition OFFSET_RESERVED :: nat where "OFFSET_RESERVED = 5"
definition FLAG_FIRST :: u8 where "FLAG_FIRST = 1"
definition FLAG_CONT :: u8 where "FLAG_CONT = 2"
definition FLAG_LAST :: u8 where "FLAG_LAST = 4"
definition FLAG_SINGLE :: u8 where "FLAG_SINGLE = FLAG_FIRST OR FLAG_LAST"
definition FLAGS_DEFINED :: u8 where "FLAGS_DEFINED = FLAG_FIRST OR FLAG_CONT OR FLAG_LAST"

lemmas sar_consts = BLE_SAR_HEADER_SIZE_def BLE_MINIMUM_ATT_MTU_def
  BLE_SAR_MINIMUM_NON_FINAL_PAYLOAD_def BLE_SAR_SEQUENCE_LIMIT_def BLE_SAR_MAXIMUM_MESSAGE_def
  ATTRIBUTE_VALUE_LIMIT_def ATT_HEADER_SIZE_def

lemmas offset_consts = OFFSET_TOTAL_def OFFSET_SEQUENCE_def OFFSET_FLAGS_def OFFSET_RESERVED_def

datatype BleSarError =
    AttMtuTooSmall | EmptyFragment | FirstFragmentNotShorterThanTotal | FirstFragmentTooShort
  | FragmentOverCapacity | HeaderTruncated | IllegalFlags | IllegalTransition | IncompleteAtLast
  | InvalidCapacity | InvalidMessageLength | NonFinalFragmentTooShort | Overflow
  | ReassemblyTimeout | ReservedBitsSet | SequenceMismatch | SequenceOutOfBounds
  | SingleLengthMismatch | TotalLengthChanged | UnexpectedInitialFragment | ZeroTotalLength

definition payload_capacity :: "nat \<Rightarrow> nat option \<Rightarrow> (nat, BleSarError) result" where
  "payload_capacity negotiated_att_mtu platform_value_limit =
     (if negotiated_att_mtu < BLE_MINIMUM_ATT_MTU then Err AttMtuTooSmall
      else
        let value_limit = min (negotiated_att_mtu - ATT_HEADER_SIZE) ATTRIBUTE_VALUE_LIMIT;
            value_limit = (case platform_value_limit of Some limit \<Rightarrow> min value_limit limit
                           | None \<Rightarrow> value_limit)
        in if value_limit < BLE_SAR_HEADER_SIZE then Err InvalidCapacity
           else let capacity = value_limit - BLE_SAR_HEADER_SIZE in
             if capacity < BLE_SAR_MINIMUM_NON_FINAL_PAYLOAD then Err InvalidCapacity
             else Ok capacity)"

definition u16_be_bytes :: "nat \<Rightarrow> bytes" where
  "u16_be_bytes n = [u16_hi (of_nat n), u16_lo (of_nat n)]"

definition fragment :: "nat \<Rightarrow> nat \<Rightarrow> u8 \<Rightarrow> bytes \<Rightarrow> bytes" where
  "fragment tot sequence flags payload =
     u16_be_bytes tot @ u16_be_bytes sequence @ [flags, 0] @ payload"

definition segment :: "bytes \<Rightarrow> nat \<Rightarrow> (bytes list, BleSarError) result" where
  "segment message capacity =
     (if \<not> (BLE_SAR_MINIMUM_NON_FINAL_PAYLOAD \<le> capacity \<and>
             capacity \<le> ATTRIBUTE_VALUE_LIMIT - BLE_SAR_HEADER_SIZE) then Err InvalidCapacity
      else if message = [] \<or> length message > BLE_SAR_MAXIMUM_MESSAGE then Err InvalidMessageLength
      else if length message \<le> capacity then
        Ok [fragment (length message) 0 FLAG_SINGLE message]
      else
        let cs = chunks capacity message;
            final = length cs - 1
        in Ok (map (\<lambda>(sequence, payload).
                 fragment (length message) sequence
                   (if sequence = 0 then FLAG_FIRST
                    else if sequence = final then FLAG_LAST
                    else FLAG_CONT) payload)
               (enumerate 0 cs)))"

section \<open>The receiver\<close>

definition field :: "bytes \<Rightarrow> nat \<Rightarrow> nat" where
  "field frag offset = unat (u16_of_be (frag ! offset) (frag ! (offset + 1)))"

record Header =
  h_total :: nat
  h_sequence :: nat
  h_flags :: u8

record BleSarReassembler =
  expected_sequence :: nat
  expected_total :: nat
  buffer :: bytes
  deadline :: "u64 option"

definition sar_new :: BleSarReassembler where
  "sar_new = \<lparr>expected_sequence = 0, expected_total = 0, buffer = [], deadline = None\<rparr>"

definition is_idle :: "BleSarReassembler \<Rightarrow> bool" where
  "is_idle r \<longleftrightarrow> expected_sequence r = 0 \<and> buffer r = []"

definition sar_reset :: "BleSarReassembler \<Rightarrow> BleSarReassembler" where
  "sar_reset r = r\<lparr>buffer := [], expected_sequence := 0, expected_total := 0, deadline := None\<rparr>"

definition check_timer :: "u64 \<Rightarrow> BleSarReassembler \<Rightarrow> BleSarReassembler \<times> (unit, BleSarError) result"
where
  "check_timer now r =
     (case deadline r of
        Some d \<Rightarrow> if now \<ge> d then (sar_reset r, Err ReassemblyTimeout) else (r, Ok ())
      | None \<Rightarrow> (r, Ok ()))"

definition legal_flags :: "u8 \<Rightarrow> bool" where
  "legal_flags flags \<longleftrightarrow>
     flags = FLAG_FIRST \<or> flags = FLAG_CONT \<or> flags = FLAG_LAST \<or> flags = FLAG_SINGLE"

definition sar_header :: "bytes \<Rightarrow> nat \<Rightarrow> (Header, BleSarError) result" where
  "sar_header frag capacity =
     (if length frag < BLE_SAR_HEADER_SIZE then Err HeaderTruncated
      else
        let flags = frag ! OFFSET_FLAGS in
        if frag ! OFFSET_RESERVED \<noteq> 0 then Err ReservedBitsSet
        else if \<not> legal_flags flags then
          Err (if flags AND NOT FLAGS_DEFINED = 0 then IllegalFlags else ReservedBitsSet)
        else
          let payload_len = length frag - BLE_SAR_HEADER_SIZE in
          if payload_len = 0 then Err EmptyFragment
          else if payload_len > capacity then Err FragmentOverCapacity
          else
            let sequence = field frag OFFSET_SEQUENCE in
            if sequence \<ge> BLE_SAR_SEQUENCE_LIMIT then Err SequenceOutOfBounds
            else
              let tot = field frag OFFSET_TOTAL in
              if tot = 0 then Err ZeroTotalLength
              else Ok \<lparr>h_total = tot, h_sequence = sequence, h_flags = flags\<rparr>)"

type_synonym sar_outcome = "BleSarReassembler \<times> (bytes option, BleSarError) result"

definition sar_begin :: "Header \<Rightarrow> bytes \<Rightarrow> u64 \<Rightarrow> BleSarReassembler \<Rightarrow> sar_outcome" where
  "sar_begin h payload now r =
     (if \<not> (h_flags h = FLAG_FIRST \<or> h_flags h = FLAG_SINGLE) \<or> h_sequence h \<noteq> 0
        then (r, Err UnexpectedInitialFragment)
      else if h_flags h = FLAG_SINGLE then
        (if h_total h \<noteq> length payload then (r, Err SingleLengthMismatch)
         else (r, Ok (Some payload)))
      else if length payload < BLE_SAR_MINIMUM_NON_FINAL_PAYLOAD then (r, Err FirstFragmentTooShort)
      else if length payload \<ge> h_total h then (r, Err FirstFragmentNotShorterThanTotal)
      else (r\<lparr>expected_total := h_total h, buffer := buffer r @ payload, expected_sequence := 1,
              deadline := Some (saturating_add now BLE_SAR_REASSEMBLY_TIMEOUT_MS)\<rparr>, Ok None))"

definition continue_frame :: "Header \<Rightarrow> bytes \<Rightarrow> BleSarReassembler \<Rightarrow> sar_outcome" where
  "continue_frame h payload r =
     (let is_last = (h_flags h = FLAG_LAST) in
      if \<not> is_last \<and> h_flags h \<noteq> FLAG_CONT then (r, Err IllegalTransition)
      else if h_total h \<noteq> expected_total r then (r, Err TotalLengthChanged)
      else if h_sequence h \<noteq> expected_sequence r then (r, Err SequenceMismatch)
      else if \<not> is_last \<and> length payload < BLE_SAR_MINIMUM_NON_FINAL_PAYLOAD
        then (r, Err NonFinalFragmentTooShort)
      else if length (buffer r) + length payload > expected_total r then (r, Err Overflow)
      else
        let r = r\<lparr>buffer := buffer r @ payload\<rparr> in
        if \<not> is_last then (r\<lparr>expected_sequence := expected_sequence r + 1\<rparr>, Ok None)
        else if length (buffer r) \<noteq> expected_total r then (r, Err IncompleteAtLast)
        else (sar_reset r, Ok (Some (buffer r))))"

definition sar_accept :: "bytes \<Rightarrow> nat \<Rightarrow> u64 \<Rightarrow> BleSarReassembler \<Rightarrow> sar_outcome" where
  "sar_accept frag capacity now r =
     (case check_timer now r of
        (r, Err e) \<Rightarrow> (r, Err e)
      | (r, Ok _) \<Rightarrow>
          (case sar_header frag capacity of
             Err e \<Rightarrow> (r, Err e)
           | Ok h \<Rightarrow>
               let payload = drop BLE_SAR_HEADER_SIZE frag in
               if is_idle r then sar_begin h payload now r else continue_frame h payload r))"

definition sar_receive :: "bytes \<Rightarrow> nat \<Rightarrow> u64 \<Rightarrow> BleSarReassembler \<Rightarrow> sar_outcome" where
  "sar_receive frag capacity now r =
     (case sar_accept frag capacity now r of
        (r, Err e) \<Rightarrow> (sar_reset r, Err e)
      | (r, Ok m) \<Rightarrow> (r, Ok m))"

fun sar_run :: "nat \<Rightarrow> BleSarReassembler \<Rightarrow> (bytes \<times> u64) list \<Rightarrow>
  BleSarReassembler \<times> (bytes option, BleSarError) result list" where
  "sar_run capacity r [] = (r, [])"
| "sar_run capacity r ((frag, now) # rest) =
     (case sar_receive frag capacity now r of
        (r', out) \<Rightarrow> map_prod id (\<lambda>outs. out # outs) (sar_run capacity r' rest))"

section \<open>One fragment\<close>

lemma sar_reset_eq [simp]: "sar_reset r = sar_new"
  by (simp add: sar_reset_def sar_new_def)

lemma flags_legal [simp]:
  "legal_flags FLAG_FIRST" "legal_flags FLAG_CONT" "legal_flags FLAG_LAST" "legal_flags FLAG_SINGLE"
  by (simp_all add: legal_flags_def)

lemma flags_distinct [simp]:
  "FLAG_FIRST \<noteq> FLAG_SINGLE" "FLAG_CONT \<noteq> FLAG_LAST" "FLAG_SINGLE \<noteq> FLAG_FIRST"
  "FLAG_LAST \<noteq> FLAG_CONT"
  by (simp_all add: FLAG_FIRST_def FLAG_CONT_def FLAG_LAST_def FLAG_SINGLE_def)

lemma field_be: "n < 65536 \<Longrightarrow> unat (u16_of_be (u16_hi (of_nat n)) (u16_lo (of_nat n))) = n"
  by simp

lemma sar_header_fragment:
  assumes "0 < tot" "tot < 65536" "sequence < 1024" "legal_flags flags"
    and "payload \<noteq> []" "length payload \<le> capacity"
  shows "sar_header (fragment tot sequence flags payload) capacity =
           Ok \<lparr>h_total = tot, h_sequence = sequence, h_flags = flags\<rparr>"
  using assms
  by (simp add: sar_header_def fragment_def u16_be_bytes_def field_def offset_consts sar_consts
      Let_def)

lemma drop_fragment [simp]:
  "drop BLE_SAR_HEADER_SIZE (fragment tot sequence flags payload) = payload"
  by (simp add: fragment_def u16_be_bytes_def BLE_SAR_HEADER_SIZE_def)

lemma sar_receive_fragment:
  assumes "0 < tot" "tot < 65536" "sequence < 1024" "legal_flags flags"
    and "payload \<noteq> []" "length payload \<le> capacity"
    and "\<forall>d. deadline r = Some d \<longrightarrow> now < d"
  shows "sar_receive (fragment tot sequence flags payload) capacity now r =
           (let h = \<lparr>h_total = tot, h_sequence = sequence, h_flags = flags\<rparr> in
            case (if is_idle r then sar_begin h payload now r else continue_frame h payload r) of
              (r', Err e) \<Rightarrow> (sar_new, Err e) | (r', Ok m) \<Rightarrow> (r', Ok m))"
proof -
  have "check_timer now r = (r, Ok ())"
    using assms(7) by (auto simp: check_timer_def not_le split: option.splits)
  then show ?thesis
    using assms
    by (simp add: sar_receive_def sar_accept_def sar_header_fragment split: prod.split result.split)
qed

section \<open>A whole message\<close>

text \<open>The fragments after the first: all but the last are CONT, the last is LAST.\<close>

fun seg_rest :: "nat \<Rightarrow> nat \<Rightarrow> bytes list \<Rightarrow> bytes list" where
  "seg_rest tot k [] = []"
| "seg_rest tot k [c] = [fragment tot k FLAG_LAST c]"
| "seg_rest tot k (c # cs) = fragment tot k FLAG_CONT c # seg_rest tot (k + 1) cs"

lemma seg_rest_enumerate:
  "0 < k \<Longrightarrow> final + 1 = k + length cs \<Longrightarrow> map (\<lambda>(i, c). fragment tot i
     (if i = 0 then FLAG_FIRST else if i = final then FLAG_LAST else FLAG_CONT) c)
     (enumerate k cs) = seg_rest tot k cs"
  by (induction tot k cs rule: seg_rest.induct) auto

lemma length_seg_rest [simp]: "length (seg_rest tot k cs) = length cs"
  by (induction tot k cs rule: seg_rest.induct) simp_all

lemma segment_long:
  assumes "64 \<le> capacity" "capacity \<le> 506" "capacity < length m" "length m \<le> 65535"
  shows "segment m capacity =
    Ok (fragment (length m) 0 FLAG_FIRST (take capacity m)
        # seg_rest (length m) 1 (chunks capacity (drop capacity m)))"
proof -
  have cs: "chunks capacity m = take capacity m # chunks capacity (drop capacity m)"
    using assms by (intro chunks_unfold) auto
  define final where "final = length (chunks capacity m) - 1"
  have "segment m capacity = Ok (map (\<lambda>(i, c). fragment (length m) i
      (if i = 0 then FLAG_FIRST else if i = final then FLAG_LAST else FLAG_CONT) c)
      (enumerate 0 (chunks capacity m)))"
    using assms by (auto simp: segment_def sar_consts Let_def final_def)
  moreover have "final + 1 = 1 + length (chunks capacity (drop capacity m))"
    by (simp add: final_def cs)
  ultimately show ?thesis
    using seg_rest_enumerate [of 1 final "chunks capacity (drop capacity m)" "length m"]
    by (simp add: cs)
qed

definition collecting :: "BleSarReassembler \<Rightarrow> nat \<Rightarrow> nat \<Rightarrow> bytes \<Rightarrow> u64 \<Rightarrow> bool" where
  "collecting r tot k b d \<longleftrightarrow>
     r = \<lparr>expected_sequence = k, expected_total = tot, buffer = b, deadline = Some d\<rparr> \<and> 0 < k"

lemma receive_last:
  assumes "collecting r (length b + length c) k b d" "c \<noteq> []" "length c \<le> capacity"
    and "length b + length c < 65536" "k < 1024" "now < d"
  shows "sar_receive (fragment (length b + length c) k FLAG_LAST c) capacity now r =
           (sar_new, Ok (Some (b @ c)))"
  using assms
  by (subst sar_receive_fragment)
    (auto simp: collecting_def is_idle_def continue_frame_def)

lemma receive_cont:
  assumes "collecting r tot k b d" "64 \<le> length c" "length c \<le> capacity"
    and "length b + length c \<le> tot" "tot < 65536" "k < 1024" "now < d"
  shows "\<exists>r'. sar_receive (fragment tot k FLAG_CONT c) capacity now r = (r', Ok None) \<and>
              collecting r' tot (k + 1) (b @ c) d"
  using assms
  by (subst sar_receive_fragment)
    (auto simp: collecting_def is_idle_def continue_frame_def sar_consts)

lemma receive_first:
  assumes "64 \<le> length c" "length c \<le> capacity" "length c < tot" "tot < 65536"
  shows "\<exists>r'. sar_receive (fragment tot 0 FLAG_FIRST c) capacity now sar_new = (r', Ok None) \<and>
              collecting r' tot 1 c (saturating_add now BLE_SAR_REASSEMBLY_TIMEOUT_MS)"
  using assms
  by (subst sar_receive_fragment)
    (auto simp: collecting_def is_idle_def sar_begin_def sar_consts sar_new_def)

lemma collect_rest:
  assumes "collecting r (length b + length xs) k b d" "xs \<noteq> []" "64 \<le> capacity"
    and "length b + length xs < 65536" "k + length (chunks capacity xs) \<le> 1024"
    and "length moments = length (chunks capacity xs)" "\<forall>t\<in>set moments. t < d"
  shows "sar_run capacity r (zip (seg_rest (length b + length xs) k (chunks capacity xs)) moments) =
           (sar_new, replicate (length (chunks capacity xs) - 1) (Ok None) @ [Ok (Some (b @ xs))])"
  using assms
proof (induction "length xs" arbitrary: r b xs k moments rule: less_induct)
  case less
  obtain t ts where moments: "moments = t # ts"
    using less.prems(2,3,6) by (cases moments) (auto simp: chunks_eq_Nil_iff)
  show ?case
  proof (cases "length xs \<le> capacity")
    case True
    then have "chunks capacity xs = [xs]"
      using less.prems by (intro chunks_short) auto
    then show ?thesis
      using receive_last [of r b xs k d capacity t] less.prems True moments by simp
  next
    case False
    let ?c = "take capacity xs" and ?ys = "drop capacity xs"
    have cs: "chunks capacity xs = ?c # chunks capacity ?ys"
      using less.prems by (intro chunks_unfold) auto
    have ys: "?ys \<noteq> []" "length ?ys < length xs" "length (b @ ?c) + length ?ys = length b + length xs"
      "length ?c = capacity"
      using False less.prems(3) by auto
    obtain e es where es: "chunks capacity ?ys = e # es"
      using ys(1) less.prems(3) by (cases "chunks capacity ?ys") (auto simp: chunks_eq_Nil_iff)
    obtain r' where r': "sar_receive (fragment (length b + length xs) k FLAG_CONT ?c) capacity t r =
        (r', Ok None)" "collecting r' (length b + length xs) (k + 1) (b @ ?c) d"
      using receive_cont [of r "length b + length xs" k b d ?c capacity t] less.prems ys False moments cs
      by auto
    have "sar_run capacity r' (zip (seg_rest (length (b @ ?c) + length ?ys) (k + 1)
            (chunks capacity ?ys)) ts) =
          (sar_new, replicate (length (chunks capacity ?ys) - 1) (Ok None)
             @ [Ok (Some ((b @ ?c) @ ?ys))])"
      using less.hyps [OF ys(2), of r' "b @ ?c" "k + 1" ts] r'(2) less.prems ys moments cs by simp
    then show ?thesis
      using r'(1) ys moments by (simp add: cs es)
  qed
qed

lemma payload_capacity_bounds:
  "payload_capacity mtu limit = Ok capacity \<Longrightarrow> 64 \<le> capacity \<and> capacity \<le> 506"
  by (auto simp: payload_capacity_def sar_consts Let_def split: if_splits option.splits)

lemma chunk_count_bound:
  assumes "64 \<le> capacity" "capacity < length m" "length m \<le> 65535"
  shows "1 + length (chunks capacity (drop capacity m)) \<le> 1024"
proof -
  have "length (chunks capacity (drop capacity m)) = (length m - 1) div capacity"
    using assms by (simp add: length_chunks)
  also have "\<dots> \<le> (length m - 1) div 64"
    using assms(1) by (intro div_le_mono2) simp_all
  also have "\<dots> \<le> 65534 div 64"
    using assms(3) by (intro div_le_mono) linarith
  finally show ?thesis by simp
qed

lemma single_roundtrip:
  assumes "64 \<le> capacity" "capacity \<le> 506" "m \<noteq> []" "length m \<le> capacity"
  shows "segment m capacity = Ok [fragment (length m) 0 FLAG_SINGLE m] \<and>
    sar_receive (fragment (length m) 0 FLAG_SINGLE m) capacity now sar_new = (sar_new, Ok (Some m))"
  using assms
  by (subst sar_receive_fragment)
    (auto simp: segment_def sar_begin_def is_idle_def sar_new_def sar_consts)

lemma long_roundtrip:
  assumes "64 \<le> capacity" "capacity < length m" "length m \<le> 65535"
    and "length moments = 1 + length (chunks capacity (drop capacity m))"
    and "\<forall>t\<in>set moments. t < saturating_add (hd moments) BLE_SAR_REASSEMBLY_TIMEOUT_MS"
  shows "sar_run capacity sar_new (zip (fragment (length m) 0 FLAG_FIRST (take capacity m)
           # seg_rest (length m) 1 (chunks capacity (drop capacity m))) moments) =
         (sar_new, Ok None # replicate (length (chunks capacity (drop capacity m)) - 1) (Ok None)
           @ [Ok (Some m)])"
proof -
  let ?c = "take capacity m" and ?xs = "drop capacity m"
  let ?d = "saturating_add (hd moments) BLE_SAR_REASSEMBLY_TIMEOUT_MS"
  obtain t ts where moments: "moments = t # ts"
    using assms(4) by (cases moments) auto
  obtain r where r: "sar_receive (fragment (length m) 0 FLAG_FIRST ?c) capacity t sar_new = (r, Ok None)"
    "collecting r (length m) 1 ?c ?d"
    using receive_first [of ?c capacity "length m" t] assms(1-3) moments by auto
  have len: "length ?c + length ?xs = length m"
    using assms(2) by simp
  have "sar_run capacity r (zip (seg_rest (length ?c + length ?xs) 1 (chunks capacity ?xs)) ts) =
      (sar_new, replicate (length (chunks capacity ?xs) - 1) (Ok None) @ [Ok (Some (?c @ ?xs))])"
    using r(2) assms chunk_count_bound [OF assms(1-3)] moments len
    by (intro collect_rest [where d = ?d]) auto
  then show ?thesis
    using r(1) moments unfolding len by simp
qed

section \<open>Properties\<close>

text \<open>
  Property C33. What the sender segments the receiver reassembles. For every payload capacity a
  connection can negotiate and every message of one to 65535 bytes, segmentation succeeds, and an
  idle receiver that is handed the fragments in order, each before the five-second timer runs out,
  answers \<open>None\<close> to all but the last, the message itself to the last, and is then idle and empty.
\<close>
theorem sar_roundtrip:
  assumes "payload_capacity mtu limit = Ok capacity" "m \<noteq> []" "length m \<le> BLE_SAR_MAXIMUM_MESSAGE"
  shows "\<exists>frags. segment m capacity = Ok frags \<and> frags \<noteq> [] \<and>
    (\<forall>moments. length moments = length frags \<and>
       (\<forall>t\<in>set moments. t < saturating_add (hd moments) BLE_SAR_REASSEMBLY_TIMEOUT_MS) \<longrightarrow>
       sar_run capacity sar_new (zip frags moments) =
         (sar_new, replicate (length frags - 1) (Ok None) @ [Ok (Some m)]))"
proof -
  have cap: "64 \<le> capacity" "capacity \<le> 506" and len: "length m \<le> 65535"
    using payload_capacity_bounds [OF assms(1)] assms(3) by (auto simp: BLE_SAR_MAXIMUM_MESSAGE_def)
  show ?thesis
  proof (cases "length m \<le> capacity")
    case True
    then show ?thesis
      using single_roundtrip [OF cap assms(2) True] by (auto simp: length_Suc_conv)
  next
    case False
    let ?cs = "chunks capacity (drop capacity m)"
    let ?frags = "fragment (length m) 0 FLAG_FIRST (take capacity m) # seg_rest (length m) 1 ?cs"
    have "?cs \<noteq> []" using False cap by (simp add: chunks_eq_Nil_iff)
    then show ?thesis
      using segment_long [OF cap _ len] long_roundtrip [OF cap(1) _ len] False
      by (intro exI [of _ ?frags]) (auto simp: replicate_Suc [symmetric] simp del: replicate_Suc)
  qed
qed

theorem sar_roundtrip_witness:
  "\<exists>frags. segment (replicate 600 7) 503 = Ok frags \<and> length frags = 2 \<and>
     sar_run 503 sar_new (zip frags [100, 200]) = (sar_new, [Ok None, Ok (Some (replicate 600 7))])"
proof -
  have "payload_capacity 512 None = Ok 503"
    by (simp add: payload_capacity_def sar_consts)
  from sar_roundtrip [OF this, of "replicate 600 7"]
  obtain frags where frags: "segment (replicate 600 7) 503 = Ok frags"
    "\<forall>moments. length moments = length frags \<and>
       (\<forall>t\<in>set moments. t < saturating_add (hd moments) BLE_SAR_REASSEMBLY_TIMEOUT_MS) \<longrightarrow>
       sar_run 503 sar_new (zip frags moments) =
         (sar_new, replicate (length frags - 1) (Ok None) @ [Ok (Some (replicate 600 7))])"
    by (auto simp: BLE_SAR_MAXIMUM_MESSAGE_def)
  have "length frags = 2"
    using frags(1) segment_long [of 503 "replicate 600 7"] by (auto simp: length_chunks)
  then show ?thesis
    using frags spec [OF frags(2), of "[100, 200]"]
    by (simp add: BLE_SAR_REASSEMBLY_TIMEOUT_MS_def saturating_add_def)
qed

definition sar_inv :: "BleSarReassembler \<Rightarrow> bool" where
  "sar_inv r \<longleftrightarrow> r = sar_new \<or>
     (64 \<le> length (buffer r) \<and> length (buffer r) \<le> expected_total r \<and> expected_total r < 65536 \<and>
      0 < expected_sequence r \<and> expected_sequence r \<le> 1024 \<and> deadline r \<noteq> None)"

lemma field_less: "field frag i < 65536"
  by (simp add: field_def)

lemma sar_header_bounds:
  "sar_header frag capacity = Ok h \<Longrightarrow> h_total h < 65536 \<and> h_sequence h < 1024 \<and> 0 < h_total h"
  by (auto simp: sar_header_def Let_def field_less sar_consts split: if_splits)

lemma sar_begin_inv:
  "sar_begin h payload now sar_new = (r', Ok m) \<Longrightarrow> h_total h < 65536 \<Longrightarrow>
   sar_inv r' \<and> (\<forall>x. m = Some x \<longrightarrow> r' = sar_new \<and> x = payload \<and> length x = h_total h)"
  by (auto simp: sar_begin_def sar_inv_def sar_consts sar_new_def split: if_splits)

lemma continue_frame_inv:
  "continue_frame h payload r = (r', Ok m) \<Longrightarrow> sar_inv r \<Longrightarrow> r \<noteq> sar_new \<Longrightarrow> h_sequence h < 1024 \<Longrightarrow>
   sar_inv r' \<and>
   (\<forall>x. m = Some x \<longrightarrow> r' = sar_new \<and> x = buffer r @ payload \<and> length x = h_total h)"
  by (auto simp: continue_frame_def sar_inv_def sar_consts Let_def split: if_splits)

lemma idle_iff: "sar_inv r \<Longrightarrow> is_idle r \<longleftrightarrow> r = sar_new"
  by (auto simp: sar_inv_def is_idle_def sar_new_def)

lemma sar_accept_inv:
  assumes "sar_accept frag capacity now r = (r', Ok m)" "sar_inv r"
  shows "sar_inv r' \<and> (\<forall>x. m = Some x \<longrightarrow>
           r' = sar_new \<and> x = buffer r @ drop 6 frag \<and> length x = field frag OFFSET_TOTAL)"
proof -
  have timer: "check_timer now r = (r, Ok ())"
    using assms(1) by (auto simp: sar_accept_def check_timer_def split: option.splits if_splits)
  obtain h where h: "sar_header frag capacity = Ok h" "h_total h = field frag OFFSET_TOTAL"
    using assms(1) timer
    by (auto simp: sar_accept_def sar_header_def Let_def split: result.splits if_splits)
  note b = sar_header_bounds [OF h(1)]
  show ?thesis
  proof (cases "r = sar_new")
    case True
    then have "sar_begin h (drop 6 frag) now sar_new = (r', Ok m)"
      using assms(1) timer h(1) by (simp add: sar_accept_def sar_consts is_idle_def sar_new_def)
    then show ?thesis
      using sar_begin_inv [of h "drop 6 frag" now r' m] b h(2) True by (simp add: sar_new_def)
  next
    case False
    then have "continue_frame h (drop 6 frag) r = (r', Ok m)"
      using assms timer h(1) by (simp add: sar_accept_def sar_consts idle_iff)
    then show ?thesis
      using continue_frame_inv [OF _ assms(2) False, of h "drop 6 frag" r' m] b h(2) by simp
  qed
qed

lemma sar_receive_inv:
  assumes "sar_inv r"
  shows "sar_inv (fst (sar_receive frag capacity now r))"
proof (cases "sar_accept frag capacity now r")
  case (Pair r' out)
  show ?thesis
  proof (cases out)
    case (Ok m)
    then show ?thesis
      using sar_accept_inv [of frag capacity now r r' m] assms Pair by (simp add: sar_receive_def)
  next
    case (Err e)
    then show ?thesis
      using Pair by (simp add: sar_receive_def sar_inv_def)
  qed
qed

lemma sar_run_inv: "sar_inv r \<Longrightarrow> sar_inv (fst (sar_run capacity r inputs))"
proof (induction inputs arbitrary: r)
  case (Cons i inputs)
  then show ?case
    using sar_receive_inv [OF Cons.prems, of "fst i" capacity "snd i"]
    by (cases i) (auto split: prod.splits)
qed simp

text \<open>
  No peer makes the receiver hold more than it declared: after any sequence of
  fragments at any times, the receiver is empty or holds at most the declared total, itself at most
  65535, under a running timer. A refused fragment leaves it empty; and a message it delivers is
  exactly the bytes held so far followed by the payload of the fragment, of the length the fragment
  declares.
\<close>
theorem sar_bounded:
  assumes "r = fst (sar_run capacity sar_new inputs)"
  shows "(r = sar_new \<or> length (buffer r) \<le> expected_total r \<and> expected_total r < 65536 \<and>
            deadline r \<noteq> None) \<and>
         (case sar_receive frag capacity now r of
            (r', Err _) \<Rightarrow> r' = sar_new
          | (r', Ok None) \<Rightarrow> sar_inv r'
          | (r', Ok (Some m)) \<Rightarrow> r' = sar_new \<and> m = buffer r @ drop 6 frag \<and>
              length m = field frag OFFSET_TOTAL)"
proof -
  have inv: "sar_inv r"
    using sar_run_inv [of sar_new capacity inputs] assms by (simp add: sar_inv_def)
  obtain r' out where accept: "sar_accept frag capacity now r = (r', out)" by force
  have "case out of Err _ \<Rightarrow> True | Ok m \<Rightarrow> sar_inv r' \<and> (\<forall>x. m = Some x \<longrightarrow>
      r' = sar_new \<and> x = buffer r @ drop 6 frag \<and> length x = field frag OFFSET_TOTAL)"
    using sar_accept_inv [OF _ inv, of frag capacity now r'] accept by (simp split: result.split)
  then have "case sar_receive frag capacity now r of
      (r', Err _) \<Rightarrow> r' = sar_new
    | (r', Ok None) \<Rightarrow> sar_inv r'
    | (r', Ok (Some m)) \<Rightarrow> r' = sar_new \<and> m = buffer r @ drop 6 frag \<and>
        length m = field frag OFFSET_TOTAL"
    by (cases out) (auto simp: sar_receive_def accept split: option.split)
  with inv show ?thesis
    unfolding sar_inv_def by blast
qed

theorem sar_bounded_witness:
  "fst (sar_receive [0, 200, 0, 9, 2, 0, 1] 503 5 (fst (sar_run 503 sar_new
     [(fragment 200 0 FLAG_FIRST (replicate 64 7), 0)]))) = sar_new"
proof -
  let ?r = "fst (sar_run 503 sar_new [(fragment 200 0 FLAG_FIRST (replicate 64 7), 0)])"
  let ?f = "[0, 200, 0, 9, 2, 0, 1] :: bytes"
  have r: "?r = \<lparr>expected_sequence = 1, expected_total = 200, buffer = replicate 64 7,
      deadline = Some 5000\<rparr>"
    by (simp add: sar_receive_fragment is_idle_def sar_new_def sar_begin_def sar_consts
        saturating_add_def BLE_SAR_REASSEMBLY_TIMEOUT_MS_def)
  have "snd (sar_receive ?f 503 5 ?r) = Err SequenceMismatch"
    unfolding r
    by (simp add: sar_receive_def sar_accept_def check_timer_def sar_header_def sar_consts
        offset_consts legal_flags_def FLAG_CONT_def FLAG_LAST_def is_idle_def continue_frame_def
        field_def u16_of_be_def)
  then show ?thesis
    using sar_bounded [of ?r 503 "[(fragment 200 0 FLAG_FIRST (replicate 64 7), 0)]" ?f 5]
    by (cases "sar_receive ?f 503 5 ?r") auto
qed

end
