(* ===== verification/Rust_Strings.thy ===== *)
theory Rust_Strings
  imports Prelude
begin

text \<open>
  What the source uses of Rust's strings. A \<open>String\<close> is its UTF-8 octets, so a string literal is
  \<open>str\<close> of its characters. \<open>utf8_ok\<close> is what \<open>core::str::from_utf8\<close> accepts, and
  \<open>from_utf8_lossy\<close> replaces every maximal ill-formed piece by the replacement character.
\<close>

definition str :: "string \<Rightarrow> bytes" where
  "str s = map of_char s"

definition in_range :: "u8 \<Rightarrow> u8 \<Rightarrow> u8 \<Rightarrow> bool" where
  "in_range lo hi b \<longleftrightarrow> lo \<le> b \<and> b \<le> hi"

fun utf8_ok :: "bytes \<Rightarrow> bool" where
  "utf8_ok [] = True"
| "utf8_ok (a # bs) =
     (if a < 0x80 then utf8_ok bs
      else if in_range 0xC2 0xDF a then
        (case bs of b # bs' \<Rightarrow> in_range 0x80 0xBF b \<and> utf8_ok bs' | _ \<Rightarrow> False)
      else if in_range 0xE0 0xEF a then
        (case bs of b # c # bs' \<Rightarrow>
           in_range (if a = 0xE0 then 0xA0 else 0x80) (if a = 0xED then 0x9F else 0xBF) b \<and>
           in_range 0x80 0xBF c \<and> utf8_ok bs'
         | _ \<Rightarrow> False)
      else if in_range 0xF0 0xF4 a then
        (case bs of b # c # d # bs' \<Rightarrow>
           in_range (if a = 0xF0 then 0x90 else 0x80) (if a = 0xF4 then 0x8F else 0xBF) b \<and>
           in_range 0x80 0xBF c \<and> in_range 0x80 0xBF d \<and> utf8_ok bs'
         | _ \<Rightarrow> False)
      else False)"

text \<open>
  The first character of a slice, or the octets of an ill-formed one up to where it breaks off: how
  many octets, and whether they are a character.
\<close>

fun utf8_first :: "bytes \<Rightarrow> nat \<times> bool" where
  "utf8_first [] = (0, True)"
| "utf8_first (a # bs) =
     (if a < 0x80 then (1, True)
      else if in_range 0xC2 0xDF a then
        (case bs of b # _ \<Rightarrow> if in_range 0x80 0xBF b then (2, True) else (1, False) | _ \<Rightarrow> (1, False))
      else if in_range 0xE0 0xEF a then
        (case bs of b # bs' \<Rightarrow>
           if in_range (if a = 0xE0 then 0xA0 else 0x80) (if a = 0xED then 0x9F else 0xBF) b
           then (case bs' of c # _ \<Rightarrow> if in_range 0x80 0xBF c then (3, True) else (2, False)
                 | _ \<Rightarrow> (2, False))
           else (1, False)
         | _ \<Rightarrow> (1, False))
      else if in_range 0xF0 0xF4 a then
        (case bs of b # bs' \<Rightarrow>
           if in_range (if a = 0xF0 then 0x90 else 0x80) (if a = 0xF4 then 0x8F else 0xBF) b
           then (case bs' of c # bs'' \<Rightarrow>
                   if in_range 0x80 0xBF c
                   then (case bs'' of d # _ \<Rightarrow> if in_range 0x80 0xBF d then (4, True) else (3, False)
                         | _ \<Rightarrow> (3, False))
                   else (2, False)
                 | _ \<Rightarrow> (2, False))
           else (1, False)
         | _ \<Rightarrow> (1, False))
      else (1, False))"

lemma utf8_first_pos: "bs \<noteq> [] \<Longrightarrow> 0 < fst (utf8_first bs)"
  by (cases bs) (auto split: list.splits)

function from_utf8_lossy :: "bytes \<Rightarrow> bytes" where
  "from_utf8_lossy bs =
     (if bs = [] then []
      else case utf8_first bs of
             (n, ok) \<Rightarrow> (if ok then take n bs else [0xEF, 0xBF, 0xBD]) @ from_utf8_lossy (drop n bs))"
  by auto
termination
proof (relation "measure length", simp)
  fix bs n ok
  assume "bs \<noteq> []" "(n, ok) = utf8_first bs"
  then show "(drop n bs, bs) \<in> measure length"
    using utf8_first_pos [of bs] by (cases "utf8_first bs") (auto simp: diff_less)
qed

declare from_utf8_lossy.simps [simp del]

text \<open>A character is one of four shapes; the ranges are left folded.\<close>

lemma utf8_first_shapes:
  assumes "snd (utf8_first (a # r))"
  obtains (one) "a < 0x80"
  | (two) b r' where "\<not> a < 0x80" "in_range 0xC2 0xDF a" "r = b # r'" "in_range 0x80 0xBF b"
  | (three) b c r' where "\<not> a < 0x80" "\<not> in_range 0xC2 0xDF a" "in_range 0xE0 0xEF a"
      "r = b # c # r'" "in_range 0x80 0xBF c"
      "in_range (if a = 0xE0 then 0xA0 else 0x80) (if a = 0xED then 0x9F else 0xBF) b"
  | (four) b c d r' where "\<not> a < 0x80" "\<not> in_range 0xC2 0xDF a" "\<not> in_range 0xE0 0xEF a"
      "in_range 0xF0 0xF4 a" "r = b # c # d # r'" "in_range 0x80 0xBF c" "in_range 0x80 0xBF d"
      "in_range (if a = 0xF0 then 0x90 else 0x80) (if a = 0xF4 then 0x8F else 0xBF) b"
proof -
  consider "a < 0x80" | "\<not> a < 0x80" "in_range 0xC2 0xDF a"
    | "\<not> a < 0x80" "\<not> in_range 0xC2 0xDF a" "in_range 0xE0 0xEF a"
    | "\<not> a < 0x80" "\<not> in_range 0xC2 0xDF a" "\<not> in_range 0xE0 0xEF a"
    by blast
  then show thesis
  proof cases
    case 1
    then show thesis by (rule one)
  next
    case 2
    then show thesis using assms two by (cases r) (simp_all split: if_split_asm)
  next
    case 3
    then show thesis using assms three by (cases r; cases "tl r") (simp_all split: if_split_asm)
  next
    case 4
    then show thesis
      using assms four by (cases r; cases "tl r"; cases "tl (tl r)") (simp_all split: if_split_asm)
  qed
qed

lemma utf8_first_char:
  assumes "snd (utf8_first bs)"
  shows "utf8_ok (take (fst (utf8_first bs)) bs @ cs) \<longleftrightarrow> utf8_ok cs"
proof (cases bs)
  case (Cons a r)
  with assms have "snd (utf8_first (a # r))" by simp
  then show ?thesis by (cases rule: utf8_first_shapes) (simp_all add: Cons)
qed simp

lemma utf8_ok_first:
  assumes "utf8_ok (a # r)"
  shows "snd (utf8_first (a # r))"
proof -
  consider "a < 0x80" | "\<not> a < 0x80" "in_range 0xC2 0xDF a"
    | "\<not> a < 0x80" "\<not> in_range 0xC2 0xDF a" "in_range 0xE0 0xEF a"
    | "\<not> a < 0x80" "\<not> in_range 0xC2 0xDF a" "\<not> in_range 0xE0 0xEF a"
    by blast
  then show ?thesis
  proof cases
    case 2
    with assms show ?thesis by (cases r) simp_all
  next
    case 3
    with assms show ?thesis by (cases r; cases "tl r") simp_all
  next
    case 4
    with assms show ?thesis by (cases r; cases "tl r"; cases "tl (tl r)") (simp_all split: if_split_asm)
  qed simp
qed

lemma utf8_ok_split:
  assumes "utf8_ok bs" "bs \<noteq> []"
  shows "snd (utf8_first bs)" "utf8_ok (drop (fst (utf8_first bs)) bs)"
proof -
  show first: "snd (utf8_first bs)"
    using assms utf8_ok_first by (cases bs) simp_all
  show "utf8_ok (drop (fst (utf8_first bs)) bs)"
    using utf8_first_char [OF first, of "drop (fst (utf8_first bs)) bs"] assms(1) by simp
qed

lemma from_utf8_lossy_id: "utf8_ok bs \<Longrightarrow> from_utf8_lossy bs = bs"
proof (induction bs rule: from_utf8_lossy.induct)
  case (1 bs)
  show ?case
  proof (cases "bs = []")
    case False
    then show ?thesis
      using 1 utf8_ok_split [OF 1(2) False]
      by (cases "utf8_first bs") (simp add: from_utf8_lossy.simps [of bs])
  qed (simp add: from_utf8_lossy.simps)
qed

lemma from_utf8_lossy_ok: "utf8_ok (from_utf8_lossy bs)"
proof (induction bs rule: from_utf8_lossy.induct)
  case (1 bs)
  show ?case
  proof (cases "bs = []")
    case False
    obtain n ok where f: "utf8_first bs = (n, ok)" by force
    then have "utf8_ok (from_utf8_lossy (drop n bs))" using 1 [OF False] by simp
    then show ?thesis
      using False f utf8_first_char [of bs]
      by (cases ok) (simp_all add: from_utf8_lossy.simps [of bs] in_range_def)
  qed (simp add: from_utf8_lossy.simps)
qed

end
