(* ===== verification/Rapp_Cbor.thy ===== *)
theory Rapp_Cbor
  imports Rust_Strings "HOL-Library.Multiset" "HOL-Library.Product_Lexorder" "HOL-Library.List_Lexorder"
begin

text \<open>
  The deterministic CBOR of \<open>crates/rapp/src/wire.rs\<close>: the restricted value type, the encoder with
  its key order, and the strict decoder. A Rust \<open>String\<close> is its UTF-8 octets, \<open>utf8_ok\<close> being what
  \<open>core::str::from_utf8\<close> accepts; a \<open>BTreeMap\<close> is an association list in increasing key order,
  which is the order it iterates in; \<open>usize\<close> has 64 bits. The decoder keeps the whole input and an
  offset as the code does. The encoder returns the bytes it appends.
\<close>

section \<open>Values\<close>

definition MAX_NESTING_DEPTH :: nat where "MAX_NESTING_DEPTH = 8"
definition MAX_TEXT_SIZE :: nat where "MAX_TEXT_SIZE = 4096"
definition MAX_FRAME_PLAINTEXT :: nat where "MAX_FRAME_PLAINTEXT = 65519"
definition ARGUMENT_IMMEDIATE_MAX :: u8 where "ARGUMENT_IMMEDIATE_MAX = 23"
definition ARGUMENT_ONE_BYTE :: u8 where "ARGUMENT_ONE_BYTE = 24"
definition ARGUMENT_TWO_BYTES :: u8 where "ARGUMENT_TWO_BYTES = 25"
definition ARGUMENT_FOUR_BYTES :: u8 where "ARGUMENT_FOUR_BYTES = 26"
definition ARGUMENT_EIGHT_BYTES :: u8 where "ARGUMENT_EIGHT_BYTES = 27"

datatype WireValue =
    Unsigned u64
  | Negative int
  | Bytes bytes
  | Text bytes
  | Array "WireValue list"
  | Map "(bytes \<times> WireValue) list"
  | Bool bool
  | Null

datatype WireError =
    Truncated | TrailingData | NonCanonical | ForbiddenCborType | NestingTooDeep
  | TextTooLong nat | CollectionTooLarge nat | InvalidUtf8 | DuplicateMapKey | NonTextMapKey
  | MissingField string | UnknownField | WrongType string | WrongLength string nat nat
  | InvalidValue string | UnsupportedVersion | UnknownMessageType | OversizedPlaintext nat
  | WrongSession | WrongSequence u64 u64 | SequenceWrapped | IntegerOverflow

text \<open>Insertion into a \<open>BTreeMap\<close> and lookup.\<close>

fun btree_insert :: "bytes \<Rightarrow> 'v \<Rightarrow> (bytes \<times> 'v) list \<Rightarrow> (bytes \<times> 'v) list" where
  "btree_insert k v [] = [(k, v)]"
| "btree_insert k v ((k', v') # m) =
     (if k < k' then (k, v) # (k', v') # m
      else if k = k' then (k, v) # m
      else (k', v') # btree_insert k v m)"

abbreviation btree_get :: "(bytes \<times> 'v) list \<Rightarrow> bytes \<Rightarrow> 'v option" where
  "btree_get \<equiv> map_of"

section \<open>The encoder\<close>

definition encode_argument :: "u8 \<Rightarrow> u64 \<Rightarrow> bytes" where
  "encode_argument major v =
     (let prefix = push_bit 5 major in
      if v \<le> 23 then [prefix OR ucast v]
      else if v \<le> 0xff then [prefix OR ARGUMENT_ONE_BYTE, ucast v]
      else if v \<le> 0xffff then (prefix OR ARGUMENT_TWO_BYTES) # be_bytes 2 (unat v)
      else if v \<le> 0xffffffff then (prefix OR ARGUMENT_FOUR_BYTES) # be_bytes 4 (unat v)
      else (prefix OR ARGUMENT_EIGHT_BYTES) # be_bytes 8 (unat v))"

definition encode_text :: "bytes \<Rightarrow> (bytes, WireError) result" where
  "encode_text t =
     (if length t > MAX_TEXT_SIZE then Err (TextTooLong (length t))
      else Ok (encode_argument 3 (of_nat (length t)) @ t))"

text \<open>
  The loop \<open>collect\<close> over the encoded keys stops at the first key that is too long, in map order;
  the entries are then written in the order of the encoded keys, shorter first.
\<close>

definition key_order :: "bytes \<times> 'a \<Rightarrow> nat \<times> bytes" where
  "key_order e = (length (fst e), fst e)"

definition write_entries ::
  "(bytes \<times> (bytes, WireError) result) list \<Rightarrow> (bytes, WireError) result" where
  "write_entries es =
     and_then (collect_results (map (\<lambda>(k, r). and_then (encode_text k) (\<lambda>k'. Ok (k', r))) es))
       (\<lambda>ordered.
          and_then (collect_results (map (\<lambda>(k, r). and_then r (\<lambda>v. Ok (k @ v)))
                      (sort_key key_order ordered)))
            (\<lambda>parts. Ok (concat parts)))"

fun encode_value :: "nat \<Rightarrow> WireValue \<Rightarrow> (bytes, WireError) result"
  and encode_values :: "nat \<Rightarrow> WireValue list \<Rightarrow> (bytes, WireError) result"
  and encode_entries :: "nat \<Rightarrow> (bytes \<times> WireValue) list \<Rightarrow> (bytes \<times> (bytes, WireError) result) list"
where
  "encode_value depth value =
     (if depth > MAX_NESTING_DEPTH then Err NestingTooDeep
      else case value of
        Unsigned v \<Rightarrow> Ok (encode_argument 0 v)
      | Negative v \<Rightarrow>
          if v < 0 then
            (if - 1 - v < 2 ^ 64 then Ok (encode_argument 1 (of_int (- 1 - v)))
             else Err IntegerOverflow)
          else Err (InvalidValue ''integer'')
      | Bytes bs \<Rightarrow> Ok (encode_argument 2 (of_nat (length bs)) @ bs)
      | Text t \<Rightarrow> encode_text t
      | Array vs \<Rightarrow>
          and_then (encode_values (depth + 1) vs)
            (\<lambda>out. Ok (encode_argument 4 (of_nat (length vs)) @ out))
      | Map m \<Rightarrow>
          and_then (write_entries (encode_entries (depth + 1) m))
            (\<lambda>out. Ok (encode_argument 5 (of_nat (length m)) @ out))
      | Bool False \<Rightarrow> Ok [0xf4]
      | Bool True \<Rightarrow> Ok [0xf5]
      | Null \<Rightarrow> Ok [0xf6])"
| "encode_values depth [] = Ok []"
| "encode_values depth (v # vs) =
     and_then (encode_value depth v) (\<lambda>out. and_then (encode_values depth vs) (\<lambda>outs. Ok (out @ outs)))"
| "encode_entries depth [] = []"
| "encode_entries depth (e # m) = (fst e, encode_value depth (snd e)) # encode_entries depth m"

definition encode_deterministic_cbor :: "WireValue \<Rightarrow> (bytes, WireError) result" where
  "encode_deterministic_cbor value = encode_value 0 value"

section \<open>The decoder\<close>

definition dec_byte :: "bytes \<Rightarrow> nat \<Rightarrow> (u8 \<times> nat, WireError) result" where
  "dec_byte bs off = (if off < length bs then Ok (bs ! off, off + 1) else Err Truncated)"

definition dec_take :: "bytes \<Rightarrow> nat \<Rightarrow> nat \<Rightarrow> (bytes \<times> nat, WireError) result" where
  "dec_take bs n off =
     (if off + n \<ge> 2 ^ 64 then Err IntegerOverflow
      else case slice_get bs off (off + n) of
             None \<Rightarrow> Err Truncated
           | Some xs \<Rightarrow> Ok (xs, off + n))"

definition non_minimal :: "u8 \<Rightarrow> u64 \<Rightarrow> bool" where
  "non_minimal additional v \<longleftrightarrow>
     additional = ARGUMENT_ONE_BYTE \<and> v \<le> ucast ARGUMENT_IMMEDIATE_MAX \<or>
     additional = ARGUMENT_TWO_BYTES \<and> v \<le> 0xff \<or>
     additional = ARGUMENT_FOUR_BYTES \<and> v \<le> 0xffff \<or>
     additional = ARGUMENT_EIGHT_BYTES \<and> v \<le> 0xffffffff"

definition dec_argument :: "bytes \<Rightarrow> u8 \<Rightarrow> nat \<Rightarrow> (u64 \<times> nat, WireError) result" where
  "dec_argument bs additional off =
     and_then
       (if additional \<le> ARGUMENT_IMMEDIATE_MAX then Ok (ucast additional, off)
        else if additional = ARGUMENT_ONE_BYTE then
          and_then (dec_byte bs off) (\<lambda>(b, off). Ok (ucast b, off))
        else if additional = ARGUMENT_TWO_BYTES then
          and_then (dec_take bs 2 off) (\<lambda>(xs, off). Ok (of_nat (be_value xs), off))
        else if additional = ARGUMENT_FOUR_BYTES then
          and_then (dec_take bs 4 off) (\<lambda>(xs, off). Ok (of_nat (be_value xs), off))
        else if additional = ARGUMENT_EIGHT_BYTES then
          and_then (dec_take bs 8 off) (\<lambda>(xs, off). Ok (of_nat (be_value xs), off))
        else Err ForbiddenCborType)
       (\<lambda>(v, off). if non_minimal additional v then Err NonCanonical else Ok (v, off))"

definition dec_length :: "bytes \<Rightarrow> u8 \<Rightarrow> nat \<Rightarrow> (nat \<times> nat, WireError) result" where
  "dec_length bs additional off =
     and_then (dec_argument bs additional off) (\<lambda>(v, off). Ok (unat v, off))"

definition bounded_collection_length ::
  "bytes \<Rightarrow> u8 \<Rightarrow> nat \<Rightarrow> nat \<Rightarrow> (nat \<times> nat, WireError) result" where
  "bounded_collection_length bs additional minimum_bytes_per_entry off =
     and_then (dec_length bs additional off) (\<lambda>(n, off).
       if n * minimum_bytes_per_entry \<ge> 2 ^ 64 then Err (CollectionTooLarge n)
       else if n * minimum_bytes_per_entry > length bs - off then Err (CollectionTooLarge n)
       else Ok (n, off))"

definition dec_text :: "bytes \<Rightarrow> u8 \<Rightarrow> nat \<Rightarrow> (WireValue \<times> nat, WireError) result" where
  "dec_text bs additional off =
     and_then (dec_length bs additional off) (\<lambda>(n, off).
       if n > MAX_TEXT_SIZE then Err (TextTooLong n)
       else and_then (dec_take bs n off) (\<lambda>(xs, off).
         if utf8_ok xs then Ok (Text xs, off) else Err InvalidUtf8))"

function dec_value :: "bytes \<Rightarrow> nat \<Rightarrow> nat \<Rightarrow> (WireValue \<times> nat, WireError) result"
  and fill_array :: "bytes \<Rightarrow> nat \<Rightarrow> nat \<Rightarrow> nat \<Rightarrow> (WireValue list \<times> nat, WireError) result"
  and fill_map :: "bytes \<Rightarrow> nat \<Rightarrow> nat \<Rightarrow> (bytes \<times> WireValue) list \<Rightarrow> nat \<Rightarrow>
     ((bytes \<times> WireValue) list \<times> nat, WireError) result"
where
  "dec_value bs depth off =
     (if depth > MAX_NESTING_DEPTH then Err NestingTooDeep
      else and_then (dec_byte bs off) (\<lambda>(initial, off).
        let major = drop_bit 5 initial;
            additional = initial AND 0x1f
        in if major = 0 then
             and_then (dec_argument bs additional off) (\<lambda>(v, off). Ok (Unsigned v, off))
           else if major = 1 then
             and_then (dec_argument bs additional off) (\<lambda>(v, off).
               if - 1 - int (unat v) < - (2 ^ 63) then Err IntegerOverflow
               else Ok (Negative (- 1 - int (unat v)), off))
           else if major = 2 then
             and_then (dec_length bs additional off) (\<lambda>(n, off).
               and_then (dec_take bs n off) (\<lambda>(xs, off). Ok (Bytes xs, off)))
           else if major = 3 then dec_text bs additional off
           else if major = 4 then
             and_then (bounded_collection_length bs additional 1 off) (\<lambda>(n, off).
               and_then (fill_array bs n depth off) (\<lambda>(vs, off). Ok (Array vs, off)))
           else if major = 5 then
             and_then (bounded_collection_length bs additional 2 off) (\<lambda>(n, off).
               and_then (fill_map bs n depth [] off) (\<lambda>(m, off). Ok (Map m, off)))
           else if major = 7 \<and> additional = 20 then Ok (Bool False, off)
           else if major = 7 \<and> additional = 21 then Ok (Bool True, off)
           else if major = 7 \<and> additional = 22 then Ok (Null, off)
           else Err ForbiddenCborType))"
| "fill_array bs 0 depth off = Ok ([], off)"
| "fill_array bs (Suc n) depth off =
     and_then (dec_value bs (depth + 1) off) (\<lambda>(v, off).
       and_then (fill_array bs n depth off) (\<lambda>(vs, off). Ok (v # vs, off)))"
| "fill_map bs 0 depth m off = Ok (m, off)"
| "fill_map bs (Suc n) depth m off =
     and_then (dec_value bs (depth + 1) off) (\<lambda>(k, off).
       case k of
         Text key \<Rightarrow>
           and_then (dec_value bs (depth + 1) off) (\<lambda>(v, off).
             case btree_get m key of
               Some _ \<Rightarrow> Err DuplicateMapKey
             | None \<Rightarrow> fill_map bs n depth (btree_insert key v m) off)
       | _ \<Rightarrow> Err NonTextMapKey)"
  by pat_completeness auto

termination
  by (relation "inv_image (less_than <*lex*> less_than) (case_sum
        (\<lambda>(bs, depth, off). (10 - depth, 0))
        (case_sum (\<lambda>(bs, n, depth, off). (9 - depth, n + 1))
                  (\<lambda>(bs, n, depth, m, off). (9 - depth, n + 1))))")
    (auto simp: MAX_NESTING_DEPTH_def)

definition decode_deterministic_cbor :: "bytes \<Rightarrow> (WireValue, WireError) result" where
  "decode_deterministic_cbor bs =
     (if length bs > MAX_FRAME_PLAINTEXT then Err (OversizedPlaintext (length bs))
      else and_then (dec_value bs 0 0) (\<lambda>(value, off).
        if off \<noteq> length bs then Err TrailingData
        else and_then (encode_deterministic_cbor value) (\<lambda>canonical.
          if canonical \<noteq> bs then Err NonCanonical else Ok value)))"

declare encode_value.simps [simp del] dec_value.simps [simp del]

section \<open>Reading at an offset\<close>

text \<open>\<open>holds_at bs off xs\<close>: the input continues with \<open>xs\<close> at the offset.\<close>

definition holds_at :: "bytes \<Rightarrow> nat \<Rightarrow> bytes \<Rightarrow> bool" where
  "holds_at bs off xs \<longleftrightarrow> (\<exists>rest. drop off bs = xs @ rest \<and> off \<le> length bs)"

lemma holds_at_Cons:
  "holds_at bs off (x # xs) \<longleftrightarrow> off < length bs \<and> bs ! off = x \<and> holds_at bs (off + 1) xs"
  unfolding holds_at_def
  by (cases "off < length bs") (auto simp: Cons_nth_drop_Suc [symmetric])

lemma holds_at_append:
  "holds_at bs off (xs @ ys) \<longleftrightarrow> holds_at bs off xs \<and> holds_at bs (off + length xs) ys"
proof (induction xs arbitrary: off)
  case Nil
  then show ?case by (auto simp: holds_at_def)
qed (simp add: holds_at_Cons)

lemma holds_at_length: "holds_at bs off xs \<Longrightarrow> off + length xs \<le> length bs"
  unfolding holds_at_def by (metis length_append length_drop le_add1 le_diff_conv2 add.commute)

lemma holds_at_take: "holds_at bs off xs \<Longrightarrow> take (length xs) (drop off bs) = xs"
  by (auto simp: holds_at_def)

lemma dec_byte_at: "holds_at bs off (b # xs) \<Longrightarrow> dec_byte bs off = Ok (b, off + 1)"
  by (simp add: dec_byte_def holds_at_Cons)

lemma dec_take_at:
  assumes "holds_at bs off xs" "length bs < 2 ^ 64"
  shows "dec_take bs (length xs) off = Ok (xs, off + length xs)"
  using holds_at_length [OF assms(1)] holds_at_take [OF assms(1)] assms(2)
  by (simp add: dec_take_def slice_get_def)

section \<open>Arguments\<close>

lemma bit_lt: "unat (w :: u8) < 2 ^ n \<Longrightarrow> n \<le> k \<Longrightarrow> \<not> bit w k"
  using take_bit_word_self [of w n] bit_take_bit_iff [of n w k] by auto

lemma initial_byte:
  fixes major s :: u8
  assumes "unat major < 8" "unat s < 32"
  shows "drop_bit 5 (push_bit 5 major OR s) = major" "(push_bit 5 major OR s) AND 0x1f = s"
proof -
  have m: "k < 3" if "bit major k" for k
    using bit_lt [of major 3 k] assms(1) that by fastforce
  have s: "k < 5" if "bit s k" for k
    using bit_lt [of s 5 k] assms(2) that by fastforce
  show "drop_bit 5 (push_bit 5 major OR s) = major"
    by (rule bit_word_eqI) (auto simp: bit_simps dest: m s)
  have "(push_bit 5 major OR s) AND mask 5 = s"
    by (rule bit_word_eqI) (auto simp: bit_simps dest: s)
  then show "(push_bit 5 major OR s) AND 0x1f = s"
    by (simp add: mask_numeral)
qed

lemmas argument_consts = ARGUMENT_IMMEDIATE_MAX_def ARGUMENT_ONE_BYTE_def ARGUMENT_TWO_BYTES_def
  ARGUMENT_FOUR_BYTES_def ARGUMENT_EIGHT_BYTES_def

lemma unat_ucast_small: "unat v < 256 \<Longrightarrow> unat (ucast (v :: u64) :: u8) = unat v"
  by (simp add: unsigned_ucast_eq take_bit_nat_eq_self)

lemma ucast_small: "unat v < 256 \<Longrightarrow> ucast (ucast (v :: u64) :: u8) = v"
  unfolding word_unat_eq_iff
  using take_bit_word_self [of v 8] by (simp add: unsigned_ucast_eq take_bit_nat_eq_self)

lemma dec_take_be:
  assumes "holds_at bs off (be_bytes n (unat v))" "length bs < 2 ^ 64" "unat v < 256 ^ n"
  shows "and_then (dec_take bs n off) (\<lambda>(xs, off). Ok (of_nat (be_value xs), off)) =
         Ok (v :: u64, off + n)"
proof -
  have "dec_take bs n off = Ok (be_bytes n (unat v), off + n)"
    using dec_take_at [OF assms(1,2)] by simp
  then show ?thesis
    using assms(3) by (simp add: be_value_be_bytes)
qed

lemma dec_argument_1:
  "unat v \<le> 23 \<Longrightarrow> dec_argument bs (ucast (v :: u64)) off = Ok (v, off)"
  by (simp add: dec_argument_def argument_consts word_le_nat_alt unat_ucast_small ucast_small
      non_minimal_def word_unat_eq_iff)

lemma dec_argument_2:
  assumes "23 < unat v" "unat v \<le> 255" "holds_at bs off [ucast (v :: u64)]"
  shows "dec_argument bs 24 off = Ok (v, off + 1)"
  using assms dec_byte_at [of bs off "ucast v" "[]"]
  by (simp add: dec_argument_def argument_consts word_le_nat_alt ucast_small non_minimal_def)

lemma dec_argument_3:
  assumes "255 < unat v" "unat v \<le> 65535" "holds_at bs off (be_bytes 2 (unat (v :: u64)))"
    and "length bs < 2 ^ 64"
  shows "dec_argument bs 25 off = Ok (v, off + 2)"
  using dec_take_be [OF assms(3,4)] assms(1,2)
  by (simp add: dec_argument_def argument_consts word_le_nat_alt non_minimal_def)

lemma dec_argument_4:
  assumes "65535 < unat v" "unat v \<le> 4294967295" "holds_at bs off (be_bytes 4 (unat (v :: u64)))"
    and "length bs < 2 ^ 64"
  shows "dec_argument bs 26 off = Ok (v, off + 4)"
  using dec_take_be [OF assms(3,4)] assms(1,2)
  by (simp add: dec_argument_def argument_consts word_le_nat_alt non_minimal_def)

lemma dec_argument_5:
  assumes "4294967295 < unat v" "holds_at bs off (be_bytes 8 (unat (v :: u64)))"
    and "length bs < 2 ^ 64"
  shows "dec_argument bs 27 off = Ok (v, off + 8)"
  using dec_take_be [OF assms(2,3)] assms(1)
  by (simp add: dec_argument_def argument_consts word_le_nat_alt non_minimal_def)

definition reads_as :: "u8 \<Rightarrow> u64 \<Rightarrow> u8 \<Rightarrow> bytes \<Rightarrow> bool" where
  "reads_as major v p arg \<longleftrightarrow> drop_bit 5 p = major \<and>
     (\<forall>bs off. holds_at bs off arg \<longrightarrow> length bs < 2 ^ 64 \<longrightarrow>
        dec_argument bs (p AND 0x1f) off = Ok (v, off + length arg))"

lemma reads_asI:
  assumes "unat major < 8" "unat s < 32"
    and "\<And>bs off. holds_at bs off arg \<Longrightarrow> length bs < 2 ^ 64 \<Longrightarrow>
           dec_argument bs s off = Ok (v, off + length arg)"
  shows "reads_as major v (push_bit 5 major OR s) arg"
  unfolding reads_as_def initial_byte [OF assms(1,2)] using assms(3) by blast

lemma encode_argument_reads:
  assumes "unat major < 8"
  shows "\<exists>p arg. encode_argument major v = p # arg \<and> reads_as major v p arg"
proof -
  consider (i) "unat v \<le> 23" | (ii) "23 < unat v" "unat v \<le> 255"
    | (iii) "255 < unat v" "unat v \<le> 65535" | (iv) "65535 < unat v" "unat v \<le> 4294967295"
    | (v) "4294967295 < unat v"
    by linarith
  then show ?thesis
  proof cases
    case i
    have "reads_as major v (push_bit 5 major OR ucast v) []"
      using i by (intro reads_asI [OF assms]) (simp_all add: unat_ucast_small dec_argument_1)
    then show ?thesis
      using i by (simp add: encode_argument_def word_le_nat_alt)
  next
    case ii
    have "reads_as major v (push_bit 5 major OR 24) [ucast v]"
      using ii dec_argument_2 by (intro reads_asI [OF assms]) simp_all
    then show ?thesis
      using ii by (simp add: encode_argument_def word_le_nat_alt argument_consts)
  next
    case iii
    have "reads_as major v (push_bit 5 major OR 25) (be_bytes 2 (unat v))"
      using iii dec_argument_3 by (intro reads_asI [OF assms]) simp_all
    then show ?thesis
      using iii by (simp add: encode_argument_def word_le_nat_alt argument_consts)
  next
    case iv
    have "reads_as major v (push_bit 5 major OR 26) (be_bytes 4 (unat v))"
      using iv dec_argument_4 by (intro reads_asI [OF assms]) simp_all
    then show ?thesis
      using iv by (simp add: encode_argument_def word_le_nat_alt argument_consts)
  next
    case v
    have "reads_as major v (push_bit 5 major OR 27) (be_bytes 8 (unat v))"
      using v dec_argument_5 by (intro reads_asI [OF assms]) simp_all
    then show ?thesis
      using v by (simp add: encode_argument_def word_le_nat_alt argument_consts)
  qed
qed

lemma header_at:
  assumes "holds_at bs off (encode_argument major v @ xs)" "unat major < 8" "length bs < 2 ^ 64"
  obtains p where "dec_byte bs off = Ok (p, off + 1)" "drop_bit 5 p = major"
    "dec_argument bs (p AND 0x1f) (off + 1) = Ok (v, off + length (encode_argument major v))"
    "holds_at bs (off + length (encode_argument major v)) xs"
proof -
  obtain p arg where enc: "encode_argument major v = p # arg" and reads: "reads_as major v p arg"
    using encode_argument_reads [OF assms(2)] by blast
  have at: "holds_at bs off (p # arg @ xs)" using assms(1) enc by simp
  then have "holds_at bs (off + 1) arg" "holds_at bs (off + 1 + length arg) xs"
    by (auto simp: holds_at_Cons holds_at_append)
  then show ?thesis
    using that dec_byte_at [OF at] reads assms(3) enc by (simp add: reads_as_def)
qed

section \<open>Sorted maps\<close>

definition btree_ok :: "(bytes \<times> 'v) list \<Rightarrow> bool" where
  "btree_ok m \<longleftrightarrow> sorted_wrt (<) (map fst m)"

lemma btree_insert_keys: "fst ` set (btree_insert k v m) = insert k (fst ` set m)"
  by (induction m) force+

lemma btree_insert_set:
  "k \<notin> fst ` set m \<Longrightarrow> set (btree_insert k v m) = insert (k, v) (set m)"
  by (induction m) (auto split: if_splits)

lemma btree_insert_ok: "btree_ok m \<Longrightarrow> btree_ok (btree_insert k v m)"
proof (induction m)
  case (Cons e m)
  obtain k' v' where e: "e = (k', v')" by force
  have "\<forall>x\<in>fst ` set m. k' < x" "btree_ok m"
    using Cons.prems e by (auto simp: btree_ok_def)
  then show ?case
    using Cons.IH btree_insert_keys [of k v m] e
    by (auto simp: btree_ok_def image_iff)
qed (simp add: btree_ok_def)

lemma btree_unique:
  assumes "btree_ok xs" "btree_ok ys" "set xs = set ys"
  shows "xs = ys"
proof -
  have d: "distinct (map fst xs)" "distinct (map fst ys)"
    using assms(1,2) strict_sorted_iff by (auto simp: btree_ok_def)
  have "set (map fst xs) = set (map fst ys)" using assms(3) by simp
  then have keys: "map fst xs = map fst ys"
    using assms(1,2) strict_sorted_equal by (fastforce simp: btree_ok_def)
  have "map_of xs = map_of ys"
    using map_of_inject_set [OF d] assms(3) by simp
  moreover have rebuild: "map (\<lambda>k. (k, the (map_of zs k))) (map fst zs) = zs"
    if "distinct (map fst zs)" for zs :: "(bytes \<times> 'a) list"
  proof -
    have "map (\<lambda>e. (fst e, the (map_of zs (fst e)))) zs = zs"
      using that by (intro map_idI) auto
    then show ?thesis by (simp add: o_def)
  qed
  ultimately show ?thesis
    using rebuild [OF d(1)] rebuild [OF d(2)] unfolding keys by simp
qed

abbreviation insert_all :: "(bytes \<times> 'v) list \<Rightarrow> (bytes \<times> 'v) list \<Rightarrow> (bytes \<times> 'v) list" where
  "insert_all ms acc \<equiv> fold (\<lambda>(k, v). btree_insert k v) ms acc"

lemma insert_all_set:
  "distinct (map fst ms) \<Longrightarrow> fst ` set ms \<inter> fst ` set acc = {} \<Longrightarrow> btree_ok acc \<Longrightarrow>
   set (insert_all ms acc) = set ms \<union> set acc \<and> btree_ok (insert_all ms acc)"
proof (induction ms arbitrary: acc)
  case (Cons e ms)
  obtain k v where e: "e = (k, v)" by force
  have "set (btree_insert k v acc) = insert (k, v) (set acc)"
    using Cons.prems(2) e by (intro btree_insert_set) auto
  then show ?case
    using Cons.IH [of "btree_insert k v acc"] Cons.prems btree_insert_ok [of acc k v] e
    by (auto simp: image_iff)
qed simp

lemma insert_all_perm:
  assumes "btree_ok m" "mset ms = mset m"
  shows "insert_all ms [] = m"
proof -
  have "distinct (map fst m)"
    using assms(1) strict_sorted_iff by (auto simp: btree_ok_def)
  then have "distinct (map fst ms)"
    by (metis assms(2) mset_map mset_eq_imp_distinct_iff)
  then have "set (insert_all ms []) = set m" "btree_ok (insert_all ms [])"
    using insert_all_set [of ms "[]"] assms(2) mset_eq_setD [OF assms(2)]
    by (auto simp: btree_ok_def)
  then show ?thesis
    using btree_unique assms(1) by blast
qed

section \<open>What the encoder writes the decoder reads\<close>

text \<open>What the Rust types guarantee of a value: an \<open>i64\<close>, valid UTF-8, maps in key order.\<close>

fun wire_ok :: "WireValue \<Rightarrow> bool" where
  "wire_ok (Negative v) \<longleftrightarrow> - (2 ^ 63) \<le> v \<and> v < 2 ^ 63"
| "wire_ok (Text t) \<longleftrightarrow> utf8_ok t"
| "wire_ok (Array vs) \<longleftrightarrow> (\<forall>v\<in>set vs. wire_ok v)"
| "wire_ok (Map m) \<longleftrightarrow> btree_ok m \<and> (\<forall>e\<in>set m. utf8_ok (fst e) \<and> wire_ok (snd e))"
| "wire_ok _ \<longleftrightarrow> True"

lemma collect_results_map:
  "collect_results (map f xs) = Ok ys \<longleftrightarrow> list_all2 (\<lambda>x y. f x = Ok y) xs ys"
  by (induction xs arbitrary: ys) (auto simp: result_simps list_all2_Cons1)

lemma sort_key_map: "sort_key f (map g xs) = map g (sort_key (\<lambda>x. f (g x)) xs)"
proof -
  have "insort_key f (g x) (map g ys) = map g (insort_key (\<lambda>x. f (g x)) x ys)" for x ys
    by (induction ys) simp_all
  then show ?thesis by (induction xs) simp_all
qed

lemma encode_entries_eq: "encode_entries d m = map (\<lambda>e. (fst e, encode_value d (snd e))) m"
  by (induction m) simp_all

definition entry_enc :: "nat \<Rightarrow> bytes \<times> WireValue \<Rightarrow> bytes \<Rightarrow> bool" where
  "entry_enc d e out \<longleftrightarrow>
     (\<exists>k v. encode_text (fst e) = Ok k \<and> encode_value d (snd e) = Ok v \<and> out = k @ v)"

lemma write_entries_Ok:
  assumes "write_entries (encode_entries d m) = Ok out"
  obtains ms outs where "mset ms = mset m" "list_all2 (entry_enc d) ms outs" "out = concat outs"
proof -
  define ek where "ek k = (case encode_text k of Ok e \<Rightarrow> e | Err _ \<Rightarrow> [])" for k
  define g where "g e = (ek (fst e), encode_value d (snd e))" for e
  let ?f = "\<lambda>(k, r :: (bytes, WireError) result). and_then (encode_text k) (\<lambda>k'. Ok (k', r))"
  let ?h = "\<lambda>(k, r :: (bytes, WireError) result). and_then r (\<lambda>v. Ok (k @ v))"
  obtain ordered parts where o: "collect_results (map ?f (encode_entries d m)) = Ok ordered"
    and p: "collect_results (map ?h (sort_key key_order ordered)) = Ok parts"
    and out: "out = concat parts"
    using assms unfolding write_entries_def and_then_Ok_iff by blast
  have "list_all2 (\<lambda>e y. encode_text (fst e) = Ok (ek (fst e)) \<and> y = g e) m ordered"
    using o unfolding collect_results_map encode_entries_eq list_all2_map1
    by (rule list_all2_mono) (auto simp: result_simps ek_def g_def)
  then have keys: "\<forall>e\<in>set m. encode_text (fst e) = Ok (ek (fst e))"
    and ord: "ordered = map g m"
    by (force simp: list_all2_conv_all_nth in_set_conv_nth,
        auto simp: list_all2_conv_all_nth intro: nth_equalityI)
  define ms where "ms = sort_key (\<lambda>e. key_order (g e)) m"
  have ms: "mset ms = mset m" "set ms = set m" by (simp_all add: ms_def)
  have "list_all2 (\<lambda>e y. ?h (g e) = Ok y) ms parts"
    using p unfolding ord sort_key_map ms_def [symmetric] collect_results_map list_all2_map1 .
  then have "list_all2 (\<lambda>e y. e \<in> set m \<and> ?h (g e) = Ok y) ms parts"
    using ms(2) by (auto simp: list_all2_conv_all_nth)
  then have "list_all2 (entry_enc d) ms parts"
    by (rule list_all2_mono) (use keys in \<open>auto simp: entry_enc_def g_def result_simps\<close>)
  then show ?thesis using that ms(1) out by blast
qed

lemma encode_value_depth: "encode_value d v = Ok out \<Longrightarrow> d \<le> 8"
  by (subst (asm) encode_value.simps) (auto simp: MAX_NESTING_DEPTH_def split: if_splits)

lemma encode_argument_nonempty: "encode_argument major v \<noteq> []"
  by (simp add: encode_argument_def Let_def)

lemma encode_text_nonempty: "encode_text t = Ok out \<Longrightarrow> out \<noteq> []"
  by (auto simp: encode_text_def encode_argument_nonempty split: if_splits)

lemma encode_value_nonempty: "encode_value d v = Ok out \<Longrightarrow> out \<noteq> []"
  by (subst (asm) encode_value.simps)
    (auto simp: encode_argument_nonempty result_simps split: if_splits WireValue.splits bool.splits
      dest: encode_text_nonempty)

definition reads_value :: "nat \<Rightarrow> WireValue \<Rightarrow> bool" where
  "reads_value d v \<longleftrightarrow> (\<forall>bs off out. encode_value d v = Ok out \<longrightarrow> holds_at bs off out \<longrightarrow>
     length bs < 2 ^ 64 \<longrightarrow> dec_value bs d off = Ok (v, off + length out))"

lemma dec_text_at:
  assumes "encode_text t = Ok out" "utf8_ok t" "holds_at bs off out" "length bs < 2 ^ 64" "d \<le> 8"
  shows "dec_value bs d off = Ok (Text t, off + length out)"
proof -
  have t: "length t \<le> 4096" and out: "out = encode_argument 3 (of_nat (length t)) @ t"
    using assms(1) by (auto simp: encode_text_def MAX_TEXT_SIZE_def split: if_splits)
  obtain p where p: "dec_byte bs off = Ok (p, off + 1)" "drop_bit 5 p = 3"
    "dec_argument bs (p AND 0x1f) (off + 1) =
       Ok (of_nat (length t), off + length (encode_argument 3 (of_nat (length t))))"
    "holds_at bs (off + length (encode_argument 3 (of_nat (length t)))) t"
    using header_at [OF assms(3) [unfolded out] _ assms(4)] by auto
  have "unat (of_nat (length t) :: u64) = length t"
    using t by simp
  then show ?thesis
    using p dec_take_at [OF p(4) assms(4)] assms(2,5) t
    by (simp add: dec_value.simps MAX_NESTING_DEPTH_def dec_text_def dec_length_def MAX_TEXT_SIZE_def
        out add.assoc)
qed

lemma fill_map_at:
  assumes "list_all2 (entry_enc (depth + 1)) ms outs"
    and "\<forall>e\<in>set ms. utf8_ok (fst e) \<and> reads_value (depth + 1) (snd e)"
    and "distinct (map fst ms)" "fst ` set ms \<inter> fst ` set acc = {}"
    and "holds_at bs off (concat outs)" "length bs < 2 ^ 64"
  shows "fill_map bs (length ms) depth acc off =
           Ok (insert_all ms acc, off + length (concat outs))"
  using assms
proof (induction ms outs arbitrary: acc off rule: list_all2_induct)
  case (Cons e ms out outs)
  obtain k v where e: "e = (k, v)" by force
  obtain ko vo where enc: "encode_text k = Ok ko" "encode_value (depth + 1) v = Ok vo" "out = ko @ vo"
    using Cons.hyps(1) e by (auto simp: entry_enc_def)
  have d: "depth + 1 \<le> 8" using encode_value_depth [OF enc(2)] .
  have at: "holds_at bs off ko" "holds_at bs (off + length ko) vo"
    "holds_at bs (off + length out) (concat outs)"
    using Cons.prems(4) enc(3) by (auto simp: holds_at_append add.assoc)
  have key: "dec_value bs (depth + 1) off = Ok (Text k, off + length ko)"
    using dec_text_at [OF enc(1) _ at(1) Cons.prems(5) d] Cons.prems(1) e by simp
  have val: "dec_value bs (depth + 1) (off + length ko) = Ok (v, off + length out)"
    using Cons.prems(1,5) e at(2) enc by (simp add: reads_value_def)
  have "map_of acc k = None"
    using Cons.prems(3) e by (auto simp: map_of_eq_None_iff)
  moreover have "fill_map bs (length ms) depth (btree_insert k v acc) (off + length out) =
      Ok (insert_all ms (btree_insert k v acc), off + length out + length (concat outs))"
    using Cons.prems e at(3) btree_insert_keys [of k v acc] by (intro Cons.IH) auto
  ultimately show ?case
    using key val e by (simp add: add.assoc)
qed simp

lemma fill_array_at:
  assumes "\<forall>v\<in>set vs. reads_value (depth + 1) v" "encode_values (depth + 1) vs = Ok out"
    and "holds_at bs off out" "length bs < 2 ^ 64"
  shows "fill_array bs (length vs) depth off = Ok (vs, off + length out)"
  using assms
proof (induction vs arbitrary: off out)
  case (Cons v vs)
  obtain o1 o2 where enc: "encode_value (depth + 1) v = Ok o1" "encode_values (depth + 1) vs = Ok o2"
      "out = o1 @ o2"
    using Cons.prems(2) by (auto simp: result_simps)
  have at: "holds_at bs off o1" "holds_at bs (off + length o1) o2"
    using Cons.prems(3) enc(3) by (auto simp: holds_at_append)
  have "dec_value bs (depth + 1) off = Ok (v, off + length o1)"
    using Cons.prems(1,4) enc(1) at(1) by (simp add: reads_value_def)
  moreover have "fill_array bs (length vs) depth (off + length o1) = Ok (vs, off + length o1 + length o2)"
    using Cons.IH [OF _ enc(2) at(2) Cons.prems(4)] Cons.prems(1) by simp
  ultimately show ?case using enc(3) by simp
qed simp

lemma encode_values_length: "encode_values d vs = Ok out \<Longrightarrow> length vs \<le> length out"
proof (induction vs arbitrary: out)
  case (Cons v vs)
  then obtain o1 o2 where "encode_value d v = Ok o1" "encode_values d vs = Ok o2" "out = o1 @ o2"
    by (auto simp: result_simps)
  then show ?case
    using Cons.IH [of o2] encode_value_nonempty [of d v o1] by (cases o1) auto
qed simp

lemma entries_length: "list_all2 (entry_enc d) ms outs \<Longrightarrow> 2 * length ms \<le> length (concat outs)"
proof (induction ms outs rule: list_all2_induct)
  case (Cons e ms out outs)
  then obtain k v where "encode_text (fst e) = Ok k" "encode_value d (snd e) = Ok v" "out = k @ v"
    by (auto simp: entry_enc_def)
  then have "2 \<le> length out"
    using encode_text_nonempty [of "fst e" k] encode_value_nonempty [of d "snd e" v]
    by (cases k; cases v) auto
  then show ?case using Cons.IH by simp
qed simp

lemma collection_at:
  assumes "dec_argument bs a off = Ok (of_nat n, off')" "n * k \<le> length body"
    and "holds_at bs off' body" "length bs < 2 ^ 64" "0 < k"
  shows "bounded_collection_length bs a k off = Ok (n, off')"
proof -
  have "off' + length body \<le> length bs" using holds_at_length [OF assms(3)] .
  moreover have "n \<le> n * k" using assms(5) by simp
  ultimately have n: "n < 2 ^ 64" "n * k < 2 ^ 64" "n * k \<le> length bs - off'"
    using assms(2,4) by linarith+
  then have "unat (of_nat n :: u64) = n"
    by (simp add: unat_of_nat_u64)
  with n show ?thesis
    using assms(1) by (simp add: bounded_collection_length_def dec_length_def)
qed

lemma reads_array:
  assumes "\<forall>v\<in>set vs. reads_value (d + 1) v"
  shows "reads_value d (Array vs)"
  unfolding reads_value_def
proof (intro allI impI)
  fix bs :: bytes and off out
  assume enc: "encode_value d (Array vs) = Ok out" and at: "holds_at bs off out"
    and len: "length bs < 2 ^ 64"
  let ?h = "encode_argument 4 (of_nat (length vs))"
  obtain body where body: "encode_values (d + 1) vs = Ok body" "out = ?h @ body"
    using enc by (auto simp: encode_value.simps result_simps split: if_splits)
  obtain p where p: "dec_byte bs off = Ok (p, off + 1)" "drop_bit 5 p = 4"
    "dec_argument bs (p AND 0x1f) (off + 1) = Ok (of_nat (length vs), off + length ?h)"
    "holds_at bs (off + length ?h) body"
    using header_at [OF at [unfolded body(2)] _ len] by auto
  have "bounded_collection_length bs (p AND 0x1f) 1 (off + 1) = Ok (length vs, off + length ?h)"
    using collection_at [OF p(3) _ p(4) len, of 1] encode_values_length [OF body(1)] by simp
  moreover have "fill_array bs (length vs) d (off + length ?h) = Ok (vs, off + length ?h + length body)"
    using fill_array_at [OF assms body(1) p(4) len] .
  ultimately show "dec_value bs d off = Ok (Array vs, off + length out)"
    using p encode_value_depth [OF enc] body(2)
    by (subst dec_value.simps) (simp add: MAX_NESTING_DEPTH_def)
qed

lemma reads_map:
  assumes "\<forall>e\<in>set m. utf8_ok (fst e) \<and> reads_value (d + 1) (snd e)" "btree_ok m"
  shows "reads_value d (Map m)"
  unfolding reads_value_def
proof (intro allI impI)
  fix bs :: bytes and off out
  assume enc: "encode_value d (Map m) = Ok out" and at: "holds_at bs off out"
    and len: "length bs < 2 ^ 64"
  let ?h = "encode_argument 5 (of_nat (length m))"
  obtain body where body: "write_entries (encode_entries (d + 1) m) = Ok body" "out = ?h @ body"
    using enc by (auto simp: encode_value.simps result_simps split: if_splits)
  obtain ms outs where ms: "mset ms = mset m" "list_all2 (entry_enc (d + 1)) ms outs"
    "body = concat outs"
    using write_entries_Ok [OF body(1)] .
  obtain p where p: "dec_byte bs off = Ok (p, off + 1)" "drop_bit 5 p = 5"
    "dec_argument bs (p AND 0x1f) (off + 1) = Ok (of_nat (length m), off + length ?h)"
    "holds_at bs (off + length ?h) body"
    using header_at [OF at [unfolded body(2)] _ len] by auto
  have sizes: "length ms = length m" "set ms = set m"
    using ms(1) mset_eq_length mset_eq_setD by blast+
  have "distinct (map fst m)"
    using assms(2) strict_sorted_iff by (auto simp: btree_ok_def)
  then have distinct: "distinct (map fst ms)"
    by (metis ms(1) mset_map mset_eq_imp_distinct_iff)
  have "bounded_collection_length bs (p AND 0x1f) 2 (off + 1) = Ok (length m, off + length ?h)"
    using collection_at [OF p(3) _ p(4) len, of 2] entries_length [OF ms(2)] ms(3) sizes(1) by simp
  moreover have "fill_map bs (length ms) d [] (off + length ?h) =
      Ok (insert_all ms [], off + length ?h + length (concat outs))"
    using fill_map_at [OF ms(2) _ distinct _ p(4) [unfolded ms(3)] len] assms(1) sizes(2) by simp
  ultimately show "dec_value bs d off = Ok (Map m, off + length out)"
    using p encode_value_depth [OF enc] body(2) ms(3) sizes(1) insert_all_perm [OF assms(2) ms(1)]
    by (subst dec_value.simps) (simp add: MAX_NESTING_DEPTH_def)
qed

lemma reads_scalar:
  assumes "wire_ok v" "\<nexists>vs. v = Array vs" "\<nexists>m. v = Map m"
  shows "reads_value d v"
  unfolding reads_value_def
proof (intro allI impI)
  fix bs :: bytes and off out
  assume enc: "encode_value d v = Ok out" and at: "holds_at bs off out" and len: "length bs < 2 ^ 64"
  have d: "d \<le> 8" using encode_value_depth [OF enc] .
  note unfolded = enc [unfolded encode_value.simps [of d v]]
  show "dec_value bs d off = Ok (v, off + length out)"
  proof (cases v)
    case (Unsigned n)
    then have out: "out = encode_argument 0 n @ []"
      using unfolded by (simp split: if_splits)
    show ?thesis
      using header_at [OF at [unfolded out] _ len] d Unsigned out
      by (subst dec_value.simps) (fastforce simp: MAX_NESTING_DEPTH_def)
  next
    case (Negative i)
    define j where "j = - 1 - i"
    have i: "0 \<le> j" "j < 2 ^ 63" and out: "out = encode_argument 1 (of_int j) @ []"
      using unfolded Negative assms(1) by (auto simp: j_def split: if_splits)
    have "uint (of_int j :: u64) = j"
      using i by (simp add: unsigned_of_int take_bit_int_eq_self)
    then have "int (unat (of_int j :: u64)) = j" by simp
    moreover have "i = - 1 - j" by (simp add: j_def)
    ultimately show ?thesis
      using header_at [OF at [unfolded out] _ len] d Negative out i
      by (subst dec_value.simps) (fastforce simp: MAX_NESTING_DEPTH_def)
  next
    case (Bytes xs)
    let ?h = "encode_argument 2 (of_nat (length xs))"
    have out: "out = ?h @ xs" using unfolded Bytes by (simp split: if_splits)
    obtain p where p: "dec_byte bs off = Ok (p, off + 1)" "drop_bit 5 p = 2"
      "dec_argument bs (p AND 0x1f) (off + 1) = Ok (of_nat (length xs), off + length ?h)"
      "holds_at bs (off + length ?h) xs"
      using header_at [OF at [unfolded out] _ len] by auto
    have "unat (of_nat (length xs) :: u64) = length xs"
      using holds_at_length [OF p(4)] len by simp
    then show ?thesis
      using p dec_take_at [OF p(4) len] d Bytes out
      by (subst dec_value.simps) (simp add: MAX_NESTING_DEPTH_def dec_length_def)
  next
    case (Text t)
    then show ?thesis
      using dec_text_at [OF _ _ at len d, of t] unfolded assms(1) by (simp split: if_splits)
  next
    case (Bool b)
    then have "out = [if b then 0xf5 else 0xf4]"
      using unfolded by (cases b) (simp_all split: if_splits)
    then show ?thesis
      using dec_byte_at [of bs off "if b then 0xf5 else 0xf4" "[]"] at d Bool
      by (subst dec_value.simps) (simp add: MAX_NESTING_DEPTH_def)
  next
    case Null
    then have "out = [0xf6]" using unfolded by (simp split: if_splits)
    then show ?thesis
      using dec_byte_at [of bs off "0xf6" "[]"] at d Null
      by (subst dec_value.simps) (simp add: MAX_NESTING_DEPTH_def)
  qed (use assms in simp_all)
qed

lemma reads_all: "wire_ok v \<Longrightarrow> reads_value d v"
proof (induction v arbitrary: d)
  case (Array vs)
  then show ?case by (intro reads_array) simp
next
  case (Map m)
  have "\<forall>e\<in>set m. utf8_ok (fst e) \<and> reads_value (d + 1) (snd e)"
  proof
    fix e assume e: "e \<in> set m"
    then show "utf8_ok (fst e) \<and> reads_value (d + 1) (snd e)"
      using Map.IH [OF e, of "snd e" "d + 1"] Map.prems by (simp add: snds.intros)
  qed
  then show ?case using Map.prems by (intro reads_map) simp_all
qed (rule reads_scalar; simp)+

section \<open>What the decoder accepts\<close>

lemma dec_text_ok: "dec_text bs a off = Ok (v, off') \<Longrightarrow> wire_ok v"
  by (auto simp: dec_text_def result_simps split: if_splits)

lemma dec_ok:
  "dec_value bs d off = Ok (v, off') \<Longrightarrow> wire_ok v"
  "fill_array bs n d off = Ok (vs, off') \<Longrightarrow> \<forall>v\<in>set vs. wire_ok v"
  "fill_map bs n d m off = Ok (m', off') \<Longrightarrow>
     btree_ok m \<and> (\<forall>e\<in>set m. utf8_ok (fst e) \<and> wire_ok (snd e)) \<Longrightarrow>
     btree_ok m' \<and> (\<forall>e\<in>set m'. utf8_ok (fst e) \<and> wire_ok (snd e))"
proof (induction bs d off and bs n d off and bs n d m off arbitrary: v off' and vs off' and m' off'
    rule: dec_value_fill_array_fill_map.induct)
  case (1 bs depth off)
  have neg: "- uint (w :: u64) < 9223372036854775809" for w
    by (rule order.strict_trans1 [of _ 0]) simp_all
  have arr: "\<forall>v\<in>set vs. wire_ok v"
    if "\<not> MAX_NESTING_DEPTH < depth" "fill_array bs n depth o1 = Ok (vs, o2)" for n o1 vs o2
    using "1.IH"(1) [OF that(1), of "drop_bit 5 0x80" "0x80" "0x80 AND 31" n o1 vs o2] that(2) by simp
  have map: "btree_ok m \<and> (\<forall>e\<in>set m. utf8_ok (fst e) \<and> wire_ok (snd e))"
    if "\<not> MAX_NESTING_DEPTH < depth" "fill_map bs n depth [] o1 = Ok (m, o2)" for n o1 m o2
    using "1.IH"(2) [OF that(1), of "drop_bit 5 0xa0" "0xa0" "0xa0 AND 31" n o1 m o2] that(2)
    by (simp add: btree_ok_def)
  show ?case
    using "1.prems"
    by (subst (asm) dec_value.simps)
      (auto simp: result_simps Let_def neg split: if_splits dest: dec_text_ok arr map)
next
  case (5 bs n depth m off)
  obtain k o1 v o2 where dec: "dec_value bs (depth + 1) off = Ok (Text k, o1)"
      "dec_value bs (depth + 1) o1 = Ok (v, o2)" "map_of m k = None"
      "fill_map bs n depth (btree_insert k v m) o2 = Ok (m', off')"
  proof -
    obtain key o1 where key: "dec_value bs (depth + 1) off = Ok (key, o1)"
      using "5.prems"(1) by (auto simp: result_simps)
    with "5.prems"(1) obtain k where "key = Text k" by (cases key) auto
    with "5.prems"(1) key have "and_then (dec_value bs (depth + 1) o1) (\<lambda>(v, off).
        case map_of m k of Some _ \<Rightarrow> Err DuplicateMapKey
        | None \<Rightarrow> fill_map bs n depth (btree_insert k v m) off) = Ok (m', off')"
      by simp
    then obtain v o2 where v: "dec_value bs (depth + 1) o1 = Ok (v, o2)"
        "(case map_of m k of Some _ \<Rightarrow> Err DuplicateMapKey
          | None \<Rightarrow> fill_map bs n depth (btree_insert k v m) o2) = Ok (m', off')"
      by (auto simp: and_then_Ok_iff)
    show thesis
      using that [of k o1 v o2] key \<open>key = Text k\<close> v by (cases "map_of m k") simp_all
  qed
  have "wire_ok (Text k)" by (rule "5.IH"(1) [OF dec(1)])
  moreover have "wire_ok v" by (rule "5.IH"(2) [OF refl dec(2)])
  moreover have "set (btree_insert k v m) = insert (k, v) (set m)"
    using dec(3) by (intro btree_insert_set) (simp add: map_of_eq_None_iff)
  ultimately have "btree_ok (btree_insert k v m) \<and>
      (\<forall>e\<in>set (btree_insert k v m). utf8_ok (fst e) \<and> wire_ok (snd e))"
    using "5.prems"(2) btree_insert_ok [of m k v] by simp
  then show ?case by (rule "5.IH"(3) [OF refl dec(3,4)])
next
  case (3 bs n depth off)
  obtain v o1 vs' where dec: "dec_value bs (depth + 1) off = Ok (v, o1)"
      "fill_array bs n depth o1 = Ok (vs', off')" "vs = v # vs'"
    using "3.prems" by (auto simp: and_then_Ok_iff)
  then show ?case
    using "3.IH"(1) [OF dec(1)] "3.IH"(2) [OF dec(2)] by simp
qed simp_all

lemma decode_cbor_iff:
  "decode_deterministic_cbor bs = Ok v \<longleftrightarrow>
     wire_ok v \<and> encode_deterministic_cbor v = Ok bs \<and> length bs \<le> MAX_FRAME_PLAINTEXT"
proof
  assume "decode_deterministic_cbor bs = Ok v"
  then show "wire_ok v \<and> encode_deterministic_cbor v = Ok bs \<and> length bs \<le> MAX_FRAME_PLAINTEXT"
    by (auto simp: decode_deterministic_cbor_def result_simps split: if_splits dest: dec_ok(1))
next
  assume v: "wire_ok v \<and> encode_deterministic_cbor v = Ok bs \<and> length bs \<le> MAX_FRAME_PLAINTEXT"
  have "holds_at bs 0 bs" by (simp add: holds_at_def)
  moreover have "length bs < 2 ^ 64" using v by (simp add: MAX_FRAME_PLAINTEXT_def)
  ultimately have "dec_value bs 0 0 = Ok (v, length bs)"
    using reads_all [of v 0] v by (simp add: reads_value_def encode_deterministic_cbor_def)
  then show "decode_deterministic_cbor bs = Ok v"
    using v by (simp add: decode_deterministic_cbor_def)
qed

section \<open>Properties\<close>

text \<open>
  Property C4. The deterministic CBOR codec is exact: the decoder accepts a byte string with a
  value exactly when the value is one the Rust types allow, the byte string is the encoding of
  that value, and it fits one frame. So every value that fits decodes back from its encoding, and
  no value has a second encoding the decoder would take.
\<close>
theorem cbor_exact:
  "decode_deterministic_cbor bs = Ok v \<longleftrightarrow>
     wire_ok v \<and> encode_deterministic_cbor v = Ok bs \<and> length bs \<le> MAX_FRAME_PLAINTEXT"
  by (rule decode_cbor_iff)

end
