(* ===== verification/Rapp_Wire.thy ===== *)
theory Rapp_Wire
  imports Rapp_Cbor
begin

text \<open>
  Messages and envelopes of \<open>crates/rapp/src/wire.rs\<close>: the message registry, the body schema, the
  envelope with its encoder and strict decoder, and the sequence guard of a channel. The theory
  shows that the envelope codec is exact and that two guards over one channel carry messages in
  order, exactly once, with nothing replayed or skipped.
\<close>

section \<open>Messages\<close>

definition WIRE_VERSION :: "u16 \<times> u16 \<times> u16" where "WIRE_VERSION = (26, 11, 7)"
definition SESSION_ID_SIZE :: nat where "SESSION_ID_SIZE = 16"

datatype MessageType =
    PairingHello | PairingConfirm | PairingAbort | PairingStored | SessionReady | SessionHello
  | SessionClose | LivenessPing | LivenessPong | OperationRequest | OperationResult
  | OperationProgress | CardStatus | MessageError

fun mt_as_str :: "MessageType \<Rightarrow> bytes" where
  "mt_as_str PairingHello = str ''pairing.hello''"
| "mt_as_str PairingConfirm = str ''pairing.confirm''"
| "mt_as_str PairingAbort = str ''pairing.abort''"
| "mt_as_str PairingStored = str ''pairing.stored''"
| "mt_as_str SessionReady = str ''session.ready''"
| "mt_as_str SessionHello = str ''session.hello''"
| "mt_as_str SessionClose = str ''session.close''"
| "mt_as_str LivenessPing = str ''liveness.ping''"
| "mt_as_str LivenessPong = str ''liveness.pong''"
| "mt_as_str OperationRequest = str ''operation.request''"
| "mt_as_str OperationResult = str ''operation.result''"
| "mt_as_str OperationProgress = str ''operation.progress''"
| "mt_as_str CardStatus = str ''card.status''"
| "mt_as_str MessageError = str ''error''"

definition mt_parse :: "bytes \<Rightarrow> (MessageType, WireError) result" where
  "mt_parse t =
     (if t = str ''pairing.hello'' then Ok PairingHello
      else if t = str ''pairing.confirm'' then Ok PairingConfirm
      else if t = str ''pairing.abort'' then Ok PairingAbort
      else if t = str ''pairing.stored'' then Ok PairingStored
      else if t = str ''session.ready'' then Ok SessionReady
      else if t = str ''session.hello'' then Ok SessionHello
      else if t = str ''session.close'' then Ok SessionClose
      else if t = str ''liveness.ping'' then Ok LivenessPing
      else if t = str ''liveness.pong'' then Ok LivenessPong
      else if t = str ''operation.request'' then Ok OperationRequest
      else if t = str ''operation.result'' then Ok OperationResult
      else if t = str ''operation.progress'' then Ok OperationProgress
      else if t = str ''card.status'' then Ok CardStatus
      else if t = str ''error'' then Ok MessageError
      else Err UnknownMessageType)"

type_synonym body = "(bytes \<times> WireValue) list"

section \<open>Body schema\<close>

datatype FieldType = FUnsigned | FBytes nat | FText | FArray | FMap | FBool

record FieldSpec =
  fs_name :: string
  fs_type :: FieldType
  fs_optional :: bool

abbreviation req :: "string \<Rightarrow> FieldType \<Rightarrow> FieldSpec" where
  "req n t \<equiv> \<lparr>fs_name = n, fs_type = t, fs_optional = False\<rparr>"

abbreviation opt :: "string \<Rightarrow> FieldType \<Rightarrow> FieldSpec" where
  "opt n t \<equiv> \<lparr>fs_name = n, fs_type = t, fs_optional = True\<rparr>"

definition OPERATION_ID :: FieldType where "OPERATION_ID = FBytes 16"
definition PAIR_ID :: FieldType where "PAIR_ID = FBytes 16"
definition CERTIFICATE_FINGERPRINT :: FieldType where "CERTIFICATE_FINGERPRINT = FBytes 32"

fun field_specs :: "MessageType \<Rightarrow> FieldSpec list" where
  "field_specs PairingHello =
     [req ''parameters'' FMap, req ''display_name'' FText, req ''platform'' FText,
      opt ''requested_profiles'' FArray]"
| "field_specs PairingConfirm = [req ''granted_profiles'' FArray]"
| "field_specs PairingAbort = [req ''reason'' FText]"
| "field_specs PairingStored = [req ''pair_id'' PAIR_ID]"
| "field_specs CardStatus =
     [req ''card_present'' FBool, req ''reader_attached'' FBool,
      req ''certificate_fingerprint'' CERTIFICATE_FINGERPRINT]"
| "field_specs SessionReady =
     [req ''parameters'' FMap, req ''nonce'' (FBytes 32), req ''display_name'' FText]"
| "field_specs SessionHello = [req ''display_name'' FText]"
| "field_specs SessionClose = [req ''reason'' FText]"
| "field_specs LivenessPing = [req ''challenge'' (FBytes 32)]"
| "field_specs LivenessPong = [req ''challenge'' (FBytes 32)]"
| "field_specs OperationRequest =
     [req ''operation_id'' OPERATION_ID, req ''profile'' FText, req ''action'' FText,
      req ''context'' FMap, req ''payload'' FMap, opt ''expires_after_ms'' FUnsigned]"
| "field_specs OperationResult =
     [req ''operation_id'' OPERATION_ID, req ''status'' FText, opt ''response'' FMap,
      opt ''error'' FText]"
| "field_specs OperationProgress = [req ''operation_id'' OPERATION_ID, req ''event'' FText]"
| "field_specs MessageError =
     [req ''error_name'' FText, req ''message'' FText, opt ''operation_id'' OPERATION_ID]"

fun field_matches :: "FieldType \<Rightarrow> WireValue \<Rightarrow> bool" where
  "field_matches FUnsigned (Unsigned _) = True"
| "field_matches (FBytes n) (Bytes bs) = (length bs = n)"
| "field_matches FText (Text _) = True"
| "field_matches FArray (Array _) = True"
| "field_matches FMap (Map _) = True"
| "field_matches FBool (Bool _) = True"
| "field_matches _ _ = False"

definition validate_field :: "FieldSpec \<Rightarrow> WireValue \<Rightarrow> (unit, WireError) result" where
  "validate_field spec v =
     (if field_matches (fs_type spec) v then Ok () else Err (WrongType (fs_name spec)))"

definition body_text :: "body \<Rightarrow> string \<Rightarrow> bytes option" where
  "body_text b field =
     (case btree_get b (str field) of Some (Text t) \<Rightarrow> Some t | _ \<Rightarrow> None)"

definition close_reason_names :: "bytes list" where
  "close_reason_names = map str
     [''normal'', ''complete'', ''user_disconnect'', ''policy'', ''protocol_violation'',
      ''pairing_revoked'', ''shutdown'', ''card_unavailable'', ''service_withdrawn'']"

definition ERROR_NAME_LENGTHS :: "nat \<times> nat" where "ERROR_NAME_LENGTHS = (1, 64)"
definition ERROR_MESSAGE_LENGTHS :: "nat \<times> nat" where "ERROR_MESSAGE_LENGTHS = (1, 512)"

definition length_within :: "nat \<times> nat \<Rightarrow> bytes option \<Rightarrow> bool" where
  "length_within bounds t =
     (case t of None \<Rightarrow> False | Some x \<Rightarrow> fst bounds \<le> length x \<and> length x \<le> snd bounds)"

fun validate_discriminants :: "MessageType \<Rightarrow> body \<Rightarrow> (unit, WireError) result" where
  "validate_discriminants SessionClose b =
     (if body_text b ''reason'' \<in> Some ` set close_reason_names then Ok ()
      else Err (InvalidValue ''reason''))"
| "validate_discriminants OperationResult b =
     (if body_text b ''status'' \<in> Some ` set (map str [''completed'', ''rejected'', ''cancelled''])
      then Ok () else Err (InvalidValue ''status''))"
| "validate_discriminants MessageError b =
     (if \<not> length_within ERROR_NAME_LENGTHS (body_text b ''error_name'')
        then Err (InvalidValue ''error_name'')
      else if \<not> length_within ERROR_MESSAGE_LENGTHS (body_text b ''message'')
        then Err (InvalidValue ''message'')
      else Ok ())"
| "validate_discriminants _ b = Ok ()"

fun validate_specs :: "FieldSpec list \<Rightarrow> body \<Rightarrow> (unit, WireError) result" where
  "validate_specs [] b = Ok ()"
| "validate_specs (spec # specs) b =
     (case btree_get b (str (fs_name spec)) of
        None \<Rightarrow> if fs_optional spec then validate_specs specs b
                else Err (MissingField (fs_name spec))
      | Some v \<Rightarrow> and_then (validate_field spec v) (\<lambda>_. validate_specs specs b))"

definition validate_body :: "MessageType \<Rightarrow> body \<Rightarrow> (unit, WireError) result" where
  "validate_body mt b =
     (if \<exists>k\<in>set (map fst b). k \<notin> set (map (\<lambda>s. str (fs_name s)) (field_specs mt))
      then Err UnknownField
      else and_then (validate_specs (field_specs mt) b) (\<lambda>_. validate_discriminants mt b))"

section \<open>Envelopes\<close>

datatype SessionId = SessionId (sid_bytes: bytes)

record IdentifierError =
  id_expected :: nat
  id_got :: nat

definition session_id_reconstruct :: "bytes \<Rightarrow> (SessionId, IdentifierError) result" where
  "session_id_reconstruct bs =
     (if length bs = SESSION_ID_SIZE then Ok (SessionId bs)
      else Err \<lparr>id_expected = SESSION_ID_SIZE, id_got = length bs\<rparr>)"

record Envelope =
  env_message_type :: MessageType
  env_session_id :: SessionId
  env_sequence :: u64
  env_body :: body

definition envelope_reconstruct ::
  "MessageType \<Rightarrow> SessionId \<Rightarrow> u64 \<Rightarrow> body \<Rightarrow> (Envelope, WireError) result" where
  "envelope_reconstruct mt sid sequence b =
     and_then (validate_body mt b) (\<lambda>_.
       Ok \<lparr>env_message_type = mt, env_session_id = sid, env_sequence = sequence, env_body = b\<rparr>)"

definition version_value :: "WireValue list" where
  "version_value =
     (case WIRE_VERSION of (a, b, c) \<Rightarrow> [Unsigned (ucast a), Unsigned (ucast b), Unsigned (ucast c)])"

definition envelope_map :: "Envelope \<Rightarrow> (bytes \<times> WireValue) list" where
  "envelope_map e =
     btree_insert (str ''body'') (Map (env_body e))
       (btree_insert (str ''sequence'') (Unsigned (env_sequence e))
         (btree_insert (str ''session_id'') (Bytes (sid_bytes (env_session_id e)))
           (btree_insert (str ''type'') (Text (mt_as_str (env_message_type e)))
             (btree_insert (str ''version'') (Array version_value) []))))"

definition envelope_encode :: "Envelope \<Rightarrow> (bytes, WireError) result" where
  "envelope_encode e =
     and_then (encode_deterministic_cbor (Map (envelope_map e))) (\<lambda>encoded.
       if length encoded > MAX_FRAME_PLAINTEXT then Err (OversizedPlaintext (length encoded))
       else Ok encoded)"

definition reject_unknown_fields ::
  "(bytes \<times> WireValue) list \<Rightarrow> bytes list \<Rightarrow> (unit, WireError) result" where
  "reject_unknown_fields m known =
     (if \<exists>k\<in>set (map fst m). k \<notin> set known then Err UnknownField else Ok ())"

definition btree_remove :: "bytes \<Rightarrow> (bytes \<times> 'v) list \<Rightarrow> (bytes \<times> 'v) list" where
  "btree_remove k m = filter (\<lambda>e. fst e \<noteq> k) m"

type_synonym 'a taking = "('a \<times> (bytes \<times> WireValue) list, WireError) result"

definition take_with ::
  "(WireValue \<Rightarrow> 'a option) \<Rightarrow> (bytes \<times> WireValue) list \<Rightarrow> string \<Rightarrow> 'a taking" where
  "take_with f m field =
     (case btree_get m (str field) of
        None \<Rightarrow> Err (MissingField field)
      | Some v \<Rightarrow> (case f v of None \<Rightarrow> Err (WrongType field)
                   | Some x \<Rightarrow> Ok (x, btree_remove (str field) m)))"

definition take_unsigned :: "(bytes \<times> WireValue) list \<Rightarrow> string \<Rightarrow> u64 taking" where
  "take_unsigned = take_with (\<lambda>v. case v of Unsigned n \<Rightarrow> Some n | _ \<Rightarrow> None)"

definition take_text :: "(bytes \<times> WireValue) list \<Rightarrow> string \<Rightarrow> bytes taking" where
  "take_text = take_with (\<lambda>v. case v of Text t \<Rightarrow> Some t | _ \<Rightarrow> None)"

definition take_bytes :: "(bytes \<times> WireValue) list \<Rightarrow> string \<Rightarrow> bytes taking" where
  "take_bytes = take_with (\<lambda>v. case v of Bytes bs \<Rightarrow> Some bs | _ \<Rightarrow> None)"

definition take_array :: "(bytes \<times> WireValue) list \<Rightarrow> string \<Rightarrow> WireValue list taking" where
  "take_array = take_with (\<lambda>v. case v of Array vs \<Rightarrow> Some vs | _ \<Rightarrow> None)"

definition take_map :: "(bytes \<times> WireValue) list \<Rightarrow> string \<Rightarrow> body taking" where
  "take_map = take_with (\<lambda>v. case v of Map m \<Rightarrow> Some m | _ \<Rightarrow> None)"

definition envelope_fields :: "bytes list" where
  "envelope_fields = map str [''version'', ''type'', ''session_id'', ''sequence'', ''body'']"

definition envelope_decode :: "bytes \<Rightarrow> (Envelope, WireError) result" where
  "envelope_decode bs =
     (if length bs > MAX_FRAME_PLAINTEXT then Err (OversizedPlaintext (length bs))
      else and_then (decode_deterministic_cbor bs) (\<lambda>value. case value of
        Map m \<Rightarrow>
          and_then (reject_unknown_fields m envelope_fields) (\<lambda>_.
          and_then (take_array m ''version'') (\<lambda>(version, m).
          if version \<noteq> version_value then Err UnsupportedVersion
          else and_then (take_text m ''type'') (\<lambda>(t, m).
          and_then (mt_parse t) (\<lambda>mt.
          and_then (take_bytes m ''session_id'') (\<lambda>(sb, m).
          and_then (map_err (\<lambda>_. WrongLength ''session_id'' SESSION_ID_SIZE (length sb))
            (session_id_reconstruct sb)) (\<lambda>sid.
          and_then (take_unsigned m ''sequence'') (\<lambda>(sequence, m).
          and_then (take_map m ''body'') (\<lambda>(b, m).
          and_then (validate_body mt b) (\<lambda>_.
          Ok \<lparr>env_message_type = mt, env_session_id = sid, env_sequence = sequence,
              env_body = b\<rparr>)))))))))
      | _ \<Rightarrow> Err (WrongType ''envelope'')))"

section \<open>The sequence guard\<close>

record SequenceGuard =
  sg_session_id :: SessionId
  next_send :: u64
  next_receive :: u64

definition guard_new :: "SessionId \<Rightarrow> SequenceGuard" where
  "guard_new sid = \<lparr>sg_session_id = sid, next_send = 0, next_receive = 0\<rparr>"

text \<open>\<open>seal\<close> and the conversion of wire errors into its error type are the caller's.\<close>

definition seal_next ::
  "(WireError \<Rightarrow> 'e) \<Rightarrow> (bytes \<Rightarrow> ('t, 'e) result) \<Rightarrow> MessageType \<Rightarrow> body \<Rightarrow> SequenceGuard \<Rightarrow>
   SequenceGuard \<times> ('t, 'e) result" where
  "seal_next from seal mt b g =
     (case and_then (ok_or (checked_add (next_send g) 1) (from SequenceWrapped)) (\<lambda>following.
           and_then (map_err from (envelope_reconstruct mt (sg_session_id g) (next_send g) b)) (\<lambda>e.
           and_then (map_err from (envelope_encode e)) (\<lambda>plaintext.
           and_then (seal plaintext) (\<lambda>sealed. Ok (following, sealed))))) of
        Ok (following, sealed) \<Rightarrow> (g\<lparr>next_send := following\<rparr>, Ok sealed)
      | Err e \<Rightarrow> (g, Err e))"

definition accept_incoming :: "Envelope \<Rightarrow> SequenceGuard \<Rightarrow> SequenceGuard \<times> (unit, WireError) result"
where
  "accept_incoming e g =
     (if env_session_id e \<noteq> sg_session_id g then (g, Err WrongSession)
      else if env_sequence e \<noteq> next_receive g
        then (g, Err (WrongSequence (next_receive g) (env_sequence e)))
      else case checked_add (next_receive g) 1 of
             None \<Rightarrow> (g, Err SequenceWrapped)
           | Some n \<Rightarrow> (g\<lparr>next_receive := n\<rparr>, Ok ()))"

section \<open>The envelope codec\<close>

lemmas take_defs = take_with_def take_unsigned_def take_text_def take_bytes_def take_array_def
  take_map_def

lemma map_of_btree_remove:
  "map_of (btree_remove k m) k' = (if k' = k then None else map_of m k')"
  by (induction m) (auto simp: btree_remove_def)

lemma str_keys_distinct [simp]:
  "str a = str b \<longleftrightarrow> map (of_char :: char \<Rightarrow> u8) a = map of_char b"
  by (simp add: str_def)

lemma mt_parse_Ok: "mt_parse t = Ok mt \<longleftrightarrow> t = mt_as_str mt"
proof
  show "mt_parse t = Ok mt \<Longrightarrow> t = mt_as_str mt"
    by (auto simp only: mt_parse_def mt_as_str.simps result.simps split: if_splits)
  show "t = mt_as_str mt \<Longrightarrow> mt_parse t = Ok mt"
    by (cases mt) (simp_all add: mt_parse_def)
qed

lemma session_id_reconstruct_Ok:
  "session_id_reconstruct bs = Ok sid \<longleftrightarrow> length bs = SESSION_ID_SIZE \<and> sid = SessionId bs"
  by (auto simp: session_id_reconstruct_def)

text \<open>What the Rust types of an envelope guarantee, and what its constructor checks.\<close>

definition envelope_ok :: "Envelope \<Rightarrow> bool" where
  "envelope_ok e \<longleftrightarrow>
     length (sid_bytes (env_session_id e)) = SESSION_ID_SIZE \<and> wire_ok (Map (env_body e)) \<and>
     validate_body (env_message_type e) (env_body e) = Ok ()"

lemma envelope_map_eq:
  "envelope_map e =
     [(str ''body'', Map (env_body e)), (str ''sequence'', Unsigned (env_sequence e)),
      (str ''session_id'', Bytes (sid_bytes (env_session_id e))),
      (str ''type'', Text (mt_as_str (env_message_type e))), (str ''version'', Array version_value)]"
  by (simp add: envelope_map_def str_def)

lemma mt_as_str_utf8: "utf8_ok (mt_as_str mt)"
  by (cases mt) (simp_all add: str_def)

lemma version_value_eq: "version_value = [Unsigned 26, Unsigned 11, Unsigned 7]"
  by (simp add: version_value_def WIRE_VERSION_def)

lemma envelope_map_ok: "wire_ok (Map (env_body e)) \<Longrightarrow> wire_ok (Map (envelope_map e))"
  by (simp add: envelope_map_eq btree_ok_def str_def version_value_eq mt_as_str_utf8 [unfolded str_def])

lemma envelope_encode_Ok:
  "envelope_encode e = Ok bs \<longleftrightarrow>
     encode_deterministic_cbor (Map (envelope_map e)) = Ok bs \<and> length bs \<le> MAX_FRAME_PLAINTEXT"
  by (cases "encode_deterministic_cbor (Map (envelope_map e))") (auto simp: envelope_encode_def)

lemma take_Ok:
  "take_unsigned m f = Ok (n, m') \<longleftrightarrow> map_of m (str f) = Some (Unsigned n) \<and> m' = btree_remove (str f) m"
  "take_text m f = Ok (t, m') \<longleftrightarrow> map_of m (str f) = Some (Text t) \<and> m' = btree_remove (str f) m"
  "take_bytes m f = Ok (b, m') \<longleftrightarrow> map_of m (str f) = Some (Bytes b) \<and> m' = btree_remove (str f) m"
  "take_array m f = Ok (a, m') \<longleftrightarrow> map_of m (str f) = Some (Array a) \<and> m' = btree_remove (str f) m"
  "take_map m f = Ok (d, m') \<longleftrightarrow> map_of m (str f) = Some (Map d) \<and> m' = btree_remove (str f) m"
  by (auto simp: take_defs split: option.splits WireValue.splits)

lemma reject_unknown_fields_Ok:
  "reject_unknown_fields m known = Ok u \<longleftrightarrow> fst ` set m \<subseteq> set known"
  by (auto simp: reject_unknown_fields_def)

text \<open>The chain of \<open>take_*\<close> calls, as conditions on the map.\<close>

lemma envelope_decode_Ok:
  "envelope_decode bs = Ok e \<longleftrightarrow>
     (\<exists>m. decode_deterministic_cbor bs = Ok (Map m) \<and> length bs \<le> MAX_FRAME_PLAINTEXT \<and>
        fst ` set m \<subseteq> set envelope_fields \<and>
        (\<forall>(k, v)\<in>set (envelope_map e). map_of m k = Some v) \<and>
        length (sid_bytes (env_session_id e)) = SESSION_ID_SIZE \<and>
        validate_body (env_message_type e) (env_body e) = Ok ())"
  (is "_ \<longleftrightarrow> ?fields")
proof
  have keys: "str ''type'' \<noteq> str ''version''" "str ''session_id'' \<noteq> str ''type''"
    "str ''session_id'' \<noteq> str ''version''" "str ''sequence'' \<noteq> str ''session_id''"
    "str ''sequence'' \<noteq> str ''type''" "str ''sequence'' \<noteq> str ''version''"
    "str ''body'' \<noteq> str ''sequence''" "str ''body'' \<noteq> str ''session_id''"
    "str ''body'' \<noteq> str ''type''" "str ''body'' \<noteq> str ''version''"
    by (simp_all add: str_def)
  have is_map: "(case v of Map m \<Rightarrow> f m | _ \<Rightarrow> Err x) = Ok y \<longleftrightarrow> (\<exists>m. v = Map m \<and> f m = Ok y)"
    for v and f :: "(bytes \<times> WireValue) list \<Rightarrow> (Envelope, WireError) result" and x y
    by (cases v) auto
  note opened = envelope_decode_def envelope_map_eq result_simps take_Ok mt_parse_Ok is_map
    session_id_reconstruct_Ok reject_unknown_fields_Ok map_of_btree_remove keys
  {
    assume "envelope_decode bs = Ok e"
    then show ?fields
      by (auto simp: opened simp del: str_keys_distinct split: if_splits)
  next
    assume ?fields
    then obtain m where m: "decode_deterministic_cbor bs = Ok (Map m)" and rest:
        "length bs \<le> MAX_FRAME_PLAINTEXT" "fst ` set m \<subseteq> set envelope_fields"
        "\<forall>(k, v)\<in>set (envelope_map e). map_of m k = Some v"
        "length (sid_bytes (env_session_id e)) = SESSION_ID_SIZE"
        "validate_body (env_message_type e) (env_body e) = Ok ()"
      by blast
    then show "envelope_decode bs = Ok e"
      by (auto simp: opened simp del: str_keys_distinct intro!: exI [of _ m])
  }
qed

lemma envelope_decode_iff:
  "envelope_decode bs = Ok e \<longleftrightarrow> envelope_ok e \<and> envelope_encode e = Ok bs"
proof
  assume "envelope_decode bs = Ok e"
  then obtain m where m: "decode_deterministic_cbor bs = Ok (Map m)"
      "length bs \<le> MAX_FRAME_PLAINTEXT" "fst ` set m \<subseteq> set envelope_fields"
      "\<forall>(k, v)\<in>set (envelope_map e). map_of m k = Some v"
      "length (sid_bytes (env_session_id e)) = SESSION_ID_SIZE"
      "validate_body (env_message_type e) (env_body e) = Ok ()"
    unfolding envelope_decode_Ok by blast
  have cbor: "wire_ok (Map m)" "encode_deterministic_cbor (Map m) = Ok bs"
    using m(1) decode_cbor_iff by blast+
  have "(str ''body'', Map (env_body e)) \<in> set m"
    using m(4) by (auto simp: envelope_map_eq intro: map_of_SomeD)
  then have body: "wire_ok (Map (env_body e))" using cbor(1) by fastforce
  have "set m = set (envelope_map e)"
  proof (intro equalityI subsetI)
    fix kv assume kv: "kv \<in> set m"
    obtain k v where [simp]: "kv = (k, v)" by force
    have "distinct (map fst m)"
      using cbor(1) strict_sorted_iff by (auto simp: btree_ok_def)
    then have "map_of m k = Some v" using kv by simp
    moreover have "k \<in> fst ` set (envelope_map e)"
      using kv m(3) by (force simp: envelope_map_eq envelope_fields_def)
    ultimately show "kv \<in> set (envelope_map e)" using m(4) by force
  qed (use m(4) in \<open>auto intro: map_of_SomeD\<close>)
  then have "m = envelope_map e"
    using btree_unique cbor(1) envelope_map_ok [OF body] by (metis wire_ok.simps(4))
  then show "envelope_ok e \<and> envelope_encode e = Ok bs"
    using cbor(2) body m(2,5,6) by (simp add: envelope_ok_def envelope_encode_Ok)
next
  assume e: "envelope_ok e \<and> envelope_encode e = Ok bs"
  then have "decode_deterministic_cbor bs = Ok (Map (envelope_map e))"
    using envelope_map_ok [of e]
    by (simp add: decode_cbor_iff envelope_encode_Ok envelope_ok_def del: wire_ok.simps)
  moreover have "fst ` set (envelope_map e) \<subseteq> set envelope_fields"
    by (auto simp: envelope_map_eq envelope_fields_def)
  moreover have "\<forall>(k, v)\<in>set (envelope_map e). map_of (envelope_map e) k = Some v"
    by (simp add: envelope_map_eq)
  ultimately show "envelope_decode bs = Ok e"
    using e by (auto simp: envelope_decode_Ok envelope_ok_def envelope_encode_Ok)
qed

section \<open>Two guards over one channel\<close>

text \<open>
  A run of the sender: each message comes with the \<open>seal\<close> of that moment, which may fail. The run
  returns the sealed messages and the messages they carry. A run of the receiver opens whatever is
  delivered and collects the messages its guard accepts; \<open>unseal\<close> stands for the decryption.
\<close>

type_synonym ('t, 'e) sending = "MessageType \<times> body \<times> (bytes \<Rightarrow> ('t, 'e) result)"

fun send_run ::
  "(WireError \<Rightarrow> 'e) \<Rightarrow> SequenceGuard \<Rightarrow> ('t, 'e) sending list \<Rightarrow>
   SequenceGuard \<times> ('t \<times> MessageType \<times> body) list" where
  "send_run from g [] = (g, [])"
| "send_run from g ((mt, b, seal) # items) =
     (case seal_next from seal mt b g of
        (g', Ok t) \<Rightarrow> (case send_run from g' items of (g'', sent) \<Rightarrow> (g'', (t, mt, b) # sent))
      | (g', Err _) \<Rightarrow> send_run from g' items)"

definition open_envelope :: "('t \<Rightarrow> bytes option) \<Rightarrow> 't \<Rightarrow> Envelope option" where
  "open_envelope unseal t =
     (case unseal t of None \<Rightarrow> None
      | Some p \<Rightarrow> (case envelope_decode p of Ok e \<Rightarrow> Some e | Err _ \<Rightarrow> None))"

fun receive_run ::
  "('t \<Rightarrow> bytes option) \<Rightarrow> SequenceGuard \<Rightarrow> 't list \<Rightarrow> SequenceGuard \<times> (MessageType \<times> body) list" where
  "receive_run unseal g [] = (g, [])"
| "receive_run unseal g (t # ts) =
     (case open_envelope unseal t of
        None \<Rightarrow> receive_run unseal g ts
      | Some e \<Rightarrow>
          (case accept_incoming e g of
             (g', Ok _) \<Rightarrow> (case receive_run unseal g' ts of
                (g'', got) \<Rightarrow> (g'', (env_message_type e, env_body e) # got))
           | (g', Err _) \<Rightarrow> receive_run unseal g' ts))"

definition numbered ::
  "('t \<Rightarrow> bytes option) \<Rightarrow> SessionId \<Rightarrow> nat \<Rightarrow> ('t \<times> MessageType \<times> body) list \<Rightarrow> bool" where
  "numbered unseal sid n sent \<longleftrightarrow>
     n + length sent < 2 ^ 64 \<and>
     (\<forall>i<length sent. case sent ! i of (t, mt, b) \<Rightarrow>
        open_envelope unseal t =
          Some \<lparr>env_message_type = mt, env_session_id = sid, env_sequence = of_nat (n + i),
                env_body = b\<rparr>)"

lemma seal_next_Ok:
  "seal_next from seal mt b g = (g', Ok t) \<longleftrightarrow>
     g' = g\<lparr>next_send := next_send g + 1\<rparr> \<and> unat (next_send g) + 1 < 2 ^ 64 \<and>
     validate_body mt b = Ok () \<and>
     (\<exists>p. envelope_encode \<lparr>env_message_type = mt, env_session_id = sg_session_id g,
             env_sequence = next_send g, env_body = b\<rparr> = Ok p \<and> seal p = Ok t)"
  by (auto simp: seal_next_def envelope_reconstruct_def result_simps checked_add_def
      split: result.splits if_splits)

lemma seal_next_Err: "seal_next from seal mt b g = (g', Err x) \<Longrightarrow> g' = g"
  by (auto simp: seal_next_def split: result.splits)

lemma send_run_numbered:
  assumes "send_run from g items = (g', sent)" "length (sid_bytes (sg_session_id g)) = SESSION_ID_SIZE"
    and "\<forall>(mt, b, seal)\<in>set items. wire_ok (Map b) \<and> (\<forall>p t. seal p = Ok t \<longrightarrow> unseal t = Some p)"
  shows "numbered unseal (sg_session_id g) (unat (next_send g)) sent"
  using assms
proof (induction items arbitrary: g sent)
  case Nil
  then show ?case using unat_u64_less [of "next_send g"] by (simp add: numbered_def)
next
  case (Cons item items)
  obtain mt b seal where item: "item = (mt, b, seal)" by (cases item)
  obtain g1 r where step: "seal_next from seal mt b g = (g1, r)" by force
  show ?case
  proof (cases r)
    case (Err x)
    then show ?thesis using Cons step seal_next_Err [of "from" seal mt b g g1 x] item by auto
  next
    case (Ok t)
    obtain rest where rest: "send_run from g1 items = (g', rest)" "sent = (t, mt, b) # rest"
      using Cons.prems(1) step Ok item by (auto split: prod.splits)
    obtain p where p: "envelope_encode \<lparr>env_message_type = mt, env_session_id = sg_session_id g,
          env_sequence = next_send g, env_body = b\<rparr> = Ok p" "seal p = Ok t"
        "validate_body mt b = Ok ()"
      and g1: "g1 = g\<lparr>next_send := next_send g + 1\<rparr>" "unat (next_send g) + 1 < 2 ^ 64"
      using step [unfolded Ok seal_next_Ok] by auto
    have opens: "unseal t = Some p" "wire_ok (Map b)" using Cons.prems(3) p(2) item by auto
    have "envelope_decode p = Ok \<lparr>env_message_type = mt, env_session_id = sg_session_id g,
        env_sequence = next_send g, env_body = b\<rparr>"
      using p opens(2) Cons.prems(2) unfolding envelope_decode_iff
      by (simp add: envelope_ok_def del: wire_ok.simps)
    then have first: "open_envelope unseal t = Some \<lparr>env_message_type = mt,
        env_session_id = sg_session_id g, env_sequence = next_send g, env_body = b\<rparr>"
      using opens(1) by (simp add: open_envelope_def)
    have succ: "unat (next_send g1) = unat (next_send g) + 1"
      using g1 by (simp add: unat_word_ariths)
    have "numbered unseal (sg_session_id g1) (unat (next_send g1)) rest"
      using Cons.IH [OF rest(1)] Cons.prems(2,3) g1 by auto
    then show ?thesis
      using first succ g1 rest(2) by (auto simp: numbered_def nth_Cons split: nat.splits)
  qed
qed

lemma send_run_count:
  "send_run from g items = (g', sent) \<Longrightarrow> next_send g' = next_send g + of_nat (length sent)"
proof (induction items arbitrary: g sent)
  case (Cons item items)
  obtain mt b seal where item: "item = (mt, b, seal)" by (cases item)
  obtain g1 r where step: "seal_next from seal mt b g = (g1, r)" by force
  show ?case
  proof (cases r)
    case (Ok t)
    obtain rest where "send_run from g1 items = (g', rest)" "sent = (t, mt, b) # rest"
      using Cons.prems step Ok item by (auto split: prod.splits)
    then show ?thesis
      using Cons.IH step [unfolded Ok seal_next_Ok] by simp
  next
    case (Err x)
    then show ?thesis using Cons step seal_next_Err [of "from" seal mt b g g1 x] item by auto
  qed
qed simp

lemma accept_numbered:
  assumes "numbered unseal sid 0 sent" "t \<in> fst ` set sent" "open_envelope unseal t = Some e"
    and "sg_session_id g = sid" "next_receive g = of_nat k" "k \<le> length sent"
  shows "case accept_incoming e g of
      (g', Ok _) \<Rightarrow> k < length sent \<and> g' = g\<lparr>next_receive := of_nat (Suc k)\<rparr> \<and>
                    snd (sent ! k) = (env_message_type e, env_body e)
    | (g', Err _) \<Rightarrow> g' = g"
proof -
  obtain i where i: "i < length sent" "t = fst (sent ! i)"
    using assms(2) by (auto simp: in_set_conv_nth)
  have e: "env_sequence e = of_nat i" "snd (sent ! i) = (env_message_type e, env_body e)"
      "env_session_id e = sid" and small: "length sent < 2 ^ 64"
    using assms(1,3) i by (cases "sent ! i"; fastforce simp: numbered_def)+
  have "k = i" if "env_sequence e = next_receive g"
    using arg_cong [OF that, of unat] e(1) assms(5,6) i(1) small by simp
  then show ?thesis
    using e i assms(4,5) small
    by (auto simp: accept_incoming_def checked_add_def add.commute split: if_splits)
qed

lemma receive_run_prefix:
  assumes "numbered unseal sid 0 sent" "set delivered \<subseteq> fst ` set sent"
    and "sg_session_id g = sid" "next_receive g = of_nat k" "k \<le> length sent"
    and "receive_run unseal g delivered = (g', got)"
  shows "got = map snd (take (length got) (drop k sent))"
  using assms(2-)
proof (induction delivered arbitrary: g k got)
  case (Cons t ts)
  show ?case
  proof (cases "open_envelope unseal t")
    case None
    then show ?thesis using Cons by simp
  next
    case (Some e)
    obtain g1 r where step: "accept_incoming e g = (g1, r)" by force
    have accept: "case r of Ok _ \<Rightarrow> k < length sent \<and> g1 = g\<lparr>next_receive := of_nat (Suc k)\<rparr> \<and>
        snd (sent ! k) = (env_message_type e, env_body e) | Err _ \<Rightarrow> g1 = g"
      using accept_numbered [OF assms(1) _ Some Cons.prems(2-4)] Cons.prems(1) step
      by (auto split: result.splits)
    show ?thesis
    proof (cases r)
      case (Err x)
      then show ?thesis using Cons Some step accept by simp
    next
      case (Ok u)
      obtain rest where rest: "receive_run unseal g1 ts = (g', rest)"
          "got = (env_message_type e, env_body e) # rest"
        using Cons.prems(5) Some step Ok by (auto split: prod.splits)
      have "rest = map snd (take (length rest) (drop (Suc k) sent))"
        using Cons.IH [of g1 "Suc k" rest] accept Ok Cons.prems(1-4) rest(1)
        by (simp del: of_nat_Suc)
      then show ?thesis
        using accept Ok rest(2) by (simp add: Cons_nth_drop_Suc [symmetric])
    qed
  qed
qed simp

lemma receive_run_all:
  assumes "numbered unseal sid 0 sent" "sg_session_id g = sid" "next_receive g = of_nat k"
    and "k \<le> length sent"
  shows "receive_run unseal g (map fst (drop k sent)) =
           (g\<lparr>next_receive := of_nat (length sent)\<rparr>, map snd (drop k sent))"
  using assms(2-)
proof (induction "length sent - k" arbitrary: g k)
  case (Suc n)
  then have k: "k < length sent" by simp
  obtain t mt b where item: "sent ! k = (t, mt, b)" by (cases "sent ! k")
  let ?e = "\<lparr>env_message_type = mt, env_session_id = sid, env_sequence = of_nat k, env_body = b\<rparr>"
  have "open_envelope unseal t = Some ?e" "length sent < 2 ^ 64"
    using assms(1) k item by (fastforce simp: numbered_def)+
  moreover from this have "accept_incoming ?e g = (g\<lparr>next_receive := of_nat (Suc k)\<rparr>, Ok ())"
    using k Suc.prems by (simp add: accept_incoming_def checked_add_def add.commute)
  moreover have "receive_run unseal (g\<lparr>next_receive := of_nat (Suc k)\<rparr>) (map fst (drop (Suc k) sent)) =
      (g\<lparr>next_receive := of_nat (length sent)\<rparr>, map snd (drop (Suc k) sent))"
    using Suc.hyps(1) [of "Suc k" "g\<lparr>next_receive := of_nat (Suc k)\<rparr>"] Suc.hyps(2) Suc.prems k by simp
  ultimately show ?case
    using k item by (simp add: Cons_nth_drop_Suc [symmetric] del: of_nat_Suc)
qed simp

section \<open>A run of three messages\<close>

definition hello_items :: "(bytes, WireError) sending list" where
  "hello_items =
     [(SessionHello, [(str ''display_name'', Text (str ''a''))], Ok),
      (LivenessPing, [(str ''challenge'', Bytes (replicate 32 7))], \<lambda>_. Err Truncated),
      (SessionClose, [(str ''reason'', Text (str ''normal''))], Ok)]"

lemma encode_value_eval:
  "encode_value d (Unsigned v) = (if d > 8 then Err NestingTooDeep else Ok (encode_argument 0 v))"
  "encode_value d (Bytes bs) =
     (if d > 8 then Err NestingTooDeep else Ok (encode_argument 2 (of_nat (length bs)) @ bs))"
  "encode_value d (Text t) = (if d > 8 then Err NestingTooDeep else encode_text t)"
  "encode_value d (Array vs) =
     (if d > 8 then Err NestingTooDeep
      else and_then (encode_values (d + 1) vs) (\<lambda>out. Ok (encode_argument 4 (of_nat (length vs)) @ out)))"
  "encode_value d (Map m) =
     (if d > 8 then Err NestingTooDeep
      else and_then (write_entries (encode_entries (d + 1) m))
        (\<lambda>out. Ok (encode_argument 5 (of_nat (length m)) @ out)))"
  by (simp_all add: encode_value.simps [of d] MAX_NESTING_DEPTH_def)

lemma hello_items_sent:
  "map snd (snd (send_run id (guard_new (SessionId (replicate 16 1))) hello_items)) =
     [(SessionHello, [(str ''display_name'', Text (str ''a''))]),
      (SessionClose, [(str ''reason'', Text (str ''normal''))])]"
  by (simp add: hello_items_def seal_next_def guard_new_def checked_add_def envelope_reconstruct_def
      validate_body_def validate_field_def body_text_def close_reason_names_def
      envelope_encode_def envelope_map_eq encode_deterministic_cbor_def write_entries_def
      version_value_eq encode_text_def MAX_TEXT_SIZE_def str_def key_order_def encode_argument_def
      MAX_FRAME_PLAINTEXT_def encode_value_eval)

section \<open>Properties\<close>

text \<open>
  Property C6. The envelope codec is exact: the decoder accepts a byte string with an envelope
  exactly when the envelope is one the types allow with a body that meets its message's schema,
  and the byte string is what the encoder produces for it. So whatever the encoder emits decodes
  to the same envelope, and no second byte string does.
\<close>
theorem envelope_exact:
  "envelope_decode bs = Ok e \<longleftrightarrow> envelope_ok e \<and> envelope_encode e = Ok bs"
  by (rule envelope_decode_iff)

text \<open>
  Property C5. A channel delivers messages in order, once each. Take any sequence of messages a
  guard is asked to send, with sealing failures at any point, where a sealed message opens to what
  was sealed. Whatever of the sealed messages is delivered to the peer's guard, in any order and
  with any repetitions or losses, the messages accepted are an initial piece of those sent, in
  their order. Delivered as sent, all of them are accepted, and the peer then expects exactly the
  sender's next number.
\<close>
theorem channel_in_order:
  assumes "length sid = SESSION_ID_SIZE"
    and "\<forall>(mt, b, seal)\<in>set items. wire_ok (Map b) \<and> (\<forall>p t. seal p = Ok t \<longrightarrow> unseal t = Some p)"
    and "send_run from (guard_new (SessionId sid)) items = (g, sent)"
  shows "(set delivered \<subseteq> fst ` set sent \<longrightarrow>
       (\<exists>n. snd (receive_run unseal (guard_new (SessionId sid)) delivered) = map snd (take n sent))) \<and>
     receive_run unseal (guard_new (SessionId sid)) (map fst sent) =
       ((guard_new (SessionId sid))\<lparr>next_receive := next_send g\<rparr>, map snd sent)"
proof (intro conjI impI)
  have n: "numbered unseal (SessionId sid) 0 sent"
    using send_run_numbered [OF assms(3) _ assms(2)] assms(1) by (simp add: guard_new_def)
  {
    assume some: "set delivered \<subseteq> fst ` set sent"
    obtain g' got where run: "receive_run unseal (guard_new (SessionId sid)) delivered = (g', got)"
      by force
    have "got = map snd (take (length got) (drop 0 sent))"
      by (rule receive_run_prefix [OF n some _ _ _ run]) (simp_all add: guard_new_def)
    then show "\<exists>n. snd (receive_run unseal (guard_new (SessionId sid)) delivered) =
        map snd (take n sent)"
      using run by auto
  }
  show "receive_run unseal (guard_new (SessionId sid)) (map fst sent) =
      ((guard_new (SessionId sid))\<lparr>next_receive := next_send g\<rparr>, map snd sent)"
    using receive_run_all [OF n, of "guard_new (SessionId sid)" 0] send_run_count [OF assms(3)]
    by (simp add: guard_new_def)
qed

theorem channel_in_order_witness:
  "\<exists>g sent. send_run id (guard_new (SessionId (replicate 16 1))) hello_items = (g, sent) \<and>
     map snd sent = [(SessionHello, [(str ''display_name'', Text (str ''a''))]),
                     (SessionClose, [(str ''reason'', Text (str ''normal''))])] \<and>
     snd (receive_run Some (guard_new (SessionId (replicate 16 1))) (map fst sent)) = map snd sent"
proof -
  obtain g sent where run: "send_run id (guard_new (SessionId (replicate 16 1))) hello_items = (g, sent)"
    by force
  have items: "\<forall>(mt, b, seal)\<in>set hello_items.
      wire_ok (Map b) \<and> (\<forall>p t. seal p = Ok t \<longrightarrow> Some t = Some p)"
    by (simp add: hello_items_def btree_ok_def str_def)
  have "length (replicate 16 1 :: bytes) = SESSION_ID_SIZE" by (simp add: SESSION_ID_SIZE_def)
  then show ?thesis
    using channel_in_order [OF _ items run, of "map fst sent"] run hello_items_sent by auto
qed

end
