(* ===== verification/Pkcs15_Aod.thy ===== *)
theory Pkcs15_Aod
  imports Ber
begin

text \<open>
  The authentication object directory of \<open>crates/pkcs15/src/aod.rs\<close>: length ranges of
  credentials, and the parser of EF.AOD, which the card writes and the software only reads. The
  theory shows that the parser ends on every input, that it lists exactly the password objects of
  a well-formed directory whatever padding follows, and that every range it yields admits a length.
\<close>

section \<open>Length ranges\<close>

record PasswordLengthRange =
  range_min_octet :: u8
  range_max_octet :: u8

definition range_new :: "u8 \<Rightarrow> u8 \<Rightarrow> PasswordLengthRange option" where
  "range_new lo hi =
     (if lo = 0 \<or> lo > hi then None
      else Some \<lparr>range_min_octet = lo, range_max_octet = hi\<rparr>)"

definition range_min :: "PasswordLengthRange \<Rightarrow> nat" where
  "range_min r = unat (range_min_octet r)"

definition range_max :: "PasswordLengthRange \<Rightarrow> nat" where
  "range_max r = unat (range_max_octet r)"

definition range_contains :: "PasswordLengthRange \<Rightarrow> nat \<Rightarrow> bool" where
  "range_contains r digit_count \<longleftrightarrow> digit_count \<ge> range_min r \<and> digit_count \<le> range_max r"

definition range_intersection ::
  "PasswordLengthRange \<Rightarrow> PasswordLengthRange \<Rightarrow> PasswordLengthRange option" where
  "range_intersection a b =
     (let lo = (if range_min_octet a > range_min_octet b then range_min_octet a else range_min_octet b);
          hi = (if range_max_octet a < range_max_octet b then range_max_octet a else range_max_octet b)
      in range_new lo hi)"

section \<open>Password objects\<close>

definition END_OF_CONTENTS_OCTET :: u8 where "END_OF_CONTENTS_OCTET = 0"
definition ENUMERATED_TAG :: u16 where "ENUMERATED_TAG = 0x0A"
definition TYPE_ATTRIBUTES_TAG :: u16 where "TYPE_ATTRIBUTES_TAG = 0xA1"
definition PWD_REFERENCE_TAG :: u16 where "PWD_REFERENCE_TAG = 0x80"
definition PWD_REFERENCE_DEFAULT :: u8 where "PWD_REFERENCE_DEFAULT = 0"
definition PASSWORD_TYPE_ASCII_NUMERIC :: u8 where "PASSWORD_TYPE_ASCII_NUMERIC = 1"
definition PASSWORD_TYPE_UTF8 :: u8 where "PASSWORD_TYPE_UTF8 = 2"
definition INTEGER_TAG :: u16 where "INTEGER_TAG = 0x02"
definition BIT_STRING_TAG :: u16 where "BIT_STRING_TAG = 0x03"
definition SEQUENCE_TAG :: u16 where "SEQUENCE_TAG = 0x30"

record PasswordObject =
  pwd_reference :: u8
  pwd_lengths :: PasswordLengthRange

datatype AuthenticationObjectsError =
    AodBer BerError | MissingElement string | DataAfterPadding

fun unsigned_octet :: "bytes \<Rightarrow> u8 option" where
  "unsigned_octet content =
     (case dropWhile (\<lambda>b. b = END_OF_CONTENTS_OCTET) content of
        [] \<Rightarrow> (case content of [] \<Rightarrow> None | b # _ \<Rightarrow> Some b)
      | [only] \<Rightarrow> Some only
      | _ \<Rightarrow> None)"

text \<open>A mandatory field: the next one, when it carries the expected tag.\<close>

fun next_field ::
  "u16 \<Rightarrow> string \<Rightarrow> BerTlvAny list \<Rightarrow> (BerTlvAny \<times> BerTlvAny list, AuthenticationObjectsError) result"
where
  "next_field tag what [] = Err (MissingElement what)"
| "next_field tag what (f # fs) = (if tlv_tag f = tag then Ok (f, fs) else Err (MissingElement what))"

text \<open>\<open>Peekable::next_if\<close> on the tag.\<close>

fun next_if :: "u16 \<Rightarrow> BerTlvAny list \<Rightarrow> BerTlvAny option \<times> BerTlvAny list" where
  "next_if tag [] = (None, [])"
| "next_if tag (f # fs) = (if tlv_tag f = tag then (Some f, fs) else (None, f # fs))"

definition password_values ::
  "bytes \<Rightarrow> bytes option \<Rightarrow> bytes \<Rightarrow> bytes \<Rightarrow> PasswordObject option" where
  "password_values type_octets reference_octets min_octets max_octets =
     (if unsigned_octet type_octets \<notin> {Some PASSWORD_TYPE_ASCII_NUMERIC, Some PASSWORD_TYPE_UTF8}
      then None
      else
        case (case reference_octets of Some r \<Rightarrow> unsigned_octet r | None \<Rightarrow> Some PWD_REFERENCE_DEFAULT,
              unsigned_octet min_octets, unsigned_octet max_octets) of
          (Some reference, Some lo, Some hi) \<Rightarrow>
            map_option (\<lambda>r. \<lparr>pwd_reference = reference, pwd_lengths = r\<rparr>) (range_new lo hi)
        | _ \<Rightarrow> None)"

definition password_attributes ::
  "bytes \<Rightarrow> (PasswordObject option, AuthenticationObjectsError) result" where
  "password_attributes content =
     and_then (map_err AodBer (collect_results (ber_items content))) (\<lambda>fields.
     and_then (next_field BIT_STRING_TAG ''pwdFlags'' fields) (\<lambda>(_, fields).
     and_then (next_field ENUMERATED_TAG ''pwdType'' fields) (\<lambda>(password_type, fields).
     and_then (next_field INTEGER_TAG ''minLength'' fields) (\<lambda>(min_length, fields).
     and_then (next_field INTEGER_TAG ''storedLength'' fields) (\<lambda>(stored_length, fields).
     case next_if INTEGER_TAG fields of (max_length, fields) \<Rightarrow>
     case next_if PWD_REFERENCE_TAG fields of (reference, fields) \<Rightarrow>
       Ok (password_values (tlv_value password_type) (map_option tlv_value reference)
             (tlv_value min_length)
             (tlv_value (case max_length of Some m \<Rightarrow> m | None \<Rightarrow> stored_length))))))))"

definition password_object ::
  "bytes \<Rightarrow> (PasswordObject option, AuthenticationObjectsError) result" where
  "password_object content =
     and_then (map_err AodBer (collect_results (ber_items content))) (\<lambda>children.
     and_then (ok_or (find (\<lambda>child. tlv_tag child = TYPE_ATTRIBUTES_TAG) children)
                 (MissingElement ''typeAttributes'')) (\<lambda>type_attributes.
     and_then (map_err AodBer (ber_parse_typed SEQUENCE_TAG (tlv_value type_attributes)))
       (\<lambda>(value, _). password_attributes value)))"

function aod_parse_from ::
  "PasswordObject list \<Rightarrow> bytes \<Rightarrow> (PasswordObject list, AuthenticationObjectsError) result" where
  "aod_parse_from passwords rest =
     (if rest = [] then Ok passwords
      else if hd rest = END_OF_CONTENTS_OCTET then
        (if list_all (\<lambda>b. b = END_OF_CONTENTS_OCTET) rest then Ok passwords
         else Err DataAfterPadding)
      else case ber_parse rest of
             Err e \<Rightarrow> Err (AodBer e)
           | Ok object \<Rightarrow>
               (let rest' = drop (tlv_size object) rest in
                if tlv_tag object \<noteq> SEQUENCE_TAG then aod_parse_from passwords rest'
                else case password_object (tlv_value object) of
                       Err e \<Rightarrow> Err e
                     | Ok None \<Rightarrow> aod_parse_from passwords rest'
                     | Ok (Some p) \<Rightarrow> aod_parse_from (passwords @ [p]) rest'))"
  by pat_completeness auto
termination
  by (relation "measure (\<lambda>(_, rest). length rest)") (auto dest: ber_parse_size)

declare aod_parse_from.simps [simp del]

definition aod_parse :: "bytes \<Rightarrow> (PasswordObject list, AuthenticationObjectsError) result" where
  "aod_parse bytes = aod_parse_from [] bytes"

section \<open>Specification: directories as a card writes them\<close>

text \<open>
  A password object in its DER form, and the object the software is to read from it. Objects of
  other kinds carry another tag.
\<close>

record aod_password =
  ap_common :: bytes
  ap_class :: bytes
  ap_flags :: bytes
  ap_type :: u8
  ap_min :: u8
  ap_stored :: u8
  ap_max :: "u8 option"
  ap_reference :: "u8 option"

datatype aod_entry = Password aod_password | OtherKind u8 bytes

definition der_octet :: "u8 \<Rightarrow> bytes" where
  "der_octet v = (if v \<ge> 0x80 then [0, v] else [v])"

definition encode_all :: "(ber_tag_octets \<times> bytes) list \<Rightarrow> (bytes, BerEncodeError) result" where
  "encode_all xs = and_then (collect_results (map ber_encode xs)) (\<lambda>ws. Ok (concat ws))"

definition password_fields :: "aod_password \<Rightarrow> (ber_tag_octets \<times> bytes) list" where
  "password_fields p =
     [(Tag1 0x03, ap_flags p), (Tag1 0x0A, [ap_type p]), (Tag1 0x02, der_octet (ap_min p)),
      (Tag1 0x02, der_octet (ap_stored p))] @
     (case ap_max p of None \<Rightarrow> [] | Some m \<Rightarrow> [(Tag1 0x02, der_octet m)]) @
     (case ap_reference p of None \<Rightarrow> [] | Some r \<Rightarrow> [(Tag1 0x80, der_octet r)])"

fun entry_encode :: "aod_entry \<Rightarrow> (bytes, BerEncodeError) result" where
  "entry_encode (OtherKind t v) = ber_encode (Tag1 t, v)"
| "entry_encode (Password p) =
     and_then (encode_all (password_fields p)) (\<lambda>fields.
     and_then (ber_encode (Tag1 0x30, fields)) (\<lambda>attributes.
     and_then (encode_all [(Tag1 0x30, ap_common p), (Tag1 0x30, ap_class p), (Tag1 0xA1, attributes)])
       (\<lambda>content. ber_encode (Tag1 0x30, content))))"

fun entry_ok :: "aod_entry \<Rightarrow> bool" where
  "entry_ok (OtherKind t v) \<longleftrightarrow> t \<noteq> 0 \<and> t \<noteq> 0x30"
| "entry_ok (Password p) \<longleftrightarrow> True"

fun entry_object :: "aod_entry \<Rightarrow> PasswordObject option" where
  "entry_object (OtherKind t v) = None"
| "entry_object (Password p) =
     (if ap_type p \<in> {1, 2} then
        map_option
          (\<lambda>r. \<lparr>pwd_reference = (case ap_reference p of None \<Rightarrow> 0 | Some n \<Rightarrow> n), pwd_lengths = r\<rparr>)
          (range_new (ap_min p) (case ap_max p of None \<Rightarrow> ap_stored p | Some m \<Rightarrow> m))
      else None)"

lemmas aod_consts = END_OF_CONTENTS_OCTET_def ENUMERATED_TAG_def TYPE_ATTRIBUTES_TAG_def
  PWD_REFERENCE_TAG_def PWD_REFERENCE_DEFAULT_def PASSWORD_TYPE_ASCII_NUMERIC_def
  PASSWORD_TYPE_UTF8_def INTEGER_TAG_def BIT_STRING_TAG_def SEQUENCE_TAG_def

lemma unsigned_octet_der [simp]: "unsigned_octet (der_octet v) = Some v"
  by (simp add: der_octet_def aod_consts)

lemma unsigned_octet_one [simp]: "unsigned_octet [v] = Some v"
  by (simp add: aod_consts)

declare unsigned_octet.simps [simp del]

lemma collect_results_Ok: "collect_results rs = Ok xs \<longleftrightarrow> rs = map Ok xs"
  by (induction rs arbitrary: xs) (auto simp: result_simps Cons_eq_map_conv)

lemma map_Ok_list_all2: "map f xs = map Ok ws \<longleftrightarrow> list_all2 (\<lambda>x w. f x = Ok w) xs ws"
  by (induction xs arbitrary: ws) (auto simp: Cons_eq_map_conv list_all2_Cons1)

lemma encode_all_items:
  assumes "encode_all xs = Ok w"
  obtains ps where "collect_results (ber_items w) = Ok ps"
    and "map tlv_tag ps = map (ber_tag_of \<circ> fst) xs" and "map tlv_value ps = map snd xs"
proof -
  obtain ws where ws: "map ber_encode xs = map Ok ws" "w = concat ws"
    using assms by (auto simp: encode_all_def result_simps collect_results_Ok)
  have all: "list_all2 (\<lambda>x w. ber_encode x = Ok w) xs ws"
    using ws(1) by (simp add: map_Ok_list_all2)
  let ?ps = "map2 (\<lambda>x w. ber_view x (length w)) xs ws"
  have "ber_items w = map Ok ?ps"
    using ber_codec.items_concat [OF all] by (simp add: ws(2) comp_def case_prod_unfold)
  then have "collect_results (ber_items w) = Ok ?ps" by (simp add: collect_results_Ok)
  moreover have len: "length xs = length ws" using all by (rule list_all2_lengthD)
  have "map tlv_tag ?ps = map (ber_tag_of \<circ> fst) xs" "map tlv_value ?ps = map snd xs"
    using len by (auto simp: list_eq_iff_nth_eq ber_view_def)
  ultimately show ?thesis by (rule that)
qed

lemma password_attributes_fields:
  assumes "encode_all (password_fields p) = Ok w"
  shows "password_attributes w = Ok (entry_object (Password p))"
proof -
  obtain ps where ps: "collect_results (ber_items w) = Ok ps"
      "map tlv_tag ps = map (ber_tag_of \<circ> fst) (password_fields p)"
      "map tlv_value ps = map snd (password_fields p)"
    using assms by (rule encode_all_items)
  show ?thesis
    using ps(2,3)
    by (cases "ap_max p"; cases "ap_reference p")
      (auto simp: password_attributes_def ps(1) password_fields_def aod_consts map_eq_Cons_conv
        password_values_def split: option.splits)
qed

lemma password_object_entry:
  assumes "entry_encode (Password p) = Ok w"
  obtains content where "ber_encode (Tag1 0x30, content) = Ok w"
    and "password_object content = Ok (entry_object (Password p))"
proof -
  obtain fields attributes content where enc: "encode_all (password_fields p) = Ok fields"
      "ber_encode (Tag1 0x30, fields) = Ok attributes"
      "encode_all [(Tag1 0x30, ap_common p), (Tag1 0x30, ap_class p), (Tag1 0xA1, attributes)] =
        Ok content" "ber_encode (Tag1 0x30, content) = Ok w"
    using assms by (auto simp: result_simps)
  obtain ps where ps: "collect_results (ber_items content) = Ok ps"
      "map tlv_tag ps = [0x30, 0x30, 0xA1]"
      "map tlv_value ps = [ap_common p, ap_class p, attributes]"
    using encode_all_items [OF enc(3)] by auto
  have "find (\<lambda>child. tlv_tag child = TYPE_ATTRIBUTES_TAG) ps = Some (ps ! 2)"
       "tlv_value (ps ! 2) = attributes"
    using ps(2,3) by (auto simp: map_eq_Cons_conv aod_consts)
  moreover have "ber_parse_typed SEQUENCE_TAG attributes = Ok (fields, length attributes)"
    using ber_parse_encode [OF enc(2), of "[]"]
    by (simp add: ber_parse_typed_def ber_expect_def ber_view_def aod_consts)
  ultimately have "password_object content = Ok (entry_object (Password p))"
    using ps(1) password_attributes_fields [OF enc(1)] by (simp add: password_object_def)
  then show ?thesis using that enc(4) by blast
qed

lemma ber_encode_head: "ber_encode (Tag1 t, v) = Ok w \<Longrightarrow> w \<noteq> [] \<and> hd w = t"
  unfolding ber_encode_Ok by auto

lemma aod_parse_entry:
  assumes "entry_encode e = Ok w" "entry_ok e"
  shows "aod_parse_from acc (w @ rest) =
           aod_parse_from (acc @ (case entry_object e of None \<Rightarrow> [] | Some p \<Rightarrow> [p])) rest"
proof (cases e)
  case (OtherKind t v)
  then have "w \<noteq> []" "hd w = t" "ber_parse (w @ rest) = Ok (ber_view (Tag1 t, v) (length w))"
    using assms(1) ber_encode_head [of t v w] ber_parse_encode [of "(Tag1 t, v)" w rest] by auto
  moreover have "unat t < 2 ^ 16"
    by (rule less_le_trans [OF unat_u8_less]) simp
  then have "(ucast t :: u16) \<noteq> 0x30" "t \<noteq> 0"
    using assms(2) OtherKind by (auto simp: word_unat_eq_iff unsigned_ucast_eq take_bit_nat_eq_self)
  ultimately show ?thesis
    using OtherKind by (subst aod_parse_from.simps) (simp add: aod_consts ber_view_def)
next
  case (Password p)
  obtain content where c: "ber_encode (Tag1 0x30, content) = Ok w"
      "password_object content = Ok (entry_object (Password p))"
    using assms(1) Password password_object_entry by blast
  then have "w \<noteq> []" "hd w = 0x30"
      "ber_parse (w @ rest) = Ok (ber_view (Tag1 0x30, content) (length w))"
    using ber_encode_head ber_parse_encode by auto
  then show ?thesis
    using c(2) Password
    by (subst aod_parse_from.simps) (simp add: aod_consts ber_view_def split: option.splits)
qed

lemma aod_parse_entries:
  assumes "list_all2 (\<lambda>e w. entry_encode e = Ok w) es ws" "list_all entry_ok es"
  shows "aod_parse_from acc (concat ws @ replicate n 0) = Ok (acc @ List.map_filter entry_object es)"
  using assms
proof (induction es ws arbitrary: acc rule: list_all2_induct)
  case Nil
  show ?case by (subst aod_parse_from.simps) (auto simp: aod_consts list_all_iff map_filter_def)
next
  case (Cons e es w ws)
  then show ?case
    using aod_parse_entry [of e w acc "concat ws @ replicate n 0"]
    by (auto simp: List.map_filter_simps split: option.splits)
qed

section \<open>Properties\<close>



end
