(* ===== verification/Card_Credentials.thy ===== *)
theory Card_Credentials
  imports Pkcs15_Aod Apdu
begin

text \<open>
  What is decided about a credential before the card is asked: the validated PIN and PUK values of
  \<open>crates/auth/src/credentials.rs\<close>, the statuses of \<open>verify.rs\<close>, the retry floor of
  \<open>retry_risk.rs\<close> and the length rules of \<open>pin_lengths.rs\<close>. The theory shows exactly which
  statuses the floor serves, and that an accepted length always fits the block sent to the card.
\<close>

section \<open>Credential values\<close>

definition PIN_MIN_LENGTH :: nat where "PIN_MIN_LENGTH = 4"
definition FINEID_PIN1_MIN_LENGTH :: nat where "FINEID_PIN1_MIN_LENGTH = 4"
definition FINEID_PIN2_MIN_LENGTH :: nat where "FINEID_PIN2_MIN_LENGTH = 6"
definition PIN_MAX_LENGTH :: nat where "PIN_MAX_LENGTH = 12"
definition PUK_MIN_LENGTH :: nat where "PUK_MIN_LENGTH = 8"
definition PUK_MAX_LENGTH :: nat where "PUK_MAX_LENGTH = 12"

lemmas length_consts = PIN_MIN_LENGTH_def FINEID_PIN1_MIN_LENGTH_def FINEID_PIN2_MIN_LENGTH_def
  PIN_MAX_LENGTH_def PUK_MIN_LENGTH_def PUK_MAX_LENGTH_def

datatype CredentialRole = RolePin1 | RolePin2 | RolePuk | RoleActivationCode

datatype CredentialInputError =
    InputEmpty CredentialRole
  | InputWrongLength CredentialRole nat nat
  | NonDigit CredentialRole

record SecretDigits =
  sd_bytes :: bytes
  sd_length :: u8

definition is_ascii_digit :: "u8 \<Rightarrow> bool" where
  "is_ascii_digit b \<longleftrightarrow> 0x30 \<le> b \<and> b \<le> 0x39"

definition digits_reconstruct ::
  "bytes \<Rightarrow> CredentialRole \<Rightarrow> nat \<Rightarrow> nat \<Rightarrow> (SecretDigits, CredentialInputError) result" where
  "digits_reconstruct input role minimum maximum =
     (if input = [] then Err (InputEmpty role)
      else if length input < minimum \<or> length input > maximum
        then Err (InputWrongLength role minimum maximum)
      else if \<exists>b\<in>set input. \<not> is_ascii_digit b then Err (NonDigit role)
      else case u8_try_from (length input) of
             None \<Rightarrow> Err (InputWrongLength role minimum maximum)
           | Some len \<Rightarrow>
               Ok \<lparr>sd_bytes = copy_into (replicate PIN_MAX_LENGTH 0) 0 input, sd_length = len\<rparr>)"

definition digit_count :: "SecretDigits \<Rightarrow> nat" where
  "digit_count d = unat (sd_length d)"

definition secret_bytes :: "SecretDigits \<Rightarrow> bytes" where
  "secret_bytes d = take (digit_count d) (sd_bytes d)"

datatype Pin1 = Pin1 SecretDigits
datatype Pin2 = Pin2 SecretDigits
datatype Puk = Puk SecretDigits

definition pin1_reconstruct :: "bytes \<Rightarrow> (Pin1, CredentialInputError) result" where
  "pin1_reconstruct input =
     and_then (digits_reconstruct input RolePin1 PIN_MIN_LENGTH PIN_MAX_LENGTH) (\<lambda>d. Ok (Pin1 d))"

definition pin2_reconstruct :: "bytes \<Rightarrow> (Pin2, CredentialInputError) result" where
  "pin2_reconstruct input =
     and_then (digits_reconstruct input RolePin2 PIN_MIN_LENGTH PIN_MAX_LENGTH) (\<lambda>d. Ok (Pin2 d))"

definition puk_reconstruct :: "bytes \<Rightarrow> (Puk, CredentialInputError) result" where
  "puk_reconstruct input =
     and_then (digits_reconstruct input RolePuk PUK_MIN_LENGTH PUK_MAX_LENGTH) (\<lambda>d. Ok (Puk d))"

primrec pin1_digits :: "Pin1 \<Rightarrow> bytes" where "pin1_digits (Pin1 d) = secret_bytes d"
primrec pin2_digits :: "Pin2 \<Rightarrow> bytes" where "pin2_digits (Pin2 d) = secret_bytes d"
primrec puk_digits :: "Puk \<Rightarrow> bytes" where "puk_digits (Puk d) = secret_bytes d"

primrec pin1_digit_count :: "Pin1 \<Rightarrow> nat" where "pin1_digit_count (Pin1 d) = digit_count d"
primrec pin2_digit_count :: "Pin2 \<Rightarrow> nat" where "pin2_digit_count (Pin2 d) = digit_count d"
primrec puk_digit_count :: "Puk \<Rightarrow> nat" where "puk_digit_count (Puk d) = digit_count d"

section \<open>Slots, numberings and statuses\<close>

definition PIN1_REFERENCE :: u8 where "PIN1_REFERENCE = 0x11"
definition PIN2_REFERENCE :: u8 where "PIN2_REFERENCE = 0x82"
definition PIN1_REFERENCE_ORGANIZATIONAL :: u8 where "PIN1_REFERENCE_ORGANIZATIONAL = 0x03"
definition PIN2_REFERENCE_ORGANIZATIONAL :: u8 where "PIN2_REFERENCE_ORGANIZATIONAL = 0x04"
definition PUK_REFERENCE :: u8 where "PUK_REFERENCE = 0x83"
definition PUK_REFERENCE_ORGANIZATIONAL :: u8 where "PUK_REFERENCE_ORGANIZATIONAL = 0x12"

lemmas reference_consts = PIN1_REFERENCE_def PIN2_REFERENCE_def PIN1_REFERENCE_ORGANIZATIONAL_def
  PIN2_REFERENCE_ORGANIZATIONAL_def PUK_REFERENCE_def PUK_REFERENCE_ORGANIZATIONAL_def

datatype PinSlot = SlotPin1 | SlotPin2
datatype PinReferenceScheme = Citizen | Organizational

fun scheme_reference :: "PinReferenceScheme \<Rightarrow> PinSlot \<Rightarrow> u8" where
  "scheme_reference Citizen SlotPin1 = PIN1_REFERENCE"
| "scheme_reference Citizen SlotPin2 = PIN2_REFERENCE"
| "scheme_reference Organizational SlotPin1 = PIN1_REFERENCE_ORGANIZATIONAL"
| "scheme_reference Organizational SlotPin2 = PIN2_REFERENCE_ORGANIZATIONAL"

fun puk_reference :: "PinReferenceScheme \<Rightarrow> u8" where
  "puk_reference Citizen = PUK_REFERENCE"
| "puk_reference Organizational = PUK_REFERENCE_ORGANIZATIONAL"

datatype VerifyOutcome = VerifyOk | WrongPin PinRetries | VerifyLocked | VerifyOther StatusWord

datatype PinStatus =
    PinVerified | Remaining PinRetries | NoInfo | PinLocked | StatusOther StatusWord

fun classify_verify_sw :: "StatusWord \<Rightarrow> VerifyOutcome" where
  "classify_verify_sw Success = VerifyOk"
| "classify_verify_sw (PinIncorrect retries) = WrongPin retries"
| "classify_verify_sw AuthenticationBlocked = VerifyLocked"
| "classify_verify_sw ReferenceDataInvalidated = VerifyLocked"
| "classify_verify_sw other = VerifyOther other"

fun classify_pin_status_sw :: "StatusWord \<Rightarrow> PinStatus" where
  "classify_pin_status_sw Success = PinVerified"
| "classify_pin_status_sw (PinIncorrect retries) = Remaining retries"
| "classify_pin_status_sw AuthenticationFailed = NoInfo"
| "classify_pin_status_sw AuthenticationBlocked = PinLocked"
| "classify_pin_status_sw ReferenceDataInvalidated = PinLocked"
| "classify_pin_status_sw other = StatusOther other"

section \<open>The retry floor\<close>

datatype FlooredCredential = FlooredPin1 | FlooredPin2 | FlooredPuk

primrec floored_of_slot :: "PinSlot \<Rightarrow> FlooredCredential" where
  "floored_of_slot SlotPin1 = FlooredPin1"
| "floored_of_slot SlotPin2 = FlooredPin2"

definition RETRIES_PRISTINE :: u8 where "RETRIES_PRISTINE = 5"
definition RETRIES_ONE_SPENT :: u8 where "RETRIES_ONE_SPENT = 4"
definition RETRIES_FLOOR :: u8 where "RETRIES_FLOOR = 3"
definition RETRIES_BELOW_FLOOR :: u8 where "RETRIES_BELOW_FLOOR = 2"
definition RETRIES_LOCKDOWN_IMMINENT :: u8 where "RETRIES_LOCKDOWN_IMMINENT = 1"
definition RETRIES_EXHAUSTED :: u8 where "RETRIES_EXHAUSTED = 0"

lemmas retry_consts = RETRIES_PRISTINE_def RETRIES_ONE_SPENT_def RETRIES_FLOOR_def
  RETRIES_BELOW_FLOOR_def RETRIES_LOCKDOWN_IMMINENT_def RETRIES_EXHAUSTED_def

datatype PinRetryRisk =
    NormalOperatingConditions | DisturbanceDetected | SecurityIncidentDeclared
  | CriticalThreatLevel | LockdownImminent | DefencesFallen

definition risk_from_retries :: "PinRetries \<Rightarrow> PinRetryRisk option" where
  "risk_from_retries retries =
     (let n = retries_get retries in
      if n = RETRIES_PRISTINE then Some NormalOperatingConditions
      else if n = RETRIES_ONE_SPENT then Some DisturbanceDetected
      else if n = RETRIES_FLOOR then Some SecurityIncidentDeclared
      else if n = RETRIES_BELOW_FLOOR then Some CriticalThreatLevel
      else if n = RETRIES_LOCKDOWN_IMMINENT then Some LockdownImminent
      else if n = RETRIES_EXHAUSTED then Some DefencesFallen
      else None)"

definition spends_a_last_try :: "PinRetryRisk \<Rightarrow> bool" where
  "spends_a_last_try r \<longleftrightarrow> r \<in> {CriticalThreatLevel, LockdownImminent}"

definition is_above_floor :: "PinRetryRisk \<Rightarrow> bool" where
  "is_above_floor r \<longleftrightarrow>
     r \<in> {NormalOperatingConditions, DisturbanceDetected, SecurityIncidentDeclared}"

definition permits_reusable_cache :: "PinRetryRisk \<Rightarrow> bool" where
  "permits_reusable_cache r \<longleftrightarrow> r = NormalOperatingConditions"

datatype RetryFloorRefusal =
    TriesBelowFloor FlooredCredential PinRetries
  | FloorBlocked FlooredCredential
  | CounterUnreadable FlooredCredential

fun check_last_tries ::
  "FlooredCredential \<Rightarrow> PinStatus \<Rightarrow> (unit, RetryFloorRefusal) result" where
  "check_last_tries credential (Remaining n) =
     (case risk_from_retries n of
        Some risk \<Rightarrow> if spends_a_last_try risk then Err (TriesBelowFloor credential n) else Ok ()
      | None \<Rightarrow> Err (CounterUnreadable credential))"
| "check_last_tries credential PinVerified = Ok ()"
| "check_last_tries credential PinLocked = Ok ()"
| "check_last_tries credential NoInfo = Err (CounterUnreadable credential)"
| "check_last_tries credential (StatusOther _) = Err (CounterUnreadable credential)"

fun check_pin_floor ::
  "FlooredCredential \<Rightarrow> PinStatus \<Rightarrow> (unit, RetryFloorRefusal) result" where
  "check_pin_floor credential PinVerified = Ok ()"
| "check_pin_floor credential (Remaining n) =
     (case risk_from_retries n of
        Some risk \<Rightarrow> if is_above_floor risk then Ok () else Err (TriesBelowFloor credential n)
      | None \<Rightarrow> Err (CounterUnreadable credential))"
| "check_pin_floor credential PinLocked = Err (FloorBlocked credential)"
| "check_pin_floor credential NoInfo = Err (CounterUnreadable credential)"
| "check_pin_floor credential (StatusOther _) = Err (CounterUnreadable credential)"

definition check_retry_floor ::
  "FlooredCredential \<Rightarrow> PinStatus \<Rightarrow> (unit, RetryFloorRefusal) result" where
  "check_retry_floor credential status =
     (case credential of
        FlooredPuk \<Rightarrow>
          if status = PinVerified then Err (CounterUnreadable credential)
          else check_last_tries credential status
      | _ \<Rightarrow> check_pin_floor credential status)"

fun pin1_status_permits_reusable_cache :: "PinStatus \<Rightarrow> bool" where
  "pin1_status_permits_reusable_cache PinVerified = True"
| "pin1_status_permits_reusable_cache (Remaining n) =
     (case risk_from_retries n of Some risk \<Rightarrow> permits_reusable_cache risk | None \<Rightarrow> False)"
| "pin1_status_permits_reusable_cache _ = False"

section \<open>Accepted lengths\<close>

definition SPECIFIC_REFERENCE_BIT :: u8 where "SPECIFIC_REFERENCE_BIT = 0x80"

datatype CardLengthSource = AuthenticationObjectDirectory | PinPolicy
datatype ListedLength = Listed PasswordLengthRange CardLengthSource | NotListed

record CredentialLengths =
  cl_listed :: ListedLength
  cl_accepted :: "PasswordLengthRange option"

datatype PinLengthRefusal =
    OutsideAcceptedRange CredentialRole PasswordLengthRange
  | NoAcceptedLength CredentialRole

definition credential_lengths_new ::
  "ListedLength \<Rightarrow> PasswordLengthRange \<Rightarrow> PasswordLengthRange \<Rightarrow> CredentialLengths" where
  "credential_lengths_new listed capacity fallback =
     \<lparr>cl_listed = listed,
      cl_accepted = (case listed of Listed r _ \<Rightarrow> range_intersection r capacity
                     | NotListed \<Rightarrow> Some fallback)\<rparr>"

definition lengths_check ::
  "CredentialLengths \<Rightarrow> CredentialRole \<Rightarrow> nat \<Rightarrow> (unit, PinLengthRefusal) result" where
  "lengths_check l role count =
     (case cl_accepted l of
        Some r \<Rightarrow> if range_contains r count then Ok () else Err (OutsideAcceptedRange role r)
      | None \<Rightarrow> Err (NoAcceptedLength role))"

record CardPinLengths =
  numbering :: PinReferenceScheme
  lengths_pin1 :: CredentialLengths
  lengths_pin2 :: CredentialLengths
  lengths_puk :: CredentialLengths

definition length_range :: "nat \<Rightarrow> nat \<Rightarrow> PasswordLengthRange" where
  "length_range lo hi = the (range_new (of_nat lo) (of_nat hi))"

definition PIN_CAPACITY :: PasswordLengthRange where
  "PIN_CAPACITY = length_range PIN_MIN_LENGTH PIN_MAX_LENGTH"
definition PUK_CAPACITY :: PasswordLengthRange where
  "PUK_CAPACITY = length_range PUK_MIN_LENGTH PUK_MAX_LENGTH"
definition FINEID_PIN1_BOUNDS :: PasswordLengthRange where
  "FINEID_PIN1_BOUNDS = length_range FINEID_PIN1_MIN_LENGTH PIN_MAX_LENGTH"
definition FINEID_PIN2_BOUNDS :: PasswordLengthRange where
  "FINEID_PIN2_BOUNDS = length_range FINEID_PIN2_MIN_LENGTH PIN_MAX_LENGTH"
definition FINEID_PUK_BOUNDS :: PasswordLengthRange where
  "FINEID_PUK_BOUNDS = PUK_CAPACITY"

definition names :: "u8 \<Rightarrow> u8 \<Rightarrow> bool" where
  "names listed wanted \<longleftrightarrow> listed OR SPECIFIC_REFERENCE_BIT = wanted OR SPECIFIC_REFERENCE_BIT"

definition directory_range :: "PasswordObject list \<Rightarrow> u8 \<Rightarrow> PasswordLengthRange option" where
  "directory_range objects wanted =
     (case filter (\<lambda>p. names (pwd_reference p) wanted) objects of
        [p] \<Rightarrow> Some (pwd_lengths p)
      | _ \<Rightarrow> None)"

definition from_listed ::
  "PinReferenceScheme \<Rightarrow> ListedLength \<Rightarrow> ListedLength \<Rightarrow> ListedLength \<Rightarrow> CardPinLengths" where
  "from_listed n pin1 pin2 puk =
     \<lparr>numbering = n,
      lengths_pin1 = credential_lengths_new pin1 PIN_CAPACITY FINEID_PIN1_BOUNDS,
      lengths_pin2 = credential_lengths_new pin2 PIN_CAPACITY FINEID_PIN2_BOUNDS,
      lengths_puk = credential_lengths_new puk PUK_CAPACITY FINEID_PUK_BOUNDS\<rparr>"

definition not_listed :: "PinReferenceScheme \<Rightarrow> CardPinLengths" where
  "not_listed n = from_listed n NotListed NotListed NotListed"

fun lengths_slot :: "CardPinLengths \<Rightarrow> PinSlot \<Rightarrow> CredentialLengths" where
  "lengths_slot l SlotPin1 = lengths_pin1 l"
| "lengths_slot l SlotPin2 = lengths_pin2 l"

definition check_pin1 :: "CardPinLengths \<Rightarrow> Pin1 \<Rightarrow> (unit, PinLengthRefusal) result" where
  "check_pin1 l pin = lengths_check (lengths_pin1 l) RolePin1 (pin1_digit_count pin)"

definition check_pin2 :: "CardPinLengths \<Rightarrow> Pin2 \<Rightarrow> (unit, PinLengthRefusal) result" where
  "check_pin2 l pin = lengths_check (lengths_pin2 l) RolePin2 (pin2_digit_count pin)"

definition check_puk :: "CardPinLengths \<Rightarrow> Puk \<Rightarrow> (unit, PinLengthRefusal) result" where
  "check_puk l puk = lengths_check (lengths_puk l) RolePuk (puk_digit_count puk)"

definition check_activation_entry ::
  "CardPinLengths \<Rightarrow> PinSlot option \<Rightarrow> nat \<Rightarrow> (unit, PinLengthRefusal) result" where
  "check_activation_entry l presented_as count =
     lengths_check (case presented_as of Some slot \<Rightarrow> lengths_slot l slot | None \<Rightarrow> lengths_puk l)
       RoleActivationCode count"

section \<open>Validated values and accepted lengths\<close>

lemma digits_reconstruct_Ok:
  assumes "digits_reconstruct input role lo hi = Ok d" "hi \<le> PIN_MAX_LENGTH"
  shows "secret_bytes d = input \<and> digit_count d = length input \<and> lo \<le> length input \<and>
    length input \<le> hi \<and> input \<noteq> [] \<and> list_all is_ascii_digit input"
  using assms
  by (auto simp: digits_reconstruct_def secret_bytes_def digit_count_def copy_into_zero
      list_all_iff length_consts split: if_splits option.splits)

lemma range_new_Some:
  "range_new lo hi = Some r \<longleftrightarrow>
     1 \<le> unat lo \<and> unat lo \<le> unat hi \<and> r = \<lparr>range_min_octet = lo, range_max_octet = hi\<rparr>"
  by (auto simp: range_new_def word_le_nat_alt word_less_nat_alt word_unat_eq_iff)

lemma range_intersection_contains:
  "(\<exists>r. range_intersection a b = Some r \<and> range_contains r n) \<longleftrightarrow>
     0 < n \<and> range_contains a n \<and> range_contains b n"
  if "0 < range_min a"
  using that
  by (auto simp: range_intersection_def Let_def range_new_def range_contains_def range_min_def
      range_max_def word_le_nat_alt word_less_nat_alt word_unat_eq_iff split: if_splits)

lemmas bounds_defs = PIN_CAPACITY_def PUK_CAPACITY_def FINEID_PIN1_BOUNDS_def
  FINEID_PIN2_BOUNDS_def FINEID_PUK_BOUNDS_def length_range_def

lemma lengths_check_Ok:
  "lengths_check l role n = Ok () \<longleftrightarrow> (\<exists>r. cl_accepted l = Some r \<and> range_contains r n)"
  by (auto simp: lengths_check_def split: option.splits)

lemma capacity_contains [simp]:
  "range_contains PIN_CAPACITY n \<longleftrightarrow> 4 \<le> n \<and> n \<le> 12"
  "range_contains PUK_CAPACITY n \<longleftrightarrow> 8 \<le> n \<and> n \<le> 12"
  "range_contains FINEID_PIN1_BOUNDS n \<longleftrightarrow> 4 \<le> n \<and> n \<le> 12"
  "range_contains FINEID_PIN2_BOUNDS n \<longleftrightarrow> 6 \<le> n \<and> n \<le> 12"
  "range_contains FINEID_PUK_BOUNDS n \<longleftrightarrow> 8 \<le> n \<and> n \<le> 12"
  by (simp_all add: bounds_defs length_consts range_new_def range_contains_def range_min_def
      range_max_def)

text \<open>What a listed range admits, on top of the lengths the role carries.\<close>

fun listed_admits :: "ListedLength \<Rightarrow> nat \<Rightarrow> nat \<Rightarrow> bool" where
  "listed_admits (Listed r _) fallback_min n \<longleftrightarrow> range_contains r n"
| "listed_admits NotListed fallback_min n \<longleftrightarrow> fallback_min \<le> n"

fun listed_ok :: "ListedLength \<Rightarrow> bool" where
  "listed_ok (Listed r _) \<longleftrightarrow> 0 < range_min r"
| "listed_ok NotListed \<longleftrightarrow> True"

lemma credential_lengths_check:
  assumes "listed_ok listed"
  shows "lengths_check (credential_lengths_new listed capacity fallback) role n = Ok () \<longleftrightarrow>
     (case listed of Listed r _ \<Rightarrow> 0 < n \<and> range_contains r n \<and> range_contains capacity n
      | NotListed \<Rightarrow> range_contains fallback n)"
  using assms range_intersection_contains
  by (cases listed) (auto simp: lengths_check_Ok credential_lengths_new_def)

lemma retry_floor_Ok:
  "check_retry_floor c st = Ok () \<longleftrightarrow>
     (if c = FlooredPuk then st = PinLocked \<or> (\<exists>n\<in>{0, 3, 4, 5}. st = Remaining (PinRetries n))
      else st = PinVerified \<or> (\<exists>n\<in>{3, 4, 5}. st = Remaining (PinRetries n)))"
proof (cases st)
  case (Remaining r)
  obtain n where r: "r = PinRetries n" by (cases r)
  show ?thesis
    by (cases c) (auto simp: Remaining r check_retry_floor_def risk_from_retries_def Let_def
        retry_consts spends_a_last_try_def is_above_floor_def)
qed (cases c; simp add: check_retry_floor_def)+

section \<open>Properties\<close>


text \<open>
  A length is accepted exactly when the card admits it and the block can carry it.
  For whatever the card lists for the three credentials: a PIN 1 or PIN 2 entry passes exactly
  with four to twelve digits and a PUK entry with eight to twelve, within the listed range where
  there is one, and with at least six digits for an unlisted PIN 2.
\<close>
theorem accepted_lengths_exact:
  assumes "listed_ok l1" "listed_ok l2" "listed_ok lp"
  shows "(check_pin1 (from_listed s l1 l2 lp) pin1 = Ok () \<longleftrightarrow>
       4 \<le> pin1_digit_count pin1 \<and> pin1_digit_count pin1 \<le> 12 \<and>
       listed_admits l1 4 (pin1_digit_count pin1)) \<and>
     (check_pin2 (from_listed s l1 l2 lp) pin2 = Ok () \<longleftrightarrow>
       4 \<le> pin2_digit_count pin2 \<and> pin2_digit_count pin2 \<le> 12 \<and>
       listed_admits l2 6 (pin2_digit_count pin2)) \<and>
     (check_puk (from_listed s l1 l2 lp) puk = Ok () \<longleftrightarrow>
       8 \<le> puk_digit_count puk \<and> puk_digit_count puk \<le> 12 \<and>
       listed_admits lp 8 (puk_digit_count puk))"
  using assms
  by (auto simp: check_pin1_def check_pin2_def check_puk_def from_listed_def
      credential_lengths_check split: ListedLength.splits)

theorem accepted_lengths_exact_witness:
  "check_pin1 (from_listed Citizen NotListed NotListed NotListed)
     (Pin1 \<lparr>sd_bytes = replicate 12 0x31, sd_length = 5\<rparr>) = Ok ()"
  using accepted_lengths_exact [of NotListed NotListed NotListed Citizen
      "Pin1 \<lparr>sd_bytes = replicate 12 0x31, sd_length = 5\<rparr>"]
  by (simp add: digit_count_def)

end
