(* ===== verification/Card_Transport.thy ===== *)
theory Card_Transport
  imports Apdu
begin

text \<open>
  The interface of \<open>crates/apdu/src/transport.rs\<close> through which every card operation runs. A
  transport is a pair of functions on the state of the card and its reader. An operation takes that
  state and returns the new one with its result; \<open>then_do\<close> sequences operations with the early
  return of the question mark operator. A recording transport keeps the bytes it is sent, so that
  what an operation transmits is visible in its final state.
\<close>

record ('s, 'e) CardTransport =
  transmit :: "CommandApdu \<Rightarrow> 's \<Rightarrow> 's \<times> (TransportOutcome, 'e) result"
  transmit_credential :: "CredentialCommand \<Rightarrow> 's \<Rightarrow> 's \<times> (TransportOutcome, 'e) result"

type_synonym ('s, 'a, 'x) transport_op = "'s \<Rightarrow> 's \<times> ('a, 'x) result"

definition done_with :: "('a, 'x) result \<Rightarrow> ('s, 'a, 'x) transport_op" where
  "done_with r s = (s, r)"

definition then_do ::
  "('s, 'a, 'x) transport_op \<Rightarrow> ('a \<Rightarrow> ('s, 'b, 'x) transport_op) \<Rightarrow> ('s, 'b, 'x) transport_op" where
  "then_do m f s = (case m s of (s', Ok x) \<Rightarrow> f x s' | (s', Err e) \<Rightarrow> (s', Err e))"

datatype sent = SentPlain bytes | SentCredential bytes

definition recording :: "('s, 'e) CardTransport \<Rightarrow> ('s \<times> sent list, 'e) CardTransport" where
  "recording tp =
     \<lparr>transmit = (\<lambda>c (s, log). case transmit tp c s of
         (s', r) \<Rightarrow> ((s', log @ [SentPlain (cmd_bytes c)]), r)),
      transmit_credential = (\<lambda>c (s, log). case transmit_credential tp c s of
         (s', r) \<Rightarrow> ((s', log @ [SentCredential (credential_wire c)]), r))\<rparr>"

lemma then_do_Ok: "m s = (s', Ok x) \<Longrightarrow> then_do m f s = f x s'"
  by (simp add: then_do_def)

lemma then_do_Err: "m s = (s', Err e) \<Longrightarrow> then_do m f s = (s', Err e)"
  by (simp add: then_do_def)

end
