(* ===== verification/Card_Verify.thy ===== *)
theory Card_Verify
  imports Card_Credentials Card_Transport
begin

text \<open>
  The card operations of \<open>crates/auth/src/verify.rs\<close> on any transport. The theory shows which bytes each presentation of a credential puts on the wire, and
  that the status probes carry no data.
\<close>

section \<open>Errors and exchanges\<close>

datatype 'e AuthError =
    AuthTransport 'e
  | AuthOutcome TransportOutcome
  | AuthCommand CredentialBodyError
  | AuthRetryFloor RetryFloorRefusal
  | AuthPinLength PinLengthRefusal

type_synonym ('s, 'a, 'e) card_op = "('s, 'a, 'e AuthError) transport_op"

definition response_of ::
  "(TransportOutcome, 'e) result \<Rightarrow> (ResponseApdu, 'e AuthError) result" where
  "response_of r = and_then (map_err AuthTransport r) (\<lambda>out. map_err AuthOutcome (into_response out))"

definition exchange :: "('s, 'e) CardTransport \<Rightarrow> CommandApdu \<Rightarrow> ('s, ResponseApdu, 'e) card_op" where
  "exchange tp c s = (case transmit tp c s of (s', r) \<Rightarrow> (s', response_of r))"

definition exchange_credential ::
  "('s, 'e) CardTransport \<Rightarrow> CredentialCommand \<Rightarrow> ('s, ResponseApdu, 'e) card_op" where
  "exchange_credential tp c s = (case transmit_credential tp c s of (s', r) \<Rightarrow> (s', response_of r))"

section \<open>Verification\<close>

definition VERIFY_INS :: u8 where "VERIFY_INS = 0x20"
definition VERIFY_P1 :: u8 where "VERIFY_P1 = 0x00"
definition PIN_STORED_LENGTH :: nat where "PIN_STORED_LENGTH = 12"
definition PIN_PAD_BYTE :: u8 where "PIN_PAD_BYTE = 0x00"

lemmas verify_consts = VERIFY_INS_def VERIFY_P1_def PIN_STORED_LENGTH_def PIN_PAD_BYTE_def

fun write_blocks :: "PinReferenceScheme \<Rightarrow> bytes list \<Rightarrow> bytes \<Rightarrow> nat \<Rightarrow> bytes \<times> nat" where
  "write_blocks scheme [] out tot = (out, tot)"
| "write_blocks scheme (digits # groups) out tot =
     (let copy_len = min (length digits) PIN_STORED_LENGTH;
          out = copy_into out tot (take copy_len digits)
      in write_blocks scheme groups out
           (tot + (case scheme of Citizen \<Rightarrow> PIN_STORED_LENGTH | Organizational \<Rightarrow> copy_len)))"

definition write_credential_blocks ::
  "PinReferenceScheme \<Rightarrow> bytes list \<Rightarrow> bytes \<Rightarrow> bytes \<times> nat" where
  "write_credential_blocks scheme groups out = write_blocks scheme groups out 0"

definition credential_exchange ::
  "('s, 'e) CardTransport \<Rightarrow> PinReferenceScheme \<Rightarrow> CommandHeader \<Rightarrow> bytes list \<Rightarrow>
   ('s, StatusWord, 'e) card_op" where
  "credential_exchange tp scheme header groups =
     (let block = block_zeroed;
          filled = replicate (length (block_bytes block)) PIN_PAD_BYTE
      in case write_credential_blocks scheme groups filled of
           (out, tot) \<Rightarrow>
             (case body_from_block (block_set_filled tot (block\<lparr>block_bytes := out\<rparr>)) of
                Err e \<Rightarrow> done_with (Err (AuthCommand e))
              | Ok body \<Rightarrow>
                  then_do (exchange_credential tp (credential_assemble header body)) (\<lambda>response.
                    done_with (Ok (status_word response)))))"

definition pin_header :: "u8 \<Rightarrow> u8 \<Rightarrow> u8 \<Rightarrow> CommandHeader" where
  "pin_header ins p1 p2 = \<lparr>hdr_class = Plain, hdr_instruction = ins, hdr_p1 = p1, hdr_p2 = p2\<rparr>"

definition verify_digits ::
  "('s, 'e) CardTransport \<Rightarrow> PinReferenceScheme \<Rightarrow> PinSlot \<Rightarrow> bytes \<Rightarrow> ('s, VerifyOutcome, 'e) card_op"
where
  "verify_digits tp scheme slot digits =
     then_do (credential_exchange tp scheme
                (pin_header VERIFY_INS VERIFY_P1 (scheme_reference scheme slot)) [digits])
       (\<lambda>status. done_with (Ok (classify_verify_sw status)))"

definition probe_status_word ::
  "('s, 'e) CardTransport \<Rightarrow> PinReferenceScheme \<Rightarrow> PinSlot \<Rightarrow> ('s, StatusWord, 'e) card_op" where
  "probe_status_word tp scheme slot =
     then_do (exchange tp (case_1 (pin_header VERIFY_INS VERIFY_P1 (scheme_reference scheme slot))))
       (\<lambda>response. done_with (Ok (status_word response)))"

definition pin1_status_and_scheme ::
  "('s, 'e) CardTransport \<Rightarrow> ('s, PinReferenceScheme \<times> PinStatus, 'e) card_op" where
  "pin1_status_and_scheme tp =
     then_do (probe_status_word tp Citizen SlotPin1) (\<lambda>citizen.
       if citizen \<noteq> ReferenceDataNotFound
       then done_with (Ok (Citizen, classify_pin_status_sw citizen))
       else then_do (probe_status_word tp Organizational SlotPin1) (\<lambda>organizational.
         let status = classify_pin_status_sw organizational in
         done_with (Ok (case status of
             StatusOther _ \<Rightarrow> (Citizen, classify_pin_status_sw citizen)
           | _ \<Rightarrow> (Organizational, status)))))"

definition resolve_pin_reference_scheme ::
  "('s, 'e) CardTransport \<Rightarrow> ('s, PinReferenceScheme, 'e) card_op" where
  "resolve_pin_reference_scheme tp =
     then_do (pin1_status_and_scheme tp) (\<lambda>(scheme, _). done_with (Ok scheme))"

definition pin_status_with_scheme ::
  "('s, 'e) CardTransport \<Rightarrow> PinReferenceScheme \<Rightarrow> PinSlot \<Rightarrow> ('s, PinStatus, 'e) card_op" where
  "pin_status_with_scheme tp scheme slot =
     then_do (probe_status_word tp scheme slot) (\<lambda>sw. done_with (Ok (classify_pin_status_sw sw)))"

definition pin_status :: "('s, 'e) CardTransport \<Rightarrow> PinSlot \<Rightarrow> ('s, PinStatus, 'e) card_op" where
  "pin_status tp slot =
     (if slot = SlotPin1 then then_do (pin1_status_and_scheme tp) (\<lambda>(_, status). done_with (Ok status))
      else then_do (resolve_pin_reference_scheme tp) (\<lambda>scheme. pin_status_with_scheme tp scheme slot))"

definition verify_pin1_with_scheme ::
  "('s, 'e) CardTransport \<Rightarrow> PinReferenceScheme \<Rightarrow> Pin1 \<Rightarrow> ('s, VerifyOutcome, 'e) card_op" where
  "verify_pin1_with_scheme tp scheme pin = verify_digits tp scheme SlotPin1 (pin1_digits pin)"

definition verify_pin2_with_scheme ::
  "('s, 'e) CardTransport \<Rightarrow> PinReferenceScheme \<Rightarrow> Pin2 \<Rightarrow> ('s, VerifyOutcome, 'e) card_op" where
  "verify_pin2_with_scheme tp scheme pin = verify_digits tp scheme SlotPin2 (pin2_digits pin)"

definition verify_pin1 :: "('s, 'e) CardTransport \<Rightarrow> Pin1 \<Rightarrow> ('s, VerifyOutcome, 'e) card_op" where
  "verify_pin1 tp pin =
     then_do (resolve_pin_reference_scheme tp) (\<lambda>scheme. verify_pin1_with_scheme tp scheme pin)"

definition verify_pin2 :: "('s, 'e) CardTransport \<Rightarrow> Pin2 \<Rightarrow> ('s, VerifyOutcome, 'e) card_op" where
  "verify_pin2 tp pin =
     then_do (resolve_pin_reference_scheme tp) (\<lambda>scheme. verify_pin2_with_scheme tp scheme pin)"

section \<open>What a presentation carries\<close>

text \<open>The block the card compares: padded on a citizen card, bare on an organizational one.\<close>

definition stored_block :: "PinReferenceScheme \<Rightarrow> bytes \<Rightarrow> bytes" where
  "stored_block scheme digits =
     (case scheme of Citizen \<Rightarrow> digits @ replicate (12 - length digits) 0 | Organizational \<Rightarrow> digits)"

definition groups_ok :: "bytes list \<Rightarrow> bool" where
  "groups_ok groups \<longleftrightarrow>
     groups \<noteq> [] \<and> length groups \<le> 2 \<and> (\<forall>g\<in>set groups. g \<noteq> [] \<and> length g \<le> 12)"

lemma write_blocks_groups:
  assumes "\<forall>g\<in>set groups. length g \<le> 12" "length (concat (map (stored_block scheme) groups)) \<le> k"
  shows "write_blocks scheme groups (pre @ replicate k 0) (length pre) =
     (let b = concat (map (stored_block scheme) groups)
      in (pre @ b @ replicate (k - length b) 0, length pre + length b))"
  using assms
proof (induction groups arbitrary: pre k)
  case (Cons g groups)
  let ?b = "stored_block scheme g"
  have g: "length g \<le> 12" "min (length g) PIN_STORED_LENGTH = length g"
    using Cons.prems(1) by (auto simp: verify_consts)
  have k: "length ?b \<le> k" using Cons.prems(2) by simp
  have "copy_into (pre @ replicate k 0) (length pre) g = pre @ ?b @ replicate (k - length ?b) 0"
  proof (cases scheme)
    case Citizen
    have "replicate (12 - length g) (0 :: u8) @ replicate (k - 12) 0 = replicate (k - length g) 0"
      using k g(1) Citizen by (simp add: stored_block_def replicate_add [symmetric])
    then show ?thesis using g(1) Citizen by (simp add: copy_into_def stored_block_def)
  qed (simp add: copy_into_def stored_block_def)
  moreover have "(case scheme of Citizen \<Rightarrow> PIN_STORED_LENGTH | Organizational \<Rightarrow> length g) = length ?b"
    using g(1) by (simp add: stored_block_def verify_consts split: PinReferenceScheme.splits)
  ultimately show ?case
    using Cons.IH [of "k - length ?b" "pre @ ?b"] Cons.prems g(2)
    by (simp add: Let_def add.assoc diff_diff_left)
qed (simp add: Let_def)

lemma stored_block_length:
  "g \<noteq> [] \<Longrightarrow> length g \<le> 12 \<Longrightarrow> 0 < length (stored_block scheme g) \<and> length (stored_block scheme g) \<le> 12"
  by (cases scheme) (auto simp: stored_block_def)

lemma groups_block_length:
  assumes "groups_ok groups"
  shows "0 < length (concat (map (stored_block scheme) groups)) \<and>
    length (concat (map (stored_block scheme) groups)) \<le> 24"
proof -
  consider g where "groups = [g]" | g h where "groups = [g, h]"
    using assms by (cases groups; cases "tl groups") (auto simp: groups_ok_def)
  then show ?thesis
  proof cases
    case (1 g)
    then show ?thesis using assms stored_block_length [of g scheme] by (simp add: groups_ok_def)
  next
    case (2 g h)
    then show ?thesis
      using assms stored_block_length [of g scheme] stored_block_length [of h scheme]
      by (simp add: groups_ok_def)
  qed
qed

text \<open>One credential exchange is one credential command with the header, Lc and the blocks.\<close>

lemma credential_exchange_sends:
  fixes scheme :: PinReferenceScheme and groups :: "bytes list"
  assumes "groups_ok groups"
  defines "b \<equiv> concat (map (stored_block scheme) groups)"
  obtains c where "credential_wire c = header_to_bytes header @ [of_nat (length b)] @ b"
    and "credential_exchange tp scheme header groups =
      then_do (exchange_credential tp c) (\<lambda>response. done_with (Ok (status_word response)))"
proof -
  have len: "0 < length b" "length b \<le> 24" using groups_block_length [OF assms(1)] b_def by auto
  have "write_credential_blocks scheme groups (replicate 24 0) = (b @ replicate (24 - length b) 0, length b)"
    using write_blocks_groups [of groups scheme 24 "[]"] assms(1) len(2)
    by (simp add: write_credential_blocks_def groups_ok_def b_def Let_def)
  moreover have "body_from_block (block_set_filled (length b)
      (block_zeroed\<lparr>block_bytes := b @ replicate (24 - length b) 0\<rparr>)) =
      Ok \<lparr>body_bytes = b @ replicate (24 - length b) 0, body_length = of_nat (length b)\<rparr>"
    using len by (subst body_from_block_Ok) (simp_all add: block_set_filled_def)
  moreover have "credential_wire (credential_assemble header
      \<lparr>body_bytes = b @ replicate (24 - length b) 0, body_length = of_nat (length b)\<rparr>) =
      header_to_bytes header @ [of_nat (length b)] @ b"
    using len by (subst credential_assemble_wire) simp_all
  ultimately show ?thesis
    by (intro that) (simp_all add: credential_exchange_def Let_def block_zeroed_def verify_consts
        credential_consts)
qed

text \<open>What a recording transport has recorded.\<close>

lemma then_do_done [simp]: "then_do (done_with (Ok x)) f = f x" "then_do (done_with (Err e)) f = done_with (Err e)"
  by (simp_all add: then_do_def done_with_def fun_eq_iff)

lemma recorded_exchange:
  "\<exists>s' r. exchange (recording tp) c (s, log) = ((s', log @ [SentPlain (cmd_bytes c)]), r)"
  by (simp add: exchange_def recording_def split: prod.splits)

lemma recorded_credential:
  "\<exists>s' r. exchange_credential (recording tp) c (s, log) = ((s', log @ [SentCredential (credential_wire c)]), r)"
  by (simp add: exchange_credential_def recording_def split: prod.splits)

lemma recorded_probe:
  "\<exists>s' r. probe_status_word (recording tp) scheme slot (s, log) =
     ((s', log @ [SentPlain [0, 0x20, 0, scheme_reference scheme slot]]), r)"
  using recorded_exchange [of tp "case_1 (pin_header VERIFY_INS VERIFY_P1 (scheme_reference scheme slot))" s log]
  by (auto simp: probe_status_word_def then_do_def done_with_def case_1_def pin_header_def
      header_to_bytes_def verify_consts split: result.splits)

lemma recorded_credential_exchange:
  assumes "groups_ok groups"
  shows "\<exists>s' r. credential_exchange (recording tp) scheme (pin_header ins p1 p2) groups (s, log) =
     ((s', log @ [SentCredential ([0, ins, p1, p2,
         of_nat (length (concat (map (stored_block scheme) groups)))] @
         concat (map (stored_block scheme) groups))]), r)"
proof -
  obtain c where c: "credential_wire c = header_to_bytes (pin_header ins p1 p2) @
        [of_nat (length (concat (map (stored_block scheme) groups)))] @
        concat (map (stored_block scheme) groups)"
      "credential_exchange (recording tp) scheme (pin_header ins p1 p2) groups =
        then_do (exchange_credential (recording tp) c)
          (\<lambda>response. done_with (Ok (status_word response)))"
    using credential_exchange_sends [OF assms] by metis
  then show ?thesis
    using recorded_credential [of tp c s log]
    by (auto simp: then_do_def done_with_def pin_header_def header_to_bytes_def split: result.splits)
qed

definition pin1_probes :: "sent list set" where
  "pin1_probes =
     {[SentPlain [0, 0x20, 0, 0x11]], [SentPlain [0, 0x20, 0, 0x11], SentPlain [0, 0x20, 0, 0x03]]}"

lemma recorded_pin1_status:
  "\<exists>s' r probes. pin1_status_and_scheme (recording tp) (s, log) = ((s', log @ probes), r) \<and>
     probes \<in> pin1_probes"
proof -
  obtain s1 r1 where p1: "probe_status_word (recording tp) Citizen SlotPin1 (s, log) =
      ((s1, log @ [SentPlain [0, 0x20, 0, 0x11]]), r1)"
    using recorded_probe [of tp Citizen SlotPin1 s log] by (auto simp: reference_consts)
  obtain s2 r2 where p2: "probe_status_word (recording tp) Organizational SlotPin1
      (s1, log @ [SentPlain [0, 0x20, 0, 0x11]]) =
      ((s2, log @ [SentPlain [0, 0x20, 0, 0x11], SentPlain [0, 0x20, 0, 0x03]]), r2)"
    using recorded_probe [of tp Organizational SlotPin1 s1 "log @ [SentPlain [0, 0x20, 0, 0x11]]"]
    by (auto simp: reference_consts)
  show ?thesis
    by (cases r1; cases r2)
      (auto simp: pin1_status_and_scheme_def then_do_def done_with_def p1 p2 pin1_probes_def Let_def)
qed

lemma recorded_resolve:
  "\<exists>s' r probes. resolve_pin_reference_scheme (recording tp) (s, log) = ((s', log @ probes), r) \<and>
     probes \<in> pin1_probes"
  using recorded_pin1_status [of tp s log]
  by (auto simp: resolve_pin_reference_scheme_def then_do_def done_with_def split: result.splits)

definition verify_command :: "PinReferenceScheme \<Rightarrow> PinSlot \<Rightarrow> bytes \<Rightarrow> sent" where
  "verify_command scheme slot digits =
     SentCredential ([0, 0x20, 0, scheme_reference scheme slot,
        of_nat (length (stored_block scheme digits))] @ stored_block scheme digits)"

lemma recorded_verify:
  assumes "digits \<noteq> []" "length digits \<le> 12"
  shows "\<exists>s' r. verify_digits (recording tp) scheme slot digits (s, log) =
     ((s', log @ [verify_command scheme slot digits]), r)"
  using recorded_credential_exchange [of "[digits]" tp scheme VERIFY_INS VERIFY_P1
      "scheme_reference scheme slot" s log] assms
  by (auto simp: verify_digits_def verify_command_def groups_ok_def then_do_def done_with_def
      verify_consts split: result.splits)

lemma recorded_resolve_verify:
  assumes "digits \<noteq> []" "length digits \<le> 12"
  shows "\<exists>s' r probes sends. then_do (resolve_pin_reference_scheme (recording tp))
       (\<lambda>scheme. verify_digits (recording tp) scheme slot digits) (s, []) = ((s', probes @ sends), r) \<and>
     probes \<in> pin1_probes \<and>
     (case r of Ok _ \<Rightarrow> \<exists>scheme. sends = [verify_command scheme slot digits]
      | Err _ \<Rightarrow> sends = [] \<or> (\<exists>scheme. sends = [verify_command scheme slot digits]))"
proof -
  obtain s1 r1 probes where res: "resolve_pin_reference_scheme (recording tp) (s, []) =
      ((s1, probes), r1)" "probes \<in> pin1_probes"
    using recorded_resolve [of tp s "[]"] by auto
  show ?thesis
  proof (cases r1)
    case (Ok scheme)
    obtain s2 r2 where "verify_digits (recording tp) scheme slot digits (s1, probes) =
        ((s2, probes @ [verify_command scheme slot digits]), r2)"
      using recorded_verify [OF assms, of tp scheme slot s1 probes] by auto
    then show ?thesis using res Ok
      by (intro exI [of _ s2] exI [of _ r2] exI [of _ probes]
          exI [of _ "[verify_command scheme slot digits]"]) (auto simp: then_do_def split: result.splits)
  next
    case (Err e)
    then show ?thesis using res by (auto simp: then_do_def)
  qed
qed

text \<open>A card that answers every command with success.\<close>

definition agreeable_card :: "(unit, unit) CardTransport" where
  "agreeable_card =
     \<lparr>transmit = (\<lambda>c s. (s, Ok (Response \<lparr>rsp_body = [], rsp_sw1 = 0x90, rsp_sw2 = 0\<rparr>))),
      transmit_credential = (\<lambda>c s. (s, Ok (Response \<lparr>rsp_body = [], rsp_sw1 = 0x90, rsp_sw2 = 0\<rparr>)))\<rparr>"

section \<open>Properties\<close>



end
