(* ===== verification/Card_Manage.thy ===== *)
theory Card_Manage
  imports Card_Verify
begin

text \<open>
  Card activation and credential management: \<open>crates/auth/src/activation.rs\<close> and
  \<open>manage.rs\<close>. The theory shows what changing and unblocking a PIN put on the wire, and, against
  a card that keeps its counters as the card specification says, that no unblock and no activation
  spends one of the last two tries of the PUK.
\<close>

section \<open>Activation\<close>

definition GET_DATA_INS :: u8 where "GET_DATA_INS = 0xCB"
definition GET_DATA_P1 :: u8 where "GET_DATA_P1 = 0x00"
definition GET_DATA_P2 :: u8 where "GET_DATA_P2 = 0xFF"
definition GET_DATA_LE :: u8 where "GET_DATA_LE = 0x00"
definition PIN_CONTAINER_TEMPLATE_TAG :: u8 where "PIN_CONTAINER_TEMPLATE_TAG = 0xA0"
definition PIN_CONTAINER_TEMPLATE_LEN :: u8 where "PIN_CONTAINER_TEMPLATE_LEN = 3"
definition PIN_CONTAINER_REF_TAG :: u8 where "PIN_CONTAINER_REF_TAG = 0x83"
definition PIN_CONTAINER_REF_LEN :: u8 where "PIN_CONTAINER_REF_LEN = 1"
definition PIN_CHANGED_TAG_HIGH :: u8 where "PIN_CHANGED_TAG_HIGH = 0xDF"
definition PIN_CHANGED_TAG_LOW :: u8 where "PIN_CHANGED_TAG_LOW = 0x2F"
definition PIN_CHANGED_LEN :: u8 where "PIN_CHANGED_LEN = 1"
definition PIN_CHANGED_WINDOW_LEN :: nat where "PIN_CHANGED_WINDOW_LEN = 4"
definition PIN_CHANGED_FLAG_OFFSET :: nat where "PIN_CHANGED_FLAG_OFFSET = 3"
definition PIN_CHANGED_FLAG_UNCHANGED :: u8 where "PIN_CHANGED_FLAG_UNCHANGED = 0"
definition PIN_CHANGED_FLAG_CHANGED :: u8 where "PIN_CHANGED_FLAG_CHANGED = 1"
definition PIN_ATTRIBUTES_TAG_HIGH :: u8 where "PIN_ATTRIBUTES_TAG_HIGH = 0xDF"
definition PIN_ATTRIBUTES_TAG_LOW :: u8 where "PIN_ATTRIBUTES_TAG_LOW = 0x21"
definition PIN_ATTRIBUTES_LEN :: u8 where "PIN_ATTRIBUTES_LEN = 4"
definition PIN_ATTRIBUTES_WINDOW_LEN :: nat where "PIN_ATTRIBUTES_WINDOW_LEN = 7"
definition PIN_ATTRIBUTES_TRIES_OFFSET :: nat where "PIN_ATTRIBUTES_TRIES_OFFSET = 3"
definition PIN_POLICY_TAG :: u16 where "PIN_POLICY_TAG = 0xDF3F"
definition PIN_POLICY_LEN :: nat where "PIN_POLICY_LEN = 20"
definition PIN_POLICY_MIN_LENGTH_OFFSET :: nat where "PIN_POLICY_MIN_LENGTH_OFFSET = 1"
definition PIN_POLICY_MAX_LENGTH_OFFSET :: nat where "PIN_POLICY_MAX_LENGTH_OFFSET = 2"
definition PIN_POLICY_LENGTH_FLOOR :: u8 where "PIN_POLICY_LENGTH_FLOOR = 4"
definition PIN_POLICY_LENGTH_CEILING :: u8 where "PIN_POLICY_LENGTH_CEILING = 64"
definition TLV_LENGTH_OFFSET :: nat where "TLV_LENGTH_OFFSET = 2"
definition DVV_PRESET_PIN_CUTOVER_EPOCH_SECONDS :: int where
  "DVV_PRESET_PIN_CUTOVER_EPOCH_SECONDS = 1768262400"
definition PRESET_ACTIVATION_PIN_DIGIT_COUNT :: nat where "PRESET_ACTIVATION_PIN_DIGIT_COUNT = 7"
definition ACTIVATION_CODE_PUK_DIGIT_COUNT :: nat where "ACTIVATION_CODE_PUK_DIGIT_COUNT = 8"

datatype ActivationScheme = ActivationCodeIsPuk | PresetActivationPin

definition from_numbering_and_validity_start ::
  "PinReferenceScheme \<Rightarrow> int option \<Rightarrow> ActivationScheme option" where
  "from_numbering_and_validity_start n validity_start =
     (case n of
        Organizational \<Rightarrow> Some ActivationCodeIsPuk
      | Citizen \<Rightarrow>
          (case validity_start of
             Some not_before \<Rightarrow>
               if not_before \<ge> DVV_PRESET_PIN_CUTOVER_EPOCH_SECONDS then Some PresetActivationPin
               else Some ActivationCodeIsPuk
           | None \<Rightarrow> None))"

primrec activation_entry_digit_count :: "ActivationScheme \<Rightarrow> nat" where
  "activation_entry_digit_count ActivationCodeIsPuk = ACTIVATION_CODE_PUK_DIGIT_COUNT"
| "activation_entry_digit_count PresetActivationPin = PRESET_ACTIVATION_PIN_DIGIT_COUNT"

datatype PinChangeRecord = Changed | Unchanged | Unreadable

definition pin_awaits_activation :: "ActivationScheme \<Rightarrow> PinChangeRecord \<Rightarrow> PinStatus \<Rightarrow> bool" where
  "pin_awaits_activation scheme record status =
     (case record of
        Unchanged \<Rightarrow> True
      | Changed \<Rightarrow> False
      | Unreadable \<Rightarrow>
          (case scheme of
             PresetActivationPin \<Rightarrow> False
           | ActivationCodeIsPuk \<Rightarrow>
               (case status of
                  PinLocked \<Rightarrow> True
                | Remaining retries \<Rightarrow> retries_is_exhausted retries
                | _ \<Rightarrow> False)))"

record CardActivationNeeds =
  needs_pin1 :: bool
  needs_pin2 :: bool

definition needs_any :: "CardActivationNeeds \<Rightarrow> bool" where
  "needs_any n \<longleftrightarrow> needs_pin1 n \<or> needs_pin2 n"

record ActivationCode =
  ac_digits :: SecretDigits
  ac_scheme :: ActivationScheme

definition activation_code_reconstruct ::
  "bytes \<Rightarrow> ActivationScheme \<Rightarrow> (ActivationCode, CredentialInputError) result" where
  "activation_code_reconstruct input scheme =
     (let count = activation_entry_digit_count scheme in
      and_then (digits_reconstruct input RoleActivationCode count count) (\<lambda>digits.
        Ok \<lparr>ac_digits = digits, ac_scheme = scheme\<rparr>))"

definition pin_container_query :: "u8 \<Rightarrow> CommandApdu option" where
  "pin_container_query reference =
     (case case_4 (pin_header GET_DATA_INS GET_DATA_P1 GET_DATA_P2)
             [PIN_CONTAINER_TEMPLATE_TAG, PIN_CONTAINER_TEMPLATE_LEN, PIN_CONTAINER_REF_TAG,
              PIN_CONTAINER_REF_LEN, reference] GET_DATA_LE of
        Ok c \<Rightarrow> Some c | Err _ \<Rightarrow> None)"

definition policy_range :: "bytes \<Rightarrow> PasswordLengthRange option" where
  "policy_range body =
     (case ber_parse body of
        Err _ \<Rightarrow> None
      | Ok template \<Rightarrow>
          if tlv_tag template \<noteq> ucast PIN_CONTAINER_TEMPLATE_TAG then None
          else case List.find (\<lambda>r. case r of Ok element \<Rightarrow> tlv_tag element = PIN_POLICY_TAG | Err _ \<Rightarrow> False)
                      (takeWhile is_ok (ber_items (tlv_value template))) of
                 Some (Ok policy) \<Rightarrow>
                   (let v = tlv_value policy;
                        in_specified_range = (\<lambda>l. PIN_POLICY_LENGTH_FLOOR \<le> l \<and> l \<le> PIN_POLICY_LENGTH_CEILING)
                    in if length v \<noteq> PIN_POLICY_LEN then None
                       else
                         let lo = v ! PIN_POLICY_MIN_LENGTH_OFFSET; hi = v ! PIN_POLICY_MAX_LENGTH_OFFSET in
                         if \<not> in_specified_range lo \<or> \<not> in_specified_range hi then None
                         else range_new lo hi)
               | _ \<Rightarrow> None)"

definition read_pin_policy_lengths ::
  "('s, 'e) CardTransport \<Rightarrow> u8 \<Rightarrow> ('s, PasswordLengthRange option, 'e) card_op" where
  "read_pin_policy_lengths tp reference =
     (case pin_container_query reference of
        None \<Rightarrow> done_with (Ok None)
      | Some apdu \<Rightarrow>
          then_do (exchange tp apdu) (\<lambda>response.
            done_with (Ok (if status_word response \<noteq> Success then None
                           else policy_range (rsp_body response)))))"

definition window_at :: "u8 \<Rightarrow> u8 \<Rightarrow> u8 \<Rightarrow> bytes \<Rightarrow> nat \<Rightarrow> bool" where
  "window_at high low len body start \<longleftrightarrow>
     body ! start = high \<and> body ! (start + 1) = low \<and> body ! (start + TLV_LENGTH_OFFSET) = len"

definition change_record_of :: "bytes \<Rightarrow> PinChangeRecord" where
  "change_record_of body =
     (if length body < PIN_CHANGED_WINDOW_LEN then Unreadable
      else case List.find (window_at PIN_CHANGED_TAG_HIGH PIN_CHANGED_TAG_LOW PIN_CHANGED_LEN body)
                  [0..<Suc (length body - PIN_CHANGED_WINDOW_LEN)] of
             None \<Rightarrow> Unreadable
           | Some start \<Rightarrow>
               (let flag = body ! (start + PIN_CHANGED_FLAG_OFFSET) in
                if flag = PIN_CHANGED_FLAG_UNCHANGED then Unchanged
                else if flag = PIN_CHANGED_FLAG_CHANGED then Changed
                else Unreadable))"

definition read_pin_change_record ::
  "('s, 'e) CardTransport \<Rightarrow> PinSlot \<Rightarrow> ('s, PinChangeRecord, 'e) card_op" where
  "read_pin_change_record tp slot =
     (case pin_container_query (case slot of SlotPin1 \<Rightarrow> PIN1_REFERENCE | SlotPin2 \<Rightarrow> PIN2_REFERENCE) of
        None \<Rightarrow> done_with (Ok Unreadable)
      | Some apdu \<Rightarrow>
          then_do (exchange tp apdu) (\<lambda>response.
            done_with (Ok (if status_word response \<noteq> Success then Unreadable
                           else change_record_of (rsp_body response)))))"

definition container_tries :: "bytes \<Rightarrow> PinStatus" where
  "container_tries body =
     (if length body \<ge> PIN_ATTRIBUTES_WINDOW_LEN then
        (case List.map_filter
                (\<lambda>start. if window_at PIN_ATTRIBUTES_TAG_HIGH PIN_ATTRIBUTES_TAG_LOW PIN_ATTRIBUTES_LEN
                              body start
                         then retries_from_nibble (body ! (start + PIN_ATTRIBUTES_TRIES_OFFSET))
                         else None)
                [0..<Suc (length body - PIN_ATTRIBUTES_WINDOW_LEN)] of
           [] \<Rightarrow> NoInfo
         | r # _ \<Rightarrow> Remaining r)
      else NoInfo)"

definition container_status :: "ResponseApdu \<Rightarrow> PinStatus" where
  "container_status response =
     (case status_word response of
        Success \<Rightarrow> container_tries (rsp_body response)
      | AuthenticationBlocked \<Rightarrow> PinLocked
      | ReferenceDataInvalidated \<Rightarrow> PinLocked
      | other \<Rightarrow> StatusOther other)"

definition read_puk_status_from_container ::
  "('s, 'e) CardTransport \<Rightarrow> ('s, PinStatus, 'e) card_op" where
  "read_puk_status_from_container tp =
     (case pin_container_query PUK_REFERENCE of
        None \<Rightarrow> done_with (Ok NoInfo)
      | Some apdu \<Rightarrow>
          then_do (exchange tp apdu) (\<lambda>response. done_with (Ok (container_status response))))"

section \<open>Changing and unblocking\<close>

definition CHANGE_REFERENCE_DATA_INS :: u8 where "CHANGE_REFERENCE_DATA_INS = 0x24"
definition CHANGE_P1_CURRENT_THEN_NEW :: u8 where "CHANGE_P1_CURRENT_THEN_NEW = 0x00"
definition RESET_RETRY_COUNTER_INS :: u8 where "RESET_RETRY_COUNTER_INS = 0x2C"
definition RESET_P1_CODE_THEN_NEW :: u8 where "RESET_P1_CODE_THEN_NEW = 0x00"
definition RESET_P1_NEW_ONLY :: u8 where "RESET_P1_NEW_ONLY = 0x02"

lemmas manage_consts = CHANGE_REFERENCE_DATA_INS_def CHANGE_P1_CURRENT_THEN_NEW_def
  RESET_RETRY_COUNTER_INS_def RESET_P1_CODE_THEN_NEW_def RESET_P1_NEW_ONLY_def

datatype ManageOutcome =
    ManageOk | WrongCredential PinRetries | ManageLocked | ManageOther StatusWord

fun classify_manage_sw :: "StatusWord \<Rightarrow> ManageOutcome" where
  "classify_manage_sw Success = ManageOk"
| "classify_manage_sw (PinIncorrect retries) = WrongCredential retries"
| "classify_manage_sw AuthenticationBlocked = ManageLocked"
| "classify_manage_sw ReferenceDataInvalidated = ManageLocked"
| "classify_manage_sw other = ManageOther other"

definition manage_exchange ::
  "('s, 'e) CardTransport \<Rightarrow> PinReferenceScheme \<Rightarrow> CommandHeader \<Rightarrow> bytes list \<Rightarrow>
   ('s, ManageOutcome, 'e) card_op" where
  "manage_exchange tp scheme header groups =
     then_do (credential_exchange tp scheme header groups) (\<lambda>status.
       done_with (Ok (classify_manage_sw status)))"

definition change_pin ::
  "('s, 'e) CardTransport \<Rightarrow> PinReferenceScheme \<Rightarrow> PinSlot \<Rightarrow> bytes \<Rightarrow> bytes \<Rightarrow>
   ('s, ManageOutcome, 'e) card_op" where
  "change_pin tp scheme slot current fresh =
     manage_exchange tp scheme
       (pin_header CHANGE_REFERENCE_DATA_INS CHANGE_P1_CURRENT_THEN_NEW (scheme_reference scheme slot))
       [current, fresh]"

definition puk_status :: "('s, 'e) CardTransport \<Rightarrow> PinReferenceScheme \<Rightarrow> ('s, PinStatus, 'e) card_op" where
  "puk_status tp scheme =
     then_do (exchange tp (case_1 (pin_header VERIFY_INS VERIFY_P1 (puk_reference scheme)))) (\<lambda>response.
       let status = classify_pin_status_sw (status_word response) in
       if scheme = Citizen \<and> (case status of Remaining _ \<Rightarrow> False | PinLocked \<Rightarrow> False | _ \<Rightarrow> True)
       then read_puk_status_from_container tp
       else done_with (Ok status))"

definition verify_puk ::
  "('s, 'e) CardTransport \<Rightarrow> PinReferenceScheme \<Rightarrow> bytes \<Rightarrow> ('s, ManageOutcome, 'e) card_op" where
  "verify_puk tp scheme puk =
     manage_exchange tp scheme (pin_header VERIFY_INS VERIFY_P1 (puk_reference scheme)) [puk]"

definition reset_new_only ::
  "('s, 'e) CardTransport \<Rightarrow> PinReferenceScheme \<Rightarrow> PinSlot \<Rightarrow> bytes \<Rightarrow> ('s, ManageOutcome, 'e) card_op"
where
  "reset_new_only tp scheme slot fresh =
     manage_exchange tp scheme
       (pin_header RESET_RETRY_COUNTER_INS RESET_P1_NEW_ONLY (scheme_reference scheme slot)) [fresh]"

definition unblock ::
  "('s, 'e) CardTransport \<Rightarrow> PinReferenceScheme \<Rightarrow> PinSlot \<Rightarrow> bytes \<Rightarrow> bytes \<Rightarrow>
   ('s, ManageOutcome, 'e) card_op" where
  "unblock tp scheme slot puk fresh =
     then_do (puk_status tp scheme) (\<lambda>puk_counter.
     then_do (done_with (map_err AuthRetryFloor (check_retry_floor FlooredPuk puk_counter))) (\<lambda>_.
       case scheme of
         Citizen \<Rightarrow>
           manage_exchange tp scheme
             (pin_header RESET_RETRY_COUNTER_INS RESET_P1_CODE_THEN_NEW (scheme_reference scheme slot))
             [puk, fresh]
       | Organizational \<Rightarrow>
           then_do (verify_puk tp scheme puk) (\<lambda>verified.
             if verified \<noteq> ManageOk then done_with (Ok verified)
             else reset_new_only tp scheme slot fresh)))"

section \<open>Activation readings\<close>

record ActivationReading =
  ar_needs :: CardActivationNeeds
  ar_pin1 :: PinStatus
  ar_pin2 :: PinStatus

fun reading_status :: "ActivationReading \<Rightarrow> PinSlot \<Rightarrow> PinStatus" where
  "reading_status r SlotPin1 = ar_pin1 r"
| "reading_status r SlotPin2 = ar_pin2 r"

definition read_slot_activation ::
  "('s, 'e) CardTransport \<Rightarrow> ActivationScheme \<Rightarrow> PinReferenceScheme \<Rightarrow> PinSlot \<Rightarrow>
   ('s, bool \<times> PinStatus, 'e) card_op" where
  "read_slot_activation tp scheme n slot =
     then_do (read_pin_change_record tp slot) (\<lambda>record.
     then_do (pin_status_with_scheme tp n slot) (\<lambda>status.
       done_with (Ok (pin_awaits_activation scheme record status, status))))"

definition read_activation ::
  "('s, 'e) CardTransport \<Rightarrow> ActivationScheme \<Rightarrow> PinReferenceScheme \<Rightarrow>
   ('s, ActivationReading, 'e) card_op" where
  "read_activation tp scheme n =
     then_do (read_slot_activation tp scheme n SlotPin1) (\<lambda>(pin1_awaits, pin1).
     then_do (read_slot_activation tp scheme n SlotPin2) (\<lambda>(pin2_awaits, pin2).
       done_with (Ok \<lparr>ar_needs = \<lparr>needs_pin1 = pin1_awaits, needs_pin2 = pin2_awaits\<rparr>,
                      ar_pin1 = pin1, ar_pin2 = pin2\<rparr>)))"

section \<open>The management operations\<close>

definition check_length ::
  "(unit, PinLengthRefusal) result \<Rightarrow> ('s, unit, 'e) card_op" where
  "check_length r = done_with (map_err AuthPinLength r)"

definition change_pin1 ::
  "('s, 'e) CardTransport \<Rightarrow> CardPinLengths \<Rightarrow> Pin1 \<Rightarrow> Pin1 \<Rightarrow> ('s, ManageOutcome, 'e) card_op" where
  "change_pin1 tp l current fresh =
     then_do (check_length (check_pin1 l current)) (\<lambda>_.
     then_do (check_length (check_pin1 l fresh)) (\<lambda>_.
       change_pin tp (numbering l) SlotPin1 (pin1_digits current) (pin1_digits fresh)))"

definition change_pin2 ::
  "('s, 'e) CardTransport \<Rightarrow> CardPinLengths \<Rightarrow> Pin2 \<Rightarrow> Pin2 \<Rightarrow> ('s, ManageOutcome, 'e) card_op" where
  "change_pin2 tp l current fresh =
     then_do (check_length (check_pin2 l current)) (\<lambda>_.
     then_do (check_length (check_pin2 l fresh)) (\<lambda>_.
       change_pin tp (numbering l) SlotPin2 (pin2_digits current) (pin2_digits fresh)))"

definition unblock_pin1 ::
  "('s, 'e) CardTransport \<Rightarrow> CardPinLengths \<Rightarrow> Puk \<Rightarrow> Pin1 \<Rightarrow> ('s, ManageOutcome, 'e) card_op" where
  "unblock_pin1 tp l puk fresh =
     then_do (check_length (check_puk l puk)) (\<lambda>_.
     then_do (check_length (check_pin1 l fresh)) (\<lambda>_.
       unblock tp (numbering l) SlotPin1 (puk_digits puk) (pin1_digits fresh)))"

definition unblock_pin2 ::
  "('s, 'e) CardTransport \<Rightarrow> CardPinLengths \<Rightarrow> Puk \<Rightarrow> Pin2 \<Rightarrow> ('s, ManageOutcome, 'e) card_op" where
  "unblock_pin2 tp l puk fresh =
     then_do (check_length (check_puk l puk)) (\<lambda>_.
     then_do (check_length (check_pin2 l fresh)) (\<lambda>_.
       unblock tp (numbering l) SlotPin2 (puk_digits puk) (pin2_digits fresh)))"

definition activation_needs ::
  "('s, 'e) CardTransport \<Rightarrow> ActivationScheme \<Rightarrow> ('s, CardActivationNeeds, 'e) card_op" where
  "activation_needs tp scheme =
     then_do (resolve_pin_reference_scheme tp) (\<lambda>n.
     then_do (read_activation tp scheme n) (\<lambda>reading. done_with (Ok (ar_needs reading))))"

definition probe_puk_status :: "('s, 'e) CardTransport \<Rightarrow> ('s, PinStatus, 'e) card_op" where
  "probe_puk_status tp = then_do (resolve_pin_reference_scheme tp) (\<lambda>scheme. puk_status tp scheme)"

record ActivationReport =
  rep_scheme :: ActivationScheme
  rep_pin1 :: "ManageOutcome option"
  rep_pin2 :: "ManageOutcome option"

definition presented_as :: "ActivationScheme \<Rightarrow> PinSlot \<Rightarrow> PinSlot option" where
  "presented_as scheme slot =
     (case scheme of PresetActivationPin \<Rightarrow> Some slot | ActivationCodeIsPuk \<Rightarrow> None)"

definition activate_slot ::
  "('s, 'e) CardTransport \<Rightarrow> ActivationScheme \<Rightarrow> PinReferenceScheme \<Rightarrow> PinSlot \<Rightarrow> bytes \<Rightarrow> bytes \<Rightarrow>
   ('s, ManageOutcome, 'e) card_op" where
  "activate_slot tp scheme n slot code fresh =
     (case scheme of
        PresetActivationPin \<Rightarrow> change_pin tp n slot code fresh
      | ActivationCodeIsPuk \<Rightarrow> unblock tp n slot code fresh)"

definition check_changed ::
  "ActivationReading \<Rightarrow> PinSlot \<Rightarrow> bool \<Rightarrow> ('s, unit, 'e) card_op" where
  "check_changed reading slot changed =
     (if changed then
        done_with (map_err AuthRetryFloor
          (check_last_tries (floored_of_slot slot) (reading_status reading slot)))
      else done_with (Ok ()))"

definition check_activation_lengths ::
  "CardPinLengths \<Rightarrow> ActivationCode \<Rightarrow> PinSlot \<Rightarrow> (unit, PinLengthRefusal) result option \<Rightarrow>
   ('s, unit, 'e) card_op" where
  "check_activation_lengths l code slot checked =
     (case checked of
        None \<Rightarrow> done_with (Ok ())
      | Some r \<Rightarrow>
          then_do (check_length (check_activation_entry l (presented_as (ac_scheme code) slot)
                     (length (secret_bytes (ac_digits code))))) (\<lambda>_. check_length r))"

definition activate_card ::
  "('s, 'e) CardTransport \<Rightarrow> CardPinLengths \<Rightarrow> ActivationCode \<Rightarrow> Pin1 option \<Rightarrow> Pin2 option \<Rightarrow>
   ('s, ActivationReport, 'e) card_op" where
  "activate_card tp l code new_pin1 new_pin2 =
     then_do (check_activation_lengths l code SlotPin1 (map_option (check_pin1 l) new_pin1)) (\<lambda>_.
     then_do (check_activation_lengths l code SlotPin2 (map_option (check_pin2 l) new_pin2)) (\<lambda>_.
     let scheme = ac_scheme code; n = numbering l; digits = secret_bytes (ac_digits code) in
     then_do (read_activation tp scheme n) (\<lambda>reading.
     let needs = ar_needs reading in
     then_do (case scheme of
          PresetActivationPin \<Rightarrow>
            then_do (check_changed reading SlotPin1 (needs_pin1 needs \<and> new_pin1 \<noteq> None)) (\<lambda>_.
              check_changed reading SlotPin2 (needs_pin2 needs \<and> new_pin2 \<noteq> None))
        | ActivationCodeIsPuk \<Rightarrow> done_with (Ok ())) (\<lambda>_.
     then_do (case new_pin1 of
          Some fresh \<Rightarrow>
            if needs_pin1 needs
            then then_do (activate_slot tp scheme n SlotPin1 digits (pin1_digits fresh)) (\<lambda>outcome.
                   done_with (Ok (Some outcome)))
            else done_with (Ok None)
        | None \<Rightarrow> done_with (Ok None)) (\<lambda>pin1.
     if pin1 \<noteq> None \<and> pin1 \<noteq> Some ManageOk
     then done_with (Ok \<lparr>rep_scheme = scheme, rep_pin1 = pin1, rep_pin2 = None\<rparr>)
     else
       then_do (case new_pin2 of
            Some fresh \<Rightarrow>
              if needs_pin2 needs
              then then_do (activate_slot tp scheme n SlotPin2 digits (pin2_digits fresh)) (\<lambda>outcome.
                     done_with (Ok (Some outcome)))
              else done_with (Ok None)
          | None \<Rightarrow> done_with (Ok None)) (\<lambda>pin2.
       done_with (Ok \<lparr>rep_scheme = scheme, rep_pin1 = pin1, rep_pin2 = pin2\<rparr>)))))))"

record CredentialHealthReport =
  chr_pin1_status :: PinStatus
  chr_pin2_status :: PinStatus
  chr_puk_status :: PinStatus
  chr_pin_reference_scheme :: PinReferenceScheme
  chr_activation_scheme :: "ActivationScheme option"
  chr_activation_needs :: "CardActivationNeeds option"

definition probe_credential_health ::
  "('s, 'e) CardTransport \<Rightarrow> int option \<Rightarrow> ('s, CredentialHealthReport, 'e) card_op" where
  "probe_credential_health tp validity_start =
     then_do (resolve_pin_reference_scheme tp) (\<lambda>n.
     then_do (pin_status_with_scheme tp n SlotPin1) (\<lambda>pin1_status.
     then_do (pin_status_with_scheme tp n SlotPin2) (\<lambda>pin2_status.
     then_do (puk_status tp n) (\<lambda>puk.
     let scheme = from_numbering_and_validity_start n validity_start in
     then_do (case scheme of
          Some a \<Rightarrow> then_do (activation_needs tp a) (\<lambda>needs. done_with (Ok (Some needs)))
        | None \<Rightarrow> done_with (Ok None)) (\<lambda>needs.
     done_with (Ok \<lparr>chr_pin1_status = pin1_status, chr_pin2_status = pin2_status,
         chr_puk_status = puk, chr_pin_reference_scheme = n, chr_activation_scheme = scheme,
         chr_activation_needs = needs\<rparr>))))))"

section \<open>A card that counts PUK tries\<close>

text \<open>
  What the card specification says of the PUK's counter. Commands without a credential spend no
  try. A count the card reports for the PUK is the count it holds, and a PUK it reports blocked has
  none left. A credential command spends at most one try, and only one that presents the PUK spends
  any: VERIFY under a PUK reference, or RESET RETRY COUNTER with the unblocking code.
\<close>

definition presents_puk :: "bytes \<Rightarrow> bool" where
  "presents_puk header \<longleftrightarrow>
     (\<exists>p2. header = [0, 0x2C, 0, p2]) \<or> header \<in> {[0, 0x20, 0, 0x83], [0, 0x20, 0, 0x12]}"

fun status_tells :: "PinStatus \<Rightarrow> nat \<Rightarrow> bool" where
  "status_tells (Remaining n) t \<longleftrightarrow> unat (retries_get n) = t"
| "status_tells PinLocked t \<longleftrightarrow> t = 0"
| "status_tells _ t \<longleftrightarrow> True"

definition puk_probe :: "PinReferenceScheme \<Rightarrow> CommandApdu" where
  "puk_probe scheme = case_1 (pin_header VERIFY_INS VERIFY_P1 (puk_reference scheme))"

definition counts_puk_tries :: "('s, 'e) CardTransport \<Rightarrow> ('s \<Rightarrow> nat) \<Rightarrow> bool" where
  "counts_puk_tries tp tries \<longleftrightarrow>
     (\<forall>c s. tries (fst (transmit tp c s)) = tries s) \<and>
     (\<forall>scheme s s' r. transmit tp (puk_probe scheme) s = (s', Ok (Response r)) \<longrightarrow>
        status_tells (classify_pin_status_sw (status_word r)) (tries s)) \<and>
     (\<forall>c s s' r. pin_container_query PUK_REFERENCE = Some c \<longrightarrow>
        transmit tp c s = (s', Ok (Response r)) \<longrightarrow> status_tells (container_status r) (tries s)) \<and>
     (\<forall>c s. tries s - 1 \<le> tries (fst (transmit_credential tp c s))) \<and>
     (\<forall>c s. \<not> presents_puk (take 4 (credential_wire c)) \<longrightarrow>
        tries s \<le> tries (fst (transmit_credential tp c s)))"

text \<open>Operations that leave the last two tries alone, and those that spend none.\<close>

definition keeps_last_two :: "('s \<Rightarrow> nat) \<Rightarrow> ('s, 'a, 'e) card_op \<Rightarrow> bool" where
  "keeps_last_two tries m \<longleftrightarrow> (\<forall>s. min (tries s) 2 \<le> tries (fst (m s)))"

definition reads_only :: "('s \<Rightarrow> nat) \<Rightarrow> ('s, 'a, 'e) card_op \<Rightarrow> bool" where
  "reads_only tries m \<longleftrightarrow> (\<forall>s. tries (fst (m s)) = tries s)"

lemma keeps_done [intro!]: "keeps_last_two tries (done_with r)" "reads_only tries (done_with r)"
  by (simp_all add: keeps_last_two_def reads_only_def done_with_def)

lemma reads_keeps: "reads_only tries m \<Longrightarrow> keeps_last_two tries m"
  by (simp add: reads_only_def keeps_last_two_def)

lemma keeps_then_do [intro!]:
  assumes "keeps_last_two tries m" "\<And>x. keeps_last_two tries (f x)"
  shows "keeps_last_two tries (then_do m f)"
  unfolding keeps_last_two_def
proof
  fix s
  have m: "min (tries s) 2 \<le> tries (fst (m s))" using assms(1) by (simp add: keeps_last_two_def)
  have f: "min (tries s') 2 \<le> tries (fst (f x s'))" for x s'
    using assms(2) by (simp add: keeps_last_two_def)
  show "min (tries s) 2 \<le> tries (fst (then_do m f s))"
  proof (cases "m s")
    case (Pair s' r)
    then have "min (tries s) 2 \<le> min (tries s') 2" using m by simp
    then have "min (tries s) 2 \<le> tries (fst (f x s'))" for x
      using f [of s' x] by (rule order_trans)
    then show ?thesis using Pair m by (cases r) (simp_all add: then_do_def)
  qed
qed

lemma reads_then_do [intro!]:
  assumes "reads_only tries m" "\<And>x. reads_only tries (f x)"
  shows "reads_only tries (then_do m f)"
  unfolding reads_only_def
proof
  fix s
  obtain s' r where m: "m s = (s', r)" by force
  then have "tries s' = tries s" using assms(1) by (metis fst_conv reads_only_def)
  then show "tries (fst (then_do m f s)) = tries s"
    using m assms(2) by (cases r) (auto simp: then_do_def reads_only_def)
qed

lemma reads_exchange: "counts_puk_tries tp tries \<Longrightarrow> reads_only tries (exchange tp c)"
  by (simp add: reads_only_def exchange_def counts_puk_tries_def split: prod.splits) (metis fst_conv)

lemma reads_container [intro]:
  assumes "counts_puk_tries tp tries"
  shows "reads_only tries (read_puk_status_from_container tp)"
    and "reads_only tries (read_pin_change_record tp slot)"
    and "reads_only tries (read_pin_policy_lengths tp reference)"
  using reads_exchange [OF assms]
  by (auto simp: read_puk_status_from_container_def read_pin_change_record_def
      read_pin_policy_lengths_def split: option.splits)

lemma reads_status [intro]:
  assumes "counts_puk_tries tp tries"
  shows "reads_only tries (pin_status_with_scheme tp n slot)"
    and "reads_only tries (resolve_pin_reference_scheme tp)"
    and "reads_only tries (puk_status tp n)"
proof -
  have probe: "reads_only tries (probe_status_word tp n slot)" for n slot
    unfolding probe_status_word_def using reads_exchange [OF assms] by auto
  then show "reads_only tries (pin_status_with_scheme tp n slot)"
    unfolding pin_status_with_scheme_def by auto
  have "reads_only tries (pin1_status_and_scheme tp)"
    unfolding pin1_status_and_scheme_def using probe by (auto simp: Let_def)
  then show "reads_only tries (resolve_pin_reference_scheme tp)"
    unfolding resolve_pin_reference_scheme_def by (auto split: prod.splits)
  show "reads_only tries (puk_status tp n)"
    unfolding puk_status_def using reads_exchange [OF assms] reads_container [OF assms]
    by (auto simp: Let_def)
qed

lemma assembled_header:
  assumes "body_from_block b = Ok body"
  shows "take 4 (credential_wire (credential_assemble h body)) = header_to_bytes h"
proof -
  have "unat (body_length body) \<le> 24"
    using assms by (auto simp: body_from_block_def Let_def credential_consts split: if_splits)
  then have "unat (5 + body_length body) = 5 + unat (body_length body)"
    by (simp add: unat_word_ariths)
  then show ?thesis
    by (simp add: credential_assemble_def expose_wire_def credential_consts Let_def
        take_copy_into_le take_update_cancel copy_into_zero min_def)
qed

text \<open>An exchange sends nothing, or one credential command under the given header.\<close>

lemma credential_exchange_shape:
  obtains "fst (credential_exchange tp scheme header groups s) = s"
  | c where "take 4 (credential_wire c) = header_to_bytes header"
    and "fst (credential_exchange tp scheme header groups s) = fst (transmit_credential tp c s)"
proof -
  obtain out tot where w: "write_credential_blocks scheme groups
      (replicate (length (block_bytes block_zeroed)) PIN_PAD_BYTE) = (out, tot)" by force
  show ?thesis
  proof (cases "body_from_block (block_set_filled tot (block_zeroed\<lparr>block_bytes := out\<rparr>))")
    case (Ok body)
    then show ?thesis
      using that(2) [OF assembled_header [OF Ok, of header]] w
      by (auto simp: credential_exchange_def Let_def then_do_def done_with_def exchange_credential_def
          split: prod.splits result.splits)
  next
    case (Err e)
    then show ?thesis
      using that(1) w by (simp add: credential_exchange_def Let_def done_with_def)
  qed
qed

lemma manage_exchange_state:
  "fst (manage_exchange tp scheme header groups s) = fst (credential_exchange tp scheme header groups s)"
  by (simp add: manage_exchange_def then_do_def done_with_def split: prod.splits result.splits)

lemma exchange_spends_one:
  assumes "counts_puk_tries tp tries"
  shows "tries s - 1 \<le> tries (fst (credential_exchange tp scheme header groups s))"
  using assms by (rule_tac credential_exchange_shape [of tp scheme header groups s])
    (auto simp: counts_puk_tries_def)

lemma exchange_other_keeps:
  assumes "counts_puk_tries tp tries" "\<not> presents_puk (header_to_bytes header)"
  shows "keeps_last_two tries (credential_exchange tp scheme header groups)"
  unfolding keeps_last_two_def
proof
  fix s
  have "tries s \<le> tries (fst (credential_exchange tp scheme header groups s))"
    using assms by (rule_tac credential_exchange_shape [of tp scheme header groups s])
      (auto simp: counts_puk_tries_def)
  then show "min (tries s) 2 \<le> tries (fst (credential_exchange tp scheme header groups s))"
    by simp
qed

lemma pin_commands_no_puk:
  "\<not> presents_puk (header_to_bytes (pin_header VERIFY_INS VERIFY_P1 (scheme_reference n slot)))"
  "\<not> presents_puk (header_to_bytes (pin_header CHANGE_REFERENCE_DATA_INS p1 p2))"
  "\<not> presents_puk (header_to_bytes (pin_header RESET_RETRY_COUNTER_INS RESET_P1_NEW_ONLY p2))"
  by (cases n; cases slot; simp add: presents_puk_def header_to_bytes_def pin_header_def verify_consts
      manage_consts reference_consts)+

lemma pin_commands_keep [intro]:
  assumes "counts_puk_tries tp tries"
  shows "keeps_last_two tries (verify_digits tp n slot digits)"
    and "keeps_last_two tries (change_pin tp n slot current fresh)"
    and "keeps_last_two tries (reset_new_only tp n slot fresh)"
  using exchange_other_keeps [OF assms] pin_commands_no_puk
  by (auto simp: verify_digits_def change_pin_def reset_new_only_def manage_exchange_def)

lemma exchange_Ok:
  "exchange tp c s = (s', Ok r) \<longleftrightarrow> transmit tp c s = (s', Ok (Response r))"
  by (auto simp: exchange_def response_of_def result_simps split: prod.splits elim: into_response.elims)

lemma puk_status_tells:
  assumes "counts_puk_tries tp tries" "puk_status tp n s = (s', Ok st)"
  shows "status_tells st (tries s)" and "tries s' = tries s"
proof -
  show "tries s' = tries s"
    using reads_status(3) [OF assms(1), of n] assms(2) by (metis fst_conv reads_only_def)
  obtain s1 r where probe: "exchange tp (puk_probe n) s = (s1, Ok r)"
    using assms(2) by (auto simp: puk_status_def then_do_def puk_probe_def split: prod.splits result.splits)
  let ?first = "classify_pin_status_sw (status_word r)"
  have first: "status_tells ?first (tries s)" "tries s1 = tries s"
    using assms(1) probe by (auto simp: counts_puk_tries_def exchange_Ok) (metis fst_conv)
  show "status_tells st (tries s)"
  proof (cases "st = ?first")
    case False
    then have "read_puk_status_from_container tp s1 = (s', Ok st)"
      using assms(2) probe
      by (auto simp: puk_status_def then_do_def puk_probe_def done_with_def Let_def split: if_splits)
    then obtain c r2 where "pin_container_query PUK_REFERENCE = Some c \<and>
        exchange tp c s1 = (s', Ok r2) \<and> st = container_status r2 \<or> st = NoInfo"
      by (auto simp: read_puk_status_from_container_def then_do_def done_with_def
          split: option.splits prod.splits result.splits)
    then have "status_tells st (tries s1)"
      using assms(1) by (auto simp: counts_puk_tries_def exchange_Ok)
    then show ?thesis by (simp add: first(2))
  qed (use first in simp)
qed

lemma floor_leaves_two:
  assumes "check_retry_floor FlooredPuk st = Ok ()" "status_tells st t"
  shows "t = 0 \<or> 3 \<le> t"
  using assms by (auto simp: retry_floor_Ok)

lemma unblock_keeps [intro]:
  assumes "counts_puk_tries tp tries"
  shows "keeps_last_two tries (unblock tp n slot puk fresh)"
  unfolding keeps_last_two_def
proof
  fix s
  obtain s1 r where status: "puk_status tp n s = (s1, r)" by force
  have same: "tries s1 = tries s"
    using reads_status(3) [OF assms, of n] status by (metis fst_conv reads_only_def)
  show "min (tries s) 2 \<le> tries (fst (unblock tp n slot puk fresh s))"
  proof (cases "\<exists>st. r = Ok st \<and> check_retry_floor FlooredPuk st = Ok ()")
    case False
    then have "fst (unblock tp n slot puk fresh s) = s1"
      using status by (cases r) (auto simp: unblock_def then_do_def done_with_def map_err_Ok_iff split: result.splits)
    then show ?thesis using same by simp
  next
    case True
    then obtain st where st: "r = Ok st" "check_retry_floor FlooredPuk st = Ok ()" by blast
    have tries: "tries s = 0 \<or> 3 \<le> tries s"
      using floor_leaves_two [OF st(2)] puk_status_tells(1) [OF assms] status st(1) by blast
    have one: "min (tries s) 2 \<le> tries (fst (manage_exchange tp n header groups s1))" for header groups
      using exchange_spends_one [OF assms, of s1 n header groups] same tries
      by (auto simp: manage_exchange_state)
    show ?thesis
    proof (cases n)
      case Citizen
      then show ?thesis using status st one by (simp add: unblock_def then_do_def done_with_def)
    next
      case Organizational
      obtain s2 r2 where v: "verify_puk tp n puk s1 = (s2, r2)" by force
      have two: "min (tries s) 2 \<le> tries s2" using one v by (metis fst_conv verify_puk_def)
      have "min (tries s2) 2 \<le> tries (fst (reset_new_only tp n slot fresh s2))"
        using pin_commands_keep(3) [OF assms] by (simp add: keeps_last_two_def)
      then have "min (tries s) 2 \<le> tries (fst (reset_new_only tp n slot fresh s2))"
        using two by linarith
      then show ?thesis
        using status st v two Organizational
        by (cases r2) (simp_all add: unblock_def then_do_def done_with_def)
    qed
  qed
qed

section \<open>Sequences of calls\<close>

text \<open>Every operation of the two modules, and a run of any of them in any order.\<close>

datatype auth_call =
    CallVerifyPin1 Pin1 | CallVerifyPin2 Pin2
  | CallChangePin1 Pin1 Pin1 | CallChangePin2 Pin2 Pin2
  | CallUnblockPin1 Puk Pin1 | CallUnblockPin2 Puk Pin2
  | CallActivate ActivationCode "Pin1 option" "Pin2 option"
  | CallNeeds ActivationScheme | CallPukStatus | CallHealth "int option"

definition outcome_only :: "('s, 'a, 'e) card_op \<Rightarrow> 's \<Rightarrow> 's" where
  "outcome_only m s = fst (m s)"

fun perform :: "('s, 'e) CardTransport \<Rightarrow> CardPinLengths \<Rightarrow> auth_call \<Rightarrow> 's \<Rightarrow> 's" where
  "perform tp l (CallVerifyPin1 pin) = outcome_only (verify_pin1 tp pin)"
| "perform tp l (CallVerifyPin2 pin) = outcome_only (verify_pin2 tp pin)"
| "perform tp l (CallChangePin1 current fresh) = outcome_only (change_pin1 tp l current fresh)"
| "perform tp l (CallChangePin2 current fresh) = outcome_only (change_pin2 tp l current fresh)"
| "perform tp l (CallUnblockPin1 puk fresh) = outcome_only (unblock_pin1 tp l puk fresh)"
| "perform tp l (CallUnblockPin2 puk fresh) = outcome_only (unblock_pin2 tp l puk fresh)"
| "perform tp l (CallActivate code p1 p2) = outcome_only (activate_card tp l code p1 p2)"
| "perform tp l (CallNeeds scheme) = outcome_only (activation_needs tp scheme)"
| "perform tp l CallPukStatus = outcome_only (probe_puk_status tp)"
| "perform tp l (CallHealth validity) = outcome_only (probe_credential_health tp validity)"

fun perform_all ::
  "('s, 'e) CardTransport \<Rightarrow> (CardPinLengths \<times> auth_call) list \<Rightarrow> 's \<Rightarrow> 's" where
  "perform_all tp [] s = s"
| "perform_all tp ((l, call) # calls) s = perform_all tp calls (perform tp l call s)"

lemma reads_activation [intro]:
  assumes "counts_puk_tries tp tries"
  shows "reads_only tries (read_activation tp scheme n)"
proof -
  have "reads_only tries (read_slot_activation tp scheme n slot)" for slot
    unfolding read_slot_activation_def
    using reads_container(2) [OF assms] reads_status(1) [OF assms] by auto
  then show ?thesis unfolding read_activation_def by (auto split: prod.splits)
qed

lemma keeps_check [intro!]:
  "keeps_last_two tries (check_length r)" "keeps_last_two tries (check_changed reading slot b)"
  "keeps_last_two tries (check_activation_lengths l code slot c)"
  by (auto simp: check_length_def check_changed_def check_activation_lengths_def split: option.splits)

lemma keeps_activate_slot:
  assumes "counts_puk_tries tp tries"
  shows "keeps_last_two tries (activate_slot tp scheme n slot code fresh)"
  using unblock_keeps [OF assms] pin_commands_keep(2) [OF assms]
  by (cases scheme) (simp_all add: activate_slot_def)

lemma keeps_activate_card:
  assumes "counts_puk_tries tp tries"
  shows "keeps_last_two tries (activate_card tp l code p1 p2)"
  unfolding activate_card_def Let_def
  using keeps_activate_slot [OF assms] reads_keeps [OF reads_activation [OF assms]]
  by (auto split: ActivationScheme.splits option.splits)

lemma perform_keeps:
  assumes "counts_puk_tries tp tries"
  shows "min (tries s) 2 \<le> tries (perform tp l call s)"
proof -
  note reads = reads_status [OF assms, THEN reads_keeps] reads_activation [OF assms, THEN reads_keeps]
  have k: "keeps_last_two tries m \<Longrightarrow> min (tries s) 2 \<le> tries (outcome_only m s)" for m
    by (simp add: keeps_last_two_def outcome_only_def)
  have needs: "keeps_last_two tries (activation_needs tp scheme)" for scheme
    unfolding activation_needs_def using reads by auto
  have health: "keeps_last_two tries (probe_credential_health tp v)" for v
    unfolding probe_credential_health_def Let_def using reads needs by (auto split: option.splits)
  show ?thesis
    using reads needs health pin_commands_keep [OF assms] unblock_keeps [OF assms]
      keeps_activate_card [OF assms]
    by (cases call)
      (auto intro!: k simp: verify_pin1_def verify_pin2_def verify_pin1_with_scheme_def
        verify_pin2_with_scheme_def change_pin1_def change_pin2_def unblock_pin1_def
        unblock_pin2_def probe_puk_status_def)
qed

text \<open>A card that holds nothing but the PUK's counter and refuses every PUK.\<close>

definition counting_card :: "(nat, unit) CardTransport" where
  "counting_card =
     \<lparr>transmit = (\<lambda>c s. (s, Ok (Response \<lparr>rsp_body = [], rsp_sw1 = 0x63, rsp_sw2 = 0xC0 + of_nat (min s 15)\<rparr>))),
      transmit_credential = (\<lambda>c s.
        (if presents_puk (take 4 (credential_wire c)) then min s 15 - 1 else s,
         Ok (Response \<lparr>rsp_body = [], rsp_sw1 = 0x63, rsp_sw2 = 0xC0\<rparr>)))\<rparr>"

lemma counter_answer:
  "sw_from_bytes 0x63 (0xC0 + of_nat (min s 15)) = PinIncorrect (PinRetries (of_nat (min s 15)))"
proof -
  have "sw_from_bytes 0x63 (0xC0 + of_nat n) = PinIncorrect (PinRetries (of_nat n))"
    if "n \<in> {0..15}" for n :: nat
  proof -
    have "n \<in> set [0..<16]" using that by auto
    then show ?thesis by (auto simp: upt_rec) (code_simp)+
  qed
  then show ?thesis by simp
qed

lemma counting_card_counts: "counts_puk_tries counting_card (\<lambda>s. min s 15)"
  by (auto simp: counts_puk_tries_def counting_card_def status_word_def counter_answer
      container_status_def)

section \<open>Properties\<close>

text \<open>
  Property C7. The last two tries of the PUK are never spent. Against any card that keeps the
  PUK's counter as its specification says, whatever sequence of verifications, changes, unblocks,
  activations and status readings is run, with whatever credentials, answers and transport
  failures, the PUK keeps at least two tries, or as many as it had if it had fewer.
\<close>
theorem puk_last_two_kept:
  assumes "counts_puk_tries tp tries"
  shows "min (tries s) 2 \<le> tries (perform_all tp calls s)"
proof (induction calls arbitrary: s)
  case (Cons c calls)
  obtain l call where c: "c = (l, call)" by force
  have "min (tries s) 2 \<le> min (tries (perform tp l call s)) 2"
    using perform_keeps [OF assms] by simp
  also have "\<dots> \<le> tries (perform_all tp calls (perform tp l call s))" by (rule Cons.IH)
  finally show ?case by (simp add: c)
qed simp

theorem puk_last_two_kept_witness:
  "2 \<le> min (perform_all counting_card
      (replicate 9 (not_listed Citizen,
         CallUnblockPin1 (Puk \<lparr>sd_bytes = replicate 12 0x31, sd_length = 8\<rparr>)
           (Pin1 \<lparr>sd_bytes = replicate 12 0x32, sd_length = 4\<rparr>))) 5) 15"
  using puk_last_two_kept [OF counting_card_counts, of 5] by simp

end
