(* ===== verification/Pkcs15_Token.thy ===== *)
theory Pkcs15_Token
  imports Pkcs15_Aod Rust_Strings
begin

text \<open>
  The token information file of \<open>crates/pkcs15/src/token_info.rs\<close> and the forms of the chip serial
  of \<open>token_serial.rs\<close>. The theory shows that the hexadecimal form of a serial decodes to the
  octets of the card, which rendering and the printed form follow from, and that a token
  information file in its DER form is read field by field, whichever optional fields it has.
\<close>

section \<open>Serials\<close>

abbreviation (input) HEX_CHARS_PER_BYTE :: nat where "HEX_CHARS_PER_BYTE \<equiv> 2"
abbreviation (input) NIBBLE_BITS :: nat where "NIBBLE_BITS \<equiv> 4"
abbreviation (input) LOW_NIBBLE_MASK :: u8 where "LOW_NIBBLE_MASK \<equiv> 0x0F"
abbreviation (input) HEX_LETTER_VALUE_OFFSET :: u8 where "HEX_LETTER_VALUE_OFFSET \<equiv> 10"
abbreviation (input) HEX_DIGITS :: bytes where "HEX_DIGITS \<equiv> str ''0123456789abcdef''"
abbreviation (input) PRINTABLE_ASCII_MIN :: u8 where "PRINTABLE_ASCII_MIN \<equiv> 0x20"
abbreviation (input) PRINTABLE_ASCII_MAX :: u8 where "PRINTABLE_ASCII_MAX \<equiv> 0x7E"
abbreviation (input) PRINTED_SERIAL_CHARS :: nat where "PRINTED_SERIAL_CHARS \<equiv> 9"
abbreviation (input) OLDER_FULL_SERIAL_CHARS :: nat where "OLDER_FULL_SERIAL_CHARS \<equiv> 20"
abbreviation (input) OLDER_PRINTED_START :: nat where "OLDER_PRINTED_START \<equiv> 10"

datatype TokenSerial = TokenSerial (serial_as_str: bytes)

datatype PrintedSerial = PrintedSerial (printed_as_str: bytes)

definition hex_encode :: "bytes \<Rightarrow> bytes" where
  "hex_encode bs =
     concat (map (\<lambda>b. [HEX_DIGITS ! unat (drop_bit NIBBLE_BITS b), HEX_DIGITS ! unat (b AND LOW_NIBBLE_MASK)]) bs)"

definition nybble :: "u8 \<Rightarrow> u8 option" where
  "nybble b =
     (if in_range 0x30 0x39 b then Some (b - 0x30)
      else if in_range 0x61 0x66 b then Some (b - 0x61 + HEX_LETTER_VALUE_OFFSET)
      else if in_range 0x41 0x46 b then Some (b - 0x41 + HEX_LETTER_VALUE_OFFSET)
      else None)"

text \<open>The loop over the pairs of digits; a last odd digit is left out, as \<open>as_chunks\<close> does.\<close>

fun decode_pairs :: "bytes \<Rightarrow> bytes option" where
  "decode_pairs (hi_char # lo_char # rest) =
     (case nybble hi_char of None \<Rightarrow> None | Some hi \<Rightarrow>
     (case nybble lo_char of None \<Rightarrow> None | Some lo \<Rightarrow>
        map_option ((#) (push_bit NIBBLE_BITS hi OR lo)) (decode_pairs rest)))"
| "decode_pairs _ = Some []"

definition decoded_hex_bytes :: "TokenSerial \<Rightarrow> bytes option" where
  "decoded_hex_bytes s =
     (if length (serial_as_str s) mod HEX_CHARS_PER_BYTE \<noteq> 0 then None
      else decode_pairs (serial_as_str s))"

definition render_token_serial :: "TokenSerial \<Rightarrow> TokenSerial" where
  "render_token_serial hex_token =
     (case decoded_hex_bytes hex_token of
        Some bs \<Rightarrow>
          if bs \<noteq> [] \<and> list_all (in_range PRINTABLE_ASCII_MIN PRINTABLE_ASCII_MAX) bs \<and> utf8_ok bs
          then TokenSerial bs else hex_token
      | None \<Rightarrow> hex_token)"

definition is_ascii_alphabetic :: "u8 \<Rightarrow> bool" where
  "is_ascii_alphabetic b \<longleftrightarrow> in_range 0x41 0x5A b \<or> in_range 0x61 0x7A b"

definition derive_printed_serial :: "TokenSerial \<Rightarrow> PrintedSerial option" where
  "derive_printed_serial full =
     (let text = serial_as_str full in
      if \<not> list_all (\<lambda>b. b < 0x80) text then None
      else if list_ex is_ascii_alphabetic text then
        (if length text < PRINTED_SERIAL_CHARS then None
         else Some (PrintedSerial (drop (length text - PRINTED_SERIAL_CHARS) text)))
      else if length text = OLDER_FULL_SERIAL_CHARS \<and> list_all (in_range 0x30 0x39) text then
        map_option PrintedSerial
          (slice_get text OLDER_PRINTED_START (OLDER_PRINTED_START + PRINTED_SERIAL_CHARS))
      else None)"

section \<open>Token information\<close>

abbreviation (input) TAG_TOKEN_INFO_LABEL_IMPLICIT :: u16 where "TAG_TOKEN_INFO_LABEL_IMPLICIT \<equiv> 0x80"
abbreviation (input) INTEGER_SIGN_BIT :: u8 where "INTEGER_SIGN_BIT \<equiv> 0x80"
abbreviation (input) VERSION_OCTETS :: nat where "VERSION_OCTETS \<equiv> 4"
abbreviation (input) OCTET_STRING_TAG :: u16 where "OCTET_STRING_TAG \<equiv> 0x04"
abbreviation (input) UTF8_STRING_TAG :: u16 where "UTF8_STRING_TAG \<equiv> 0x0C"
abbreviation (input) PRINTABLE_STRING_TAG :: u16 where "PRINTABLE_STRING_TAG \<equiv> 0x13"

record TokenInfo =
  ti_version :: u32
  ti_serial_number_hex :: "TokenSerial option"
  ti_manufacturer_id :: "bytes option"
  ti_label :: "bytes option"

definition unsigned_version :: "bytes \<Rightarrow> (u32, BerError) result" where
  "unsigned_version content =
     (let negative = (content \<noteq> [] \<and> hd content AND INTEGER_SIGN_BIT \<noteq> 0) in
      if content = [] \<or> negative \<or> length content > VERSION_OCTETS then Err IntegerOutOfRange
      else Ok (foldl (\<lambda>version b. push_bit 8 version OR ucast b) 0 content))"

definition is_label_string :: "u16 \<Rightarrow> bool" where
  "is_label_string tag \<longleftrightarrow> tag = UTF8_STRING_TAG \<or> tag = PRINTABLE_STRING_TAG"

text \<open>An optional child at position \<open>i\<close>, taken when its tag is admitted.\<close>

definition child_if :: "(u16 \<Rightarrow> bool) \<Rightarrow> BerTlvAny list \<Rightarrow> nat \<Rightarrow> bytes option \<times> nat" where
  "child_if admitted children i =
     (if i < length children \<and> admitted (tlv_tag (children ! i))
      then (Some (tlv_value (children ! i)), i + 1) else (None, i))"

definition token_info_parse :: "bytes \<Rightarrow> (TokenInfo, BerError) result" where
  "token_info_parse der =
     and_then (ber_parse_typed SEQUENCE_TAG der) (\<lambda>(outer, _).
     and_then (collect_results (ber_items outer)) (\<lambda>children.
     if children = [] then Err Truncated
     else if tlv_tag (children ! 0) \<noteq> INTEGER_TAG
       then Err (UnexpectedTag INTEGER_TAG (tlv_tag (children ! 0)))
     else and_then (unsigned_version (tlv_value (children ! 0))) (\<lambda>version.
     case child_if (\<lambda>t. t = OCTET_STRING_TAG) children 1 of (serial, i) \<Rightarrow>
     case child_if is_label_string children i of (manufacturer, i) \<Rightarrow>
     case child_if (\<lambda>t. t = TAG_TOKEN_INFO_LABEL_IMPLICIT \<or> is_label_string t) children i of
       (label, _) \<Rightarrow>
     Ok \<lparr>ti_version = version,
         ti_serial_number_hex = map_option (\<lambda>v. TokenSerial (hex_encode v)) serial,
         ti_manufacturer_id = map_option from_utf8_lossy manufacturer,
         ti_label = map_option from_utf8_lossy label\<rparr>)))"

section \<open>Hexadecimal serials\<close>

lemma nybble_digit: "n < 16 \<Longrightarrow> nybble (HEX_DIGITS ! n) = Some (of_nat n)"
proof -
  assume "n < 16"
  then have "n \<in> {0, 1, 2, 3, 4, 5, 6, 7, 8, 9, 10, 11, 12, 13, 14, 15}" by simp presburger
  then show ?thesis by (elim insertE) (simp_all add: str_def nybble_def in_range_def)
qed

lemma low_nibble: "b AND 0x0F = take_bit 4 (b :: u8)"
proof -
  have "(0x0F :: u8) = mask 4" by (simp add: mask_eq_exp_minus_1)
  then show ?thesis by (simp add: take_bit_eq_mask)
qed

lemma nibbles_join: "push_bit 4 (drop_bit 4 b) OR (b AND 0x0F) = (b :: u8)"
  unfolding low_nibble by (rule bit_word_eqI) (auto simp: bit_simps)

lemma nibble_less:
  "unat (drop_bit 4 (b :: u8)) < 16" "unat (b AND 0x0F) < 16"
  using unat_u8_less [of b]
  by (simp_all add: low_nibble drop_bit_eq_div take_bit_eq_mod unat_div_distrib unat_mod_distrib
      less_mult_imp_div_less)

lemma decode_pairs_hex: "decode_pairs (hex_encode bs) = Some bs"
proof (induction bs)
  case (Cons b bs)
  then show ?case
    by (simp add: hex_encode_def nybble_digit nibble_less nibbles_join)
qed (simp add: hex_encode_def)

lemma length_hex_encode [simp]: "length (hex_encode bs) = 2 * length bs"
  by (induction bs) (simp_all add: hex_encode_def)

lemma decoded_hex_encode: "decoded_hex_bytes (TokenSerial (hex_encode bs)) = Some bs"
  by (simp add: decoded_hex_bytes_def decode_pairs_hex)


lemma render_hex:
  "render_token_serial (TokenSerial (hex_encode bs)) =
     (if bs \<noteq> [] \<and> list_all (in_range 0x20 0x7E) bs then TokenSerial bs else TokenSerial (hex_encode bs))"
proof -
  have "utf8_ok bs" if "list_all (in_range 0x20 0x7E) bs"
    using that by (induction bs) (auto simp: in_range_def word_le_nat_alt word_less_nat_alt)
  then show ?thesis
    by (auto simp: render_token_serial_def decoded_hex_encode)
qed

section \<open>Token information as a card writes it\<close>

text \<open>
  A file with its mandatory version, its optional serial number, manufacturer and label, and the
  fields after them. A bare label string is told from a manufacturer by the manufacturer before it.
\<close>

record token_file =
  tf_version :: bytes
  tf_serial :: "bytes option"
  tf_manufacturer :: "(u8 \<times> bytes) option"
  tf_label :: "(u8 \<times> bytes) option"
  tf_others :: "(ber_tag_octets \<times> bytes) list"

definition opt_field :: "(u8 \<times> bytes) option \<Rightarrow> (ber_tag_octets \<times> bytes) list" where
  "opt_field f = (case f of None \<Rightarrow> [] | Some (t, v) \<Rightarrow> [(Tag1 t, v)])"

definition token_fields :: "token_file \<Rightarrow> (ber_tag_octets \<times> bytes) list" where
  "token_fields f =
     (Tag1 0x02, tf_version f) # opt_field (map_option (Pair 0x04) (tf_serial f)) @
     opt_field (tf_manufacturer f) @ opt_field (tf_label f) @ tf_others f"

definition token_file_ok :: "token_file \<Rightarrow> bool" where
  "token_file_ok f \<longleftrightarrow>
     (\<forall>t v. tf_manufacturer f = Some (t, v) \<longrightarrow> t \<in> {0x0C, 0x13}) \<and>
     (\<forall>t v. tf_label f = Some (t, v) \<longrightarrow>
        t = 0x80 \<or> t \<in> {0x0C, 0x13} \<and> tf_manufacturer f \<noteq> None) \<and>
     (tf_others f \<noteq> [] \<longrightarrow> ber_tag_of (fst (hd (tf_others f))) \<notin> {0x04, 0x0C, 0x13, 0x80})"

lemma child_if_fields:
  assumes "map tlv_tag ps = map (ber_tag_of \<circ> fst) (pre @ opt_field f @ post)"
    and "map tlv_value ps = map snd (pre @ opt_field f @ post)"
    and "\<forall>t v. f = Some (t, v) \<longrightarrow> admitted (ucast t)"
    and "f = None \<Longrightarrow> post \<noteq> [] \<Longrightarrow> \<not> admitted (ber_tag_of (fst (hd post)))"
  shows "child_if admitted ps (length pre) =
           (map_option snd f, length (pre @ opt_field f))"
proof -
  let ?all = "pre @ opt_field f @ post"
  have len: "length ps = length ?all" using arg_cong [OF assms(1), of length] by simp
  have nth: "tlv_tag (ps ! i) = ber_tag_of (fst (?all ! i))" "tlv_value (ps ! i) = snd (?all ! i)"
    if "i < length ps" for i
    using that len arg_cong [OF assms(1), of "\<lambda>xs. xs ! i"] arg_cong [OF assms(2), of "\<lambda>xs. xs ! i"]
    by (simp_all add: nth_map del: map_append)
  show ?thesis
  proof (cases f)
    case None
    then show ?thesis
      using assms(4) nth [of "length pre"] len
      by (auto simp: child_if_def opt_field_def hd_conv_nth nth_append)
  next
    case (Some tv)
    then show ?thesis
      using assms(3) nth [of "length pre"] len
      by (cases tv) (auto simp: child_if_def opt_field_def nth_append)
  qed
qed

lemma version_value:
  "foldl (\<lambda>version b. push_bit 8 version OR ucast b) (0 :: u32) bs = of_nat (be_value bs)"
proof (induction bs rule: rev_induct)
  case (snoc b bs)
  have "push_bit 8 (x :: u32) OR ucast (b :: u8) = push_bit 8 x + ucast b" for x
    by (rule disjunctive_add [symmetric]) (auto simp: bit_simps)
  with snoc show ?case
    by (simp add: be_value_snoc push_bit_eq_mult mult.commute)
qed simp

lemma unsigned_version_Ok:
  "bs \<noteq> [] \<Longrightarrow> hd bs < 0x80 \<Longrightarrow> length bs \<le> 4 \<Longrightarrow>
     unsigned_version bs = Ok (of_nat (be_value bs))"
  by (simp add: unsigned_version_def sign_bit_clear version_value)

section \<open>Properties\<close>

text \<open>
  Property C39. Token information is read field by field. For a file in its DER form with a
  non-negative version of one to four octets, any of the optional serial number, manufacturer and
  label, any fields after them and any octets after the file, the parser returns the version, the
  serial in hexadecimal, and the two strings; the serial's readable form is the card's own text
  where that is printable.
\<close>
theorem token_info_exact:
  assumes "token_file_ok f" "tf_version f \<noteq> []" "hd (tf_version f) < 0x80" "length (tf_version f) \<le> 4"
    and "encode_all (token_fields f) = Ok content" "ber_encode (Tag1 0x30, content) = Ok w"
  shows "token_info_parse (w @ rest) =
       Ok \<lparr>ti_version = of_nat (be_value (tf_version f)),
           ti_serial_number_hex = map_option (TokenSerial \<circ> hex_encode) (tf_serial f),
           ti_manufacturer_id = map_option (from_utf8_lossy \<circ> snd) (tf_manufacturer f),
           ti_label = map_option (from_utf8_lossy \<circ> snd) (tf_label f)\<rparr> \<and>
     (\<forall>s. tf_serial f = Some s \<longrightarrow>
        render_token_serial (TokenSerial (hex_encode s)) =
          TokenSerial (if s \<noteq> [] \<and> list_all (in_range 0x20 0x7E) s then s else hex_encode s))"
proof -
  let ?version = "(Tag1 0x02, tf_version f)" and ?serial = "map_option (Pair (0x04 :: u8)) (tf_serial f)"
  let ?m = "tf_manufacturer f" and ?l = "tf_label f"
  obtain ps where ps: "collect_results (ber_items content) = Ok ps"
      "map tlv_tag ps = map (ber_tag_of \<circ> fst) (token_fields f)"
      "map tlv_value ps = map snd (token_fields f)"
    using assms(5) by (rule encode_all_items)
  have first: "ps \<noteq> []" "tlv_tag (ps ! 0) = 0x02" "tlv_value (ps ! 0) = tf_version f"
    using ps(2,3) by (cases ps; simp add: token_fields_def)+
  have outer: "ber_parse_typed SEQUENCE_TAG (w @ rest) = Ok (content, length w)"
    using ber_parse_encode [OF assms(6), of rest]
    by (simp add: ber_parse_typed_def ber_expect_def ber_view_def aod_consts)
  have s: "child_if (\<lambda>t. t = 0x04) ps (length [?version]) =
      (map_option snd ?serial, length ([?version] @ opt_field ?serial))"
    using ps(2,3) assms(1)
    by (intro child_if_fields [where post = "opt_field ?m @ opt_field ?l @ tf_others f"])
      (auto simp: token_fields_def token_file_ok_def opt_field_def split: option.splits)
  have m: "child_if is_label_string ps (length ([?version] @ opt_field ?serial)) =
      (map_option snd ?m, length (([?version] @ opt_field ?serial) @ opt_field ?m))"
    using ps(2,3) assms(1)
    by (intro child_if_fields [where post = "opt_field ?l @ tf_others f"])
      (auto simp: token_fields_def token_file_ok_def opt_field_def is_label_string_def split: option.splits)
  have l: "child_if (\<lambda>t. t = 0x80 \<or> is_label_string t) ps
        (length (([?version] @ opt_field ?serial) @ opt_field ?m)) =
      (map_option snd ?l, length ((([?version] @ opt_field ?serial) @ opt_field ?m) @ opt_field ?l))"
    using ps(2,3) assms(1)
    by (intro child_if_fields [where post = "tf_others f"])
      (auto simp: token_fields_def token_file_ok_def opt_field_def is_label_string_def split: option.splits)
  show ?thesis
    using s m l first assms(2-4)
    by (simp add: token_info_parse_def outer ps(1) INTEGER_TAG_def unsigned_version_Ok render_hex
        option.map_comp comp_def)
qed

theorem token_info_exact_witness:
  "token_info_parse ([0x30, 0x0F, 0x02, 0x01, 0x00, 0x04, 0x01, 0x41, 0x0C, 0x01, 0x42, 0x80, 0x01, 0x43,
      0x03, 0x01, 0x00] @ [0xFF]) =
     Ok \<lparr>ti_version = 0, ti_serial_number_hex = Some (TokenSerial (str ''41'')),
         ti_manufacturer_id = Some (str ''B''), ti_label = Some (str ''C'')\<rparr>"
proof -
  let ?f = "\<lparr>tf_version = [0], tf_serial = Some [0x41], tf_manufacturer = Some (0x0C, [0x42]),
      tf_label = Some (0x80, [0x43]), tf_others = [(Tag1 0x03, [0])]\<rparr>"
  let ?content = "[0x02, 0x01, 0x00, 0x04, 0x01, 0x41, 0x0C, 0x01, 0x42, 0x80, 0x01, 0x43, 0x03, 0x01, 0x00] :: bytes"
  have ok: "token_file_ok ?f" by (simp add: token_file_ok_def)
  have fields: "encode_all (token_fields ?f) = Ok ?content" by code_simp
  have whole: "ber_encode (Tag1 0x30, ?content) = Ok (0x30 # 0x0F # ?content)" by code_simp
  have strings: "from_utf8_lossy [0x42] = str ''B''" "from_utf8_lossy [0x43] = str ''C''"
      "hex_encode [0x41] = str ''41''" "be_value [0] = 0"
    by code_simp+
  show ?thesis
    using token_info_exact [OF ok _ _ _ fields whole, of "[0xFF]"] by (simp add: strings)
qed

end
