(* ===== verification/Pkcs15_Fs.thy ===== *)
theory Pkcs15_Fs
  imports Pkcs15_Token Iso7816 Card_Transport
begin

text \<open>
  Card file access of \<open>crates/pkcs15/src/fs.rs\<close> on any transport: selecting applications,
  directories and files with the variants card generations need, and the two reading loops. The
  theory shows that the loops end after a bounded number of commands whatever the card answers,
  that they read exactly the object a card holds, and that selecting and reading together return
  the certificates, the authentication objects and the token information of the card.
\<close>

section \<open>Certificate slots\<close>

abbreviation (input) PKCS15_AID :: bytes where
  "PKCS15_AID \<equiv> [0xA0, 0x00, 0x00, 0x00, 0x63] @ str ''PKCS-15''"
abbreviation (input) ESIGN_AID :: bytes where "ESIGN_AID \<equiv> str ''E.SIGN''"
abbreviation (input) EF_AUTH_CERT_FID :: FileId where "EF_AUTH_CERT_FID \<equiv> file_id_from_u16 0x4331"
abbreviation (input) EF_SIGN_CERT_FID :: FileId where "EF_SIGN_CERT_FID \<equiv> file_id_from_u16 0x4332"
abbreviation (input) EF_AUTH_CERT_ALT_FID :: FileId where "EF_AUTH_CERT_ALT_FID \<equiv> file_id_from_u16 0x4333"
abbreviation (input) EF_ROOT_CA_FID :: FileId where "EF_ROOT_CA_FID \<equiv> file_id_from_u16 0x4334"
abbreviation (input) EF_SIGN_CERT_ALT_FID :: FileId where "EF_SIGN_CERT_ALT_FID \<equiv> file_id_from_u16 0x4335"
abbreviation (input) EF_ISSUING_CA_ECC_FID :: FileId where "EF_ISSUING_CA_ECC_FID \<equiv> file_id_from_u16 0x4336"
abbreviation (input) EF_TOKEN_INFO_FID :: FileId where "EF_TOKEN_INFO_FID \<equiv> file_id_from_u16 0x5032"
abbreviation (input) DF_ESIGN_FID :: FileId where "DF_ESIGN_FID \<equiv> file_id_from_u16 0x5016"
abbreviation (input) EF_AOD_FID :: FileId where "EF_AOD_FID \<equiv> file_id_from_u16 0x4401"

datatype SlotPath = UnderPkcs15App | UnderEsignDirectory | UnderMf

datatype CertSlot =
    Authentication | Signature | AuthenticationAlt | RootCa | SignatureAlt | IssuingCaEcc

primrec slot_fid :: "CertSlot \<Rightarrow> FileId" where
  "slot_fid Authentication = EF_AUTH_CERT_FID"
| "slot_fid Signature = EF_SIGN_CERT_FID"
| "slot_fid AuthenticationAlt = EF_AUTH_CERT_ALT_FID"
| "slot_fid RootCa = EF_ROOT_CA_FID"
| "slot_fid SignatureAlt = EF_SIGN_CERT_ALT_FID"
| "slot_fid IssuingCaEcc = EF_ISSUING_CA_ECC_FID"

primrec slot_label :: "CertSlot \<Rightarrow> string" where
  "slot_label Authentication = ''authentication (EF.4331)''"
| "slot_label Signature = ''qualified signature (EF.4332)''"
| "slot_label AuthenticationAlt = ''authentication, alt slot (EF.4333)''"
| "slot_label RootCa = ''on-card issuing root CA (EF.4334)''"
| "slot_label SignatureAlt = ''qualified signature, alt slot (EF.4335)''"
| "slot_label IssuingCaEcc = ''issuing intermediate CA (EF.4336)''"

primrec slot_path :: "CertSlot \<Rightarrow> SlotPath" where
  "slot_path Authentication = UnderPkcs15App"
| "slot_path Signature = UnderEsignDirectory"
| "slot_path AuthenticationAlt = UnderEsignDirectory"
| "slot_path SignatureAlt = UnderEsignDirectory"
| "slot_path RootCa = UnderMf"
| "slot_path IssuingCaEcc = UnderMf"

definition requires_mf_traversal :: "CertSlot \<Rightarrow> bool" where
  "requires_mf_traversal slot \<longleftrightarrow> slot_path slot \<noteq> UnderPkcs15App"

definition slots_all :: "CertSlot list" where
  "slots_all = [Authentication, Signature, AuthenticationAlt, RootCa, SignatureAlt]"

abbreviation (input) READ_CHUNK :: u8 where "READ_CHUNK \<equiv> 0xDF"

definition MAX_OBJECT_BYTES :: nat where "MAX_OBJECT_BYTES = 0x4000"

datatype MalformedDerLength = MalformedDerLength

text \<open>The sums and shifts of the code are checked; none can leave the range of \<open>usize\<close>.\<close>

definition der_object_total_length :: "bytes \<Rightarrow> (nat option, MalformedDerLength) result" where
  "der_object_total_length prefix =
     (if length prefix < 2 then Ok None
      else
        let first = prefix ! 1 in
        if first AND 0x80 = 0 then Ok (Some (2 + unat first))
        else
          let octet_count = unat (first AND 0x7F) in
          if octet_count = 0 \<or> octet_count > 2 then Err MalformedDerLength
          else
            let header_len = 2 + octet_count in
            if length prefix < header_len then Ok None
            else Ok (Some (header_len +
              foldl (\<lambda>content_len b. content_len * 256 + unat b) 0 (take octet_count (drop 2 prefix)))))"

datatype 'e Pkcs15Error =
    FsTransport 'e
  | FsOutcome TransportOutcome
  | FsStatus StatusWord
  | FsAid AidError
  | FsCommand CommandDataError
  | FsEmpty
  | FsTooLarge
  | FsInvalidData string

type_synonym ('s, 'a, 'e) fs_op = "('s, 'a, 'e Pkcs15Error) transport_op"

section \<open>Selecting\<close>

definition fs_exchange :: "('s, 'e) CardTransport \<Rightarrow> CommandApdu \<Rightarrow> ('s, ResponseApdu, 'e) fs_op" where
  "fs_exchange tp command s =
     (case transmit tp command s of
        (s, r) \<Rightarrow> (s, and_then (map_err FsTransport r) (\<lambda>outcome. map_err FsOutcome (into_response outcome))))"

fun select_variants_from ::
  "('s, 'e) CardTransport \<Rightarrow> StatusWord \<Rightarrow> CommandApdu list \<Rightarrow> ('s, unit, 'e) fs_op" where
  "select_variants_from tp last_sw [] = done_with (Err (FsStatus last_sw))"
| "select_variants_from tp last_sw (command # variants) =
     then_do (fs_exchange tp command) (\<lambda>response.
       if response_is_ok response then done_with (Ok ())
       else select_variants_from tp (status_word response) variants)"

definition select_with_variants ::
  "('s, 'e) CardTransport \<Rightarrow> CommandApdu list \<Rightarrow> ('s, unit, 'e) fs_op" where
  "select_with_variants tp variants = select_variants_from tp (OtherSw 0) variants"

abbreviation (input) P1_SELECT_CHILD_DF :: u8 where "P1_SELECT_CHILD_DF \<equiv> 0x01"
abbreviation (input) P1_SELECT_BY_NAME :: u8 where "P1_SELECT_BY_NAME \<equiv> 0x04"
abbreviation (input) P2_NO_RESPONSE_DATA :: u8 where "P2_NO_RESPONSE_DATA \<equiv> mode_as_p2 NoResponse"

definition select_by_name_variant :: "FileId \<Rightarrow> (CommandApdu, 'e Pkcs15Error) result" where
  "select_by_name_variant fid =
     map_err FsCommand (case_3 \<lparr>hdr_class = Plain, hdr_instruction = SELECT_INS,
       hdr_p1 = P1_SELECT_BY_NAME, hdr_p2 = P2_NO_RESPONSE_DATA\<rparr> (file_id_as_bytes fid))"

definition select_child_df_variant :: "FileId \<Rightarrow> (CommandApdu, 'e Pkcs15Error) result" where
  "select_child_df_variant fid =
     map_err FsCommand (case_3 \<lparr>hdr_class = Plain, hdr_instruction = SELECT_INS,
       hdr_p1 = P1_SELECT_CHILD_DF, hdr_p2 = P2_NO_RESPONSE_DATA\<rparr> (file_id_as_bytes fid))"

definition select_any_by_fid_variant :: "FileId \<Rightarrow> CommandApdu" where
  "select_any_by_fid_variant fid =
     select_file_into_apdu \<lparr>sf_class = Plain, sf_target = AnyByFileId (Some fid),
       sf_response_mode = NoResponse\<rparr>"

definition select_pkcs15_application :: "('s, 'e) CardTransport \<Rightarrow> ('s, unit, 'e) fs_op" where
  "select_pkcs15_application tp =
     then_do (done_with (map_err FsAid (aid_new PKCS15_AID))) (\<lambda>aid.
     then_do (fs_exchange tp (select_by_aid_into_apdu (SelectByAidNoFci aid))) (\<lambda>response.
       if \<not> response_is_ok response then done_with (Err (FsStatus (status_word response)))
       else done_with (Ok ())))"

definition select_ef :: "('s, 'e) CardTransport \<Rightarrow> FileId \<Rightarrow> ('s, unit, 'e) fs_op" where
  "select_ef tp fid =
     select_with_variants tp [select_ef_into_apdu (SelectEfNoFci fid), select_any_by_fid_variant fid]"

definition select_mf :: "('s, 'e) CardTransport \<Rightarrow> ('s, unit, 'e) fs_op" where
  "select_mf tp =
     then_do (done_with (select_by_name_variant FILE_ID_MF)) (\<lambda>by_name.
       select_with_variants tp [select_any_by_fid_variant FILE_ID_MF, by_name])"

definition select_child_df :: "('s, 'e) CardTransport \<Rightarrow> FileId \<Rightarrow> ('s, unit, 'e) fs_op" where
  "select_child_df tp fid =
     then_do (done_with (select_child_df_variant fid)) (\<lambda>child.
       select_with_variants tp [child, select_any_by_fid_variant fid])"

definition select_esign_directory :: "('s, 'e) CardTransport \<Rightarrow> ('s, unit, 'e) fs_op" where
  "select_esign_directory tp =
     then_do (select_mf tp) (\<lambda>_.
     then_do (done_with (map_err FsAid (aid_new ESIGN_AID))) (\<lambda>aid.
     then_do (done_with (select_child_df_variant DF_ESIGN_FID)) (\<lambda>child.
       select_with_variants tp [select_by_aid_into_apdu (SelectByAidNoFci aid), child,
         select_any_by_fid_variant DF_ESIGN_FID])))"

section \<open>Reading\<close>

definition u16_try_from :: "nat \<Rightarrow> u16 option" where
  "u16_try_from n = (if n < 2 ^ 16 then Some (of_nat n) else None)"

definition read_chunk :: "('s, 'e) CardTransport \<Rightarrow> nat \<Rightarrow> u8 \<Rightarrow> ('s, ResponseApdu, 'e) fs_op" where
  "read_chunk tp offset want =
     then_do (done_with (ok_or (u16_try_from offset) FsTooLarge)) (\<lambda>offset_wire.
     then_do (done_with (map_err (\<lambda>_. FsTooLarge) (direct_offset_try_new offset_wire))) (\<lambda>direct.
       fs_exchange tp (read_binary_into_apdu
         \<lparr>rb_class = Plain, rb_offset = Direct direct, rb_le = want\<rparr>)))"

text \<open>
  One turn of either loop: how many octets are asked for, and the response, or the error that ends
  the loop.
\<close>

definition read_turn ::
  "('s, 'e) CardTransport \<Rightarrow> nat \<Rightarrow> nat \<Rightarrow> ('s, u8 \<times> ResponseApdu \<times> bool, 'e) fs_op" where
  "read_turn tp offset remaining =
     then_do (done_with (ok_or (u8_try_from (min remaining (unat READ_CHUNK))) FsTooLarge)) (\<lambda>want.
     then_do (read_chunk tp offset want) (\<lambda>response.
       let end_of_file = (status_word response = EndOfFile) in
       if \<not> response_is_ok response \<and> \<not> end_of_file
       then done_with (Err (FsStatus (status_word response)))
       else done_with (Ok (want, response, end_of_file))))"

function read_to_end_loop ::
  "('s, 'e) CardTransport \<Rightarrow> nat \<Rightarrow> bytes \<Rightarrow> nat \<Rightarrow> ('s, bytes, 'e) fs_op" where
  "read_to_end_loop tp cap collected offset s =
     (if offset < cap then
        (case read_turn tp offset (cap - offset) s of
           (s, Err e) \<Rightarrow> (s, Err e)
         | (s, Ok (want, response, end_of_file)) \<Rightarrow>
             let body_len = length (rsp_body response);
                 collected = collected @ rsp_body response
             in if body_len = 0 \<or> body_len < unat want \<or> end_of_file then (s, Ok collected)
                else read_to_end_loop tp cap collected (offset + body_len) s)
      else (s, Ok collected))"
  by auto
termination
  by (relation "measure (\<lambda>(tp, cap, collected, offset, s). cap - offset)")
    (auto simp: diff_less_mono2 simp flip: length_greater_0_conv)

declare read_to_end_loop.simps [simp del]

definition read_binary_to_end ::
  "('s, 'e) CardTransport \<Rightarrow> nat option \<Rightarrow> ('s, bytes, 'e) fs_op" where
  "read_binary_to_end tp expected_size =
     (let cap = min (case expected_size of Some n \<Rightarrow> n | None \<Rightarrow> MAX_OBJECT_BYTES) MAX_OBJECT_BYTES in
      then_do (read_to_end_loop tp cap [] 0) (\<lambda>collected.
        if collected = [] then done_with (Err FsEmpty)
        else if length collected > MAX_OBJECT_BYTES then done_with (Err FsTooLarge)
        else done_with (Ok collected)))"

text \<open>What a turn makes of the total length: the one known already, or the one the header now gives.\<close>

definition total_after ::
  "string \<Rightarrow> nat option \<Rightarrow> bytes \<Rightarrow> (nat option, 'e Pkcs15Error) result" where
  "total_after what total_length collected =
     (case total_length of
        Some _ \<Rightarrow> Ok total_length
      | None \<Rightarrow>
          and_then (map_err (\<lambda>_. FsInvalidData what) (der_object_total_length collected)) (\<lambda>parsed.
            case parsed of
              Some tot \<Rightarrow> if tot > MAX_OBJECT_BYTES then Err FsTooLarge else Ok (Some tot)
            | None \<Rightarrow> Ok None))"

function read_object_loop ::
  "('s, 'e) CardTransport \<Rightarrow> string \<Rightarrow> bytes \<Rightarrow> nat option \<Rightarrow> ('s, bytes, 'e) fs_op" where
  "read_object_loop tp what collected total_length s =
     (let cap = (case total_length of Some n \<Rightarrow> n | None \<Rightarrow> MAX_OBJECT_BYTES) in
      if length collected \<ge> cap then (s, Ok (take cap collected))
      else
        case read_turn tp (length collected) (cap - length collected) s of
          (s, Err e) \<Rightarrow> (s, Err e)
        | (s, Ok (want, response, end_of_file)) \<Rightarrow>
            if rsp_body response = []
            then (s, Err (if collected = [] then FsEmpty else FsInvalidData what))
            else
              let body_len = length (rsp_body response);
                  collected = collected @ rsp_body response
              in case total_after what total_length collected of
                   Err e \<Rightarrow> (s, Err e)
                 | Ok total_length \<Rightarrow>
                     (case total_length of
                        Some tot \<Rightarrow>
                          if length collected \<ge> tot then (s, Ok (take tot collected))
                          else if body_len < unat want \<or> end_of_file then (s, Err (FsInvalidData what))
                          else read_object_loop tp what collected total_length s
                      | None \<Rightarrow>
                          if body_len < unat want \<or> end_of_file then (s, Err (FsInvalidData what))
                          else read_object_loop tp what collected total_length s))"
  by auto
termination
proof (relation "measure (\<lambda>(tp, what, collected, total_length, s).
    (case total_length of Some n \<Rightarrow> n | None \<Rightarrow> MAX_OBJECT_BYTES) - length collected)")
qed (auto simp: total_after_def result_simps simp flip: length_greater_0_conv
    split: option.splits if_splits)

declare read_object_loop.simps [simp del]

definition read_binary_der_object :: "('s, 'e) CardTransport \<Rightarrow> string \<Rightarrow> ('s, bytes, 'e) fs_op" where
  "read_binary_der_object tp what = read_object_loop tp what [] None"

datatype UnvalidatedCertificate = UnvalidatedCertificate (certificate_as_bytes: bytes)

definition read_certificate ::
  "('s, 'e) CardTransport \<Rightarrow> CertSlot \<Rightarrow> ('s, UnvalidatedCertificate, 'e) fs_op" where
  "read_certificate tp slot =
     then_do (case slot_path slot of
         UnderPkcs15App \<Rightarrow>
           then_do (select_pkcs15_application tp) (\<lambda>_.
           then_do (select_ef tp (slot_fid slot)) (\<lambda>_.
             read_binary_der_object tp (slot_label slot)))
       | UnderEsignDirectory \<Rightarrow>
           then_do (select_esign_directory tp) (\<lambda>_.
           then_do (select_ef tp (slot_fid slot)) (\<lambda>_.
             read_binary_der_object tp (slot_label slot)))
       | UnderMf \<Rightarrow>
           then_do (select_mf tp) (\<lambda>_.
           then_do (select_ef tp (slot_fid slot)) (\<lambda>_.
             read_binary_der_object tp (slot_label slot))))
       (\<lambda>bs. done_with (Ok (UnvalidatedCertificate bs)))"

definition read_authentication_objects ::
  "('s, 'e) CardTransport \<Rightarrow> ('s, PasswordObject list, 'e) fs_op" where
  "read_authentication_objects tp =
     then_do (select_pkcs15_application tp) (\<lambda>_.
     then_do (select_ef tp EF_AOD_FID) (\<lambda>_.
     then_do (read_binary_to_end tp None) (\<lambda>bs.
       done_with (map_err (\<lambda>_. FsInvalidData ''EF.AOD'') (aod_parse bs)))))"

definition read_token_info :: "('s, 'e) CardTransport \<Rightarrow> ('s, TokenInfo, 'e) fs_op" where
  "read_token_info tp =
     then_do (select_pkcs15_application tp) (\<lambda>_.
     then_do (select_ef tp EF_TOKEN_INFO_FID) (\<lambda>_.
     then_do (read_binary_der_object tp ''EF.TokenInfo'') (\<lambda>bs.
       done_with (map_err (\<lambda>_. FsInvalidData ''EF.TokenInfo'') (token_info_parse bs)))))"

section \<open>The declared length of an object\<close>

lemma der_content_len: "foldl (\<lambda>content_len b. content_len * 256 + unat b) 0 bs = be_value bs"
  by (simp add: be_value_def push_or_eq)

lemma der_total_bytes:
  assumes "der_object_total_length p = Ok None"
  shows "length p < 4"
  using assms by (auto simp: der_object_total_length_def Let_def split: if_splits)

lemma encoded_header:
  assumes "tlv t v = Ok w" "length w \<le> MAX_OBJECT_BYTES"
  obtains "length v < 128" "w = t # of_nat (length v) # v"
    | "length v < 256" "w = t # 0x81 # of_nat (length v) # v"
    | "length v < 65536" "w = t # 0x82 # be_bytes 2 (length v) @ v"
proof -
  obtain lb where lb: "push_length [] (length v) = (lb, Ok ())" and w: "w = t # lb @ v"
    using assms(1) ber_encode_Ok [of "Tag1 t" v w] by auto
  have "length v < 65536" using assms(2) by (simp add: w MAX_OBJECT_BYTES_def)
  then consider "length v < 128" "lb = [of_nat (length v)]"
    | "length v < 256" "lb = [0x81, of_nat (length v)]"
    | "length v < 65536" "lb = 0x82 # be_bytes 2 (length v)"
    using lb by (auto simp: push_length_def ber_consts split: if_splits)
  then show thesis by cases (use that w in auto)
qed

lemma der_total_encoded:
  assumes "tlv t v = Ok w" "length w \<le> MAX_OBJECT_BYTES"
  shows "der_object_total_length (take k (w @ pad)) = Ok None \<and> k < 4 \<and> k < length w \<or>
     der_object_total_length (take k (w @ pad)) = Ok (Some (length w))"
  using assms
proof (cases rule: encoded_header)
  case 1
  then show ?thesis
    using sign_bit_clear [of "of_nat (length v)"]
    by (auto simp: der_object_total_length_def word_less_nat_alt unat_of_nat_u8 take_Cons' nth_Cons')
next
  case 2
  then show ?thesis
    by (auto simp: der_object_total_length_def Let_def der_content_len be_value_Cons take_Cons')
next
  case 3
  then show ?thesis
    by (auto simp: der_object_total_length_def Let_def der_content_len be_value_be_bytes take_Cons')
qed

section \<open>Every command of the loops\<close>

text \<open>
  A turn sends at most one command, and it is a READ BINARY. The two loops ask for a full chunk as
  long as they go on, so their number of turns is bounded by the octets still to read.
\<close>

definition is_read :: "sent \<Rightarrow> bool" where
  "is_read c \<longleftrightarrow> (\<exists>p1 p2 le. c = SentPlain [0x00, 0xB0, p1, p2, le])"

lemma read_turn_sends:
  assumes "read_turn (recording tp) off rem (s, log) = ((s', log'), r)"
  shows "\<exists>cs. log' = log @ cs \<and> length cs \<le> 1 \<and> list_all is_read cs"
  using assms
  by (auto simp: read_turn_def read_chunk_def fs_exchange_def recording_def then_do_def done_with_def
      Let_def is_read_def read_binary_into_apdu_def allow_wrong_le_retry_def from_wire_def
      split: prod.splits result.splits if_splits)

lemma read_turn_Ok:
  assumes "read_turn tp off rem s = (s', Ok (want, r, eof))"
  shows "unat want = min rem 223" "eof \<longleftrightarrow> status_word r = EndOfFile"
  using assms
  by (auto simp: read_turn_def then_do_def done_with_def Let_def u8_try_from_def
      split: prod.splits result.splits if_splits)

lemma read_to_end_sends:
  assumes "read_to_end_loop (recording tp) cap collected offset (s, log) = ((s', log'), r)"
  shows "\<exists>cs. log' = log @ cs \<and> 223 * length cs \<le> cap - offset + 222 \<and>
     (offset \<ge> cap \<longrightarrow> cs = []) \<and> list_all is_read cs"
  using assms
proof (induction "recording tp" cap collected offset "(s, log)" arbitrary: s log
    rule: read_to_end_loop.induct)
  case (1 cap collected offset s log)
  obtain s1 log1 t where turn: "read_turn (recording tp) offset (cap - offset) (s, log) = ((s1, log1), t)"
    by (metis prod.exhaust)
  obtain cs where cs: "log1 = log @ cs" "length cs \<le> 1" "list_all is_read cs"
    using read_turn_sends [OF turn] by blast
  show ?case
  proof (cases "offset < cap \<and> (\<exists>want response. t = Ok (want, response, False) \<and>
      length (rsp_body response) \<noteq> 0 \<and> \<not> length (rsp_body response) < unat want)")
    case True
    then obtain want response where t: "offset < cap" "t = Ok (want, response, False)"
      "length (rsp_body response) \<noteq> 0" "\<not> length (rsp_body response) < unat want" by blast
    let ?n = "length (rsp_body response)"
    have "read_to_end_loop (recording tp) cap (collected @ rsp_body response) (offset + ?n) (s1, log1) =
        ((s', log'), r)"
      using "1.prems" t turn by (subst (asm) read_to_end_loop.simps) simp
    then obtain cs' where cs': "log' = log1 @ cs'" "223 * length cs' \<le> cap - (offset + ?n) + 222"
        "offset + ?n \<ge> cap \<longrightarrow> cs' = []" "list_all is_read cs'"
      using "1.hyps" [OF t(1) turn [symmetric] t(2) refl refl refl refl] t by auto
    have "unat want = min (cap - offset) 223" using read_turn_Ok(1) turn [unfolded t(2)] .
    then have "223 * length (cs @ cs') \<le> cap - offset + 222"
      using cs(2) cs'(2,3) t(1,4) by (cases "offset + ?n \<ge> cap") (auto simp: min_def split: if_splits)
    then show ?thesis using cs cs' t(1) by auto
  next
    case False
    then have "log' = (if offset < cap then log1 else log)"
      using "1.prems" turn
      by (subst (asm) read_to_end_loop.simps) (auto simp: Let_def split: if_splits result.splits)
    then show ?thesis using cs by (cases "offset < cap") auto
  qed
qed

abbreviation (input) cap_of :: "nat option \<Rightarrow> nat" where
  "cap_of total_length \<equiv> (case total_length of Some n \<Rightarrow> n | None \<Rightarrow> MAX_OBJECT_BYTES)"

lemma total_after_cap:
  assumes "total_after what total_length bs = Ok total_length'"
  shows "cap_of total_length' \<le> cap_of total_length" "total_length' = None \<Longrightarrow> length bs < 4"
proof -
  consider "total_length' = total_length" "total_length \<noteq> None"
    | parsed where "total_length = None" "der_object_total_length bs = Ok parsed" "total_length' = parsed"
        "cap_of parsed \<le> MAX_OBJECT_BYTES"
    using assms
    by (cases total_length; cases "der_object_total_length bs")
      (simp_all add: total_after_def split: option.splits if_splits)
  then show "cap_of total_length' \<le> cap_of total_length" "total_length' = None \<Longrightarrow> length bs < 4"
    by (cases; simp add: der_total_bytes)+
qed

text \<open>A turn of the object loop: it goes on only after a full chunk that left the object incomplete.\<close>

lemma read_object_step:
  fixes tp :: "('s, 'e) CardTransport"
  assumes "read_turn tp (length collected) (cap_of total_length - length collected) s = (s1, t)"
    and "length collected < cap_of total_length"
  shows "(\<exists>r. read_object_loop tp what collected total_length s = (s1, r) \<and>
        (\<forall>bs. r = Ok bs \<longrightarrow> length bs \<le> cap_of total_length)) \<or>
     (\<exists>want response total_length'. t = Ok (want, response, False) \<and> rsp_body response \<noteq> [] \<and>
        unat want \<le> length (rsp_body response) \<and>
        total_after what total_length (collected @ rsp_body response) =
          (Ok total_length' :: (nat option, 'e Pkcs15Error) result) \<and>
        read_object_loop tp what collected total_length s =
          read_object_loop tp what (collected @ rsp_body response) total_length' s1)"
proof -
  note step = read_object_loop.simps [of tp what collected total_length s]
  have not_done: "\<not> cap_of total_length \<le> length collected" using assms(2) by simp
  show ?thesis
  proof (cases t)
    case (Err e)
    then show ?thesis using assms(1) not_done by (simp add: step)
  next
    case (Ok x)
    obtain want response eof where x: "x = (want, response, eof)" by (metis prod.exhaust)
    let ?c = "collected @ rsp_body response"
    show ?thesis
    proof (cases "total_after what total_length ?c :: (nat option, 'e Pkcs15Error) result")
      case (Ok total_length')
      have "cap_of total_length' \<le> cap_of total_length" using total_after_cap(1) [OF Ok] .
      with Ok \<open>t = Ok x\<close> x assms(1) not_done show ?thesis
        by (cases total_length') (auto simp: step Let_def)
    next
      case (Err e)
      with \<open>t = Ok x\<close> x assms(1) not_done show ?thesis by (auto simp: step Let_def)
    qed
  qed
qed

lemma read_object_sends:
  assumes "read_object_loop (recording tp) what collected total_length (s, log) = ((s', log'), r)"
  shows "\<exists>cs. log' = log @ cs \<and> 223 * length cs \<le> cap_of total_length - length collected + 222 \<and>
     (length collected \<ge> cap_of total_length \<longrightarrow> cs = []) \<and> list_all is_read cs \<and>
     (\<forall>bs. r = Ok bs \<longrightarrow> length bs \<le> cap_of total_length)"
  using assms
proof (induction "cap_of total_length - length collected" arbitrary: collected total_length s log
    rule: less_induct)
  case less
  let ?cap = "cap_of total_length"
  show ?case
  proof (cases "length collected < ?cap")
    case False
    then show ?thesis using less.prems by (auto simp: read_object_loop.simps Let_def)
  next
    case True
    obtain s1 log1 t where
      turn: "read_turn (recording tp) (length collected) (?cap - length collected) (s, log) = ((s1, log1), t)"
      by (metis prod.exhaust)
    obtain cs where cs: "log1 = log @ cs" "length cs \<le> 1" "list_all is_read cs"
      using read_turn_sends [OF turn] by blast
    from read_object_step [OF turn True, of what] show ?thesis
    proof (elim disjE exE conjE)
      fix r'
      assume "read_object_loop (recording tp) what collected total_length (s, log) = ((s1, log1), r')"
        and "\<forall>bs. r' = Ok bs \<longrightarrow> length bs \<le> ?cap"
      then show ?thesis using less.prems cs True by auto
    next
      fix want total_length' and response :: ResponseApdu
      let ?c = "collected @ rsp_body response"
      assume t: "t = Ok (want, response, False)" "rsp_body response \<noteq> []"
          "unat want \<le> length (rsp_body response)"
        and after: "total_after what total_length ?c = (Ok total_length' :: (_, 'b Pkcs15Error) result)"
        and again: "read_object_loop (recording tp) what collected total_length (s, log) =
            read_object_loop (recording tp) what ?c total_length' (s1, log1)"
      have cap: "cap_of total_length' \<le> ?cap" using after by (rule total_after_cap)
      have "cap_of total_length' - length ?c < ?cap - length collected"
        using cap t(2) True by (simp add: diff_less_mono2 flip: length_greater_0_conv)
      then obtain cs' where cs': "log' = log1 @ cs'"
          "223 * length cs' \<le> cap_of total_length' - length ?c + 222"
          "length ?c \<ge> cap_of total_length' \<longrightarrow> cs' = []" "list_all is_read cs'"
          "\<forall>bs. r = Ok bs \<longrightarrow> length bs \<le> cap_of total_length'"
        using less.hyps [of total_length' ?c s1 log1] less.prems again by auto
      have "unat want = min (?cap - length collected) 223"
        using read_turn_Ok(1) turn [unfolded t(1)] .
      then have "223 * length (cs @ cs') \<le> ?cap - length collected + 222"
        using cs(2) cs'(2,3) t(3) True cap
        by (cases "length ?c \<ge> cap_of total_length'") (auto simp: min_def split: if_splits)
      then show ?thesis using cs cs' True cap by fastforce
    qed
  qed
qed

section \<open>Cards that serve their files\<close>

text \<open>
  A card with a current file answers READ BINARY inside it with at least the octets asked for that
  the file still has, keeps the file current, and reports the end of the file only where it is
  reached. Some cards answer more than was asked for. At the very end of the file it answers
  nothing.
\<close>

abbreviation (input) read_command :: "nat \<Rightarrow> u8 \<Rightarrow> CommandApdu" where
  "read_command off want \<equiv> read_binary_into_apdu
     \<lparr>rb_class = Plain, rb_offset = Direct (DirectOffset15 (of_nat off)), rb_le = want\<rparr>"

definition serves :: "('s, 'e) CardTransport \<Rightarrow> ('s \<Rightarrow> bytes option) \<Rightarrow> bool" where
  "serves tp cur \<longleftrightarrow>
     (\<forall>s f off want. cur s = Some f \<and> off < length f \<and> off < 2 ^ 15 \<and> want \<noteq> 0 \<longrightarrow>
        (\<exists>s' r n. transmit tp (read_command off want) s = (s', Ok (Response r)) \<and> cur s' = Some f \<and>
           unat want \<le> n \<and> rsp_body r = take n (drop off f) \<and>
           (status_word r = Success \<or> status_word r = EndOfFile \<and> length f \<le> off + n)))"

definition marks_end :: "('s, 'e) CardTransport \<Rightarrow> ('s \<Rightarrow> bytes option) \<Rightarrow> bool" where
  "marks_end tp cur \<longleftrightarrow>
     (\<forall>s f want. cur s = Some f \<and> length f < 2 ^ 15 \<and> want \<noteq> 0 \<longrightarrow>
        (\<exists>s' r. transmit tp (read_command (length f) want) s = (s', Ok (Response r)) \<and> cur s' = Some f \<and>
           rsp_body r = [] \<and> status_word r \<in> {Success, EndOfFile}))"

lemma read_turn_answer:
  assumes "transmit tp (read_command off (of_nat (min rem 223))) s = (s', Ok (Response r))"
    and "off < 2 ^ 15" "status_word r \<in> {Success, EndOfFile}"
  shows "read_turn tp off rem s = (s', Ok (of_nat (min rem 223), r, status_word r = EndOfFile))"
proof -
  have "direct_offset_try_new (of_nat off) = Ok (DirectOffset15 (of_nat off))"
    using assms(2) by (simp add: direct_offset_try_new_def DIRECT_OFFSET_MAX_def word_less_nat_alt)
  moreover have "response_is_ok r \<or> status_word r = EndOfFile"
    using assms(3) by (auto simp: response_is_ok_def sw_is_success_def)
  ultimately show ?thesis
    using assms(1,2)
    by (simp add: read_turn_def read_chunk_def then_do_def done_with_def fs_exchange_def u8_try_from_def
        u16_try_from_def Let_def)
qed

lemma read_turn_serves:
  assumes "serves tp cur" "cur s = Some f" "off < length f" "off < 2 ^ 15" "0 < rem"
  obtains s' r n where "read_turn tp off rem s = (s', Ok (of_nat (min rem 223), r, status_word r = EndOfFile))"
    and "cur s' = Some f" "min rem 223 \<le> n" "rsp_body r = take n (drop off f)"
    and "status_word r = EndOfFile \<Longrightarrow> length f \<le> off + n"
proof -
  let ?want = "of_nat (min rem 223) :: u8"
  have want: "unat ?want = min rem 223" by simp
  then have "?want \<noteq> 0" using assms(5) by (metis unat_0 min_less_iff_conj zero_less_numeral less_irrefl)
  then obtain s' r n where r: "transmit tp (read_command off ?want) s = (s', Ok (Response r))"
      "cur s' = Some f" "unat ?want \<le> n" "rsp_body r = take n (drop off f)"
      "status_word r = Success \<or> status_word r = EndOfFile \<and> length f \<le> off + n"
    using assms(1-4) unfolding serves_def by blast
  show thesis
    using read_turn_answer [OF r(1) assms(4)] r(2-5) want by (intro that [of s' r n]) auto
qed

lemma take_more: "take k f @ take n (drop k f) = take (min (k + n) (length f)) f"
  by (simp add: take_add min_def)

lemma read_object_exact:
  assumes "serves tp cur" "tlv t v = Ok w" "length w \<le> MAX_OBJECT_BYTES"
    and f: "f = w @ pad" and "cur s = Some f" "k < length w" "total_length \<in> {None, Some (length w)}"
  shows "\<exists>s'. read_object_loop tp what (take k f) total_length s = (s', Ok w) \<and> cur s' = Some f"
  using assms(5-7)
proof (induction "length w - k" arbitrary: k total_length s rule: less_induct)
  case less
  let ?cap = "cap_of total_length"
  have w: "length w \<le> length f" "take (length w) f = w" using f by simp_all
  have k: "length (take k f) = k" "k < ?cap" "k < 2 ^ 15"
    using less.prems(2,3) assms(3) w(1) by (auto simp: MAX_OBJECT_BYTES_def)
  have inside: "k < length f" and rem: "0 < ?cap - k" using less.prems(2) w(1) k(2) by simp_all
  obtain s1 r n where turn: "read_turn tp k (?cap - k) s =
        (s1, Ok (of_nat (min (?cap - k) 223), r, status_word r = EndOfFile))"
      and r: "cur s1 = Some f" "min (?cap - k) 223 \<le> n" "rsp_body r = take n (drop k f)"
      "status_word r = EndOfFile \<Longrightarrow> length f \<le> k + n"
    by (rule read_turn_serves [OF assms(1) less.prems(1) inside k(3) rem]) blast
  let ?k = "min (k + n) (length f)"
  have n: "0 < n" using r(2) k(2) by simp
  have body: "take k f @ rsp_body r = take ?k f" "rsp_body r \<noteq> []" "length (take ?k f) = ?k"
    using r(3) n less.prems(2) w(1) take_more [of k f n] by auto
  obtain total_length' where after:
      "total_after what total_length (take ?k f) = (Ok total_length' :: (_, 'b Pkcs15Error) result)"
      "total_length' \<in> {None, Some (length w)}" "total_length' = None \<Longrightarrow> ?k < length w"
    using der_total_encoded [OF assms(2,3), of ?k pad] less.prems(3) assms(3)
    by (auto simp: total_after_def f [symmetric])
  note step = read_object_loop.simps [of tp what "take k f" total_length s]
  show ?case
  proof (cases "length w \<le> ?k")
    case True
    then have "total_length' = Some (length w)" using after(2,3) by auto
    then show ?thesis
      using True turn r(1) k body after(1) w(2) by (simp add: step Let_def min.absorb1)
  next
    case False
    then have more: "?k = k + n" "\<not> status_word r = EndOfFile" "length (rsp_body r) = n"
      using r(3,4) w(1) by auto
    have "length w - ?k < length w - k" "?k < length w" using False n more(1) by linarith+
    then obtain s' where "read_object_loop tp what (take ?k f) total_length' s1 = (s', Ok w)" "cur s' = Some f"
      using less.hyps r(1) after(2) by blast
    moreover have "\<not> length (rsp_body r) < unat (of_nat (min (?cap - k) 223) :: u8)"
      using r(2) more(3) by (simp, linarith)
    moreover have "total_length' = Some tot \<Longrightarrow> tot = length w" for tot using after(2) by simp
    ultimately show ?thesis
      using turn k body after(1) False more(1,2)
      by (cases total_length') (simp_all add: step Let_def del: unat_of_nat_u8)
  qed
qed

lemma read_der_object_exact:
  assumes "serves tp cur" "tlv t v = Ok w" "length w \<le> MAX_OBJECT_BYTES" "cur s = Some (w @ pad)"
  shows "\<exists>s'. read_binary_der_object tp what s = (s', Ok w) \<and> cur s' = Some (w @ pad)"
proof -
  have "0 < length w" using ber_encode_nonempty [of "(Tag1 t, v)" w] assms(2) by simp
  then show ?thesis
    using read_object_exact [OF assms(1-3) refl assms(4), of 0 None what]
    by (simp add: read_binary_der_object_def)
qed

lemma read_to_end_exact:
  assumes "serves tp cur" "marks_end tp cur" "length f \<le> cap" "cap \<le> MAX_OBJECT_BYTES"
    and "cur s = Some f" "k \<le> length f"
  shows "\<exists>s'. read_to_end_loop tp cap (take k f) k s = (s', Ok f) \<and> cur s' = Some f"
  using assms(5,6)
proof (induction "length f - k" arbitrary: k s rule: less_induct)
  case less
  note step = read_to_end_loop.simps [of tp cap "take k f" k s]
  have k: "k < 2 ^ 15" using less.prems(2) assms(3,4) by (simp add: MAX_OBJECT_BYTES_def)
  consider "k = cap" | "k < cap" "k = length f" | "k < cap" "k < length f"
    using less.prems(2) assms(3) by linarith
  then show ?case
  proof cases
    case 1
    then show ?thesis unfolding step using less.prems assms(3) by simp
  next
    case 2
    let ?want = "of_nat (min (cap - k) 223) :: u8"
    have "unat ?want = min (cap - k) 223" by simp
    then have "?want \<noteq> 0" using 2(1) by (metis unat_0 min_less_iff_conj zero_less_numeral less_irrefl zero_less_diff)
    then obtain s' r where r: "transmit tp (read_command k ?want) s = (s', Ok (Response r))"
        "cur s' = Some f" "rsp_body r = []" "status_word r \<in> {Success, EndOfFile}"
      using assms(2) less.prems(1) k 2(2) unfolding marks_end_def by blast
    then show ?thesis
      unfolding step using read_turn_answer [OF r(1) k r(4)] 2 by simp
  next
    case 3
    obtain s1 r n where turn: "read_turn tp k (cap - k) s =
          (s1, Ok (of_nat (min (cap - k) 223), r, status_word r = EndOfFile))"
        and r: "cur s1 = Some f" "min (cap - k) 223 \<le> n" "rsp_body r = take n (drop k f)"
        "status_word r = EndOfFile \<Longrightarrow> length f \<le> k + n"
      by (rule read_turn_serves [OF assms(1) less.prems(1) 3(2) k, of "cap - k"]) (use 3(1) in auto)
    let ?k = "min (k + n) (length f)"
    have body: "take k f @ rsp_body r = take ?k f" using r(3) take_more [of k f n] by simp
    have len: "length (rsp_body r) = ?k - k" using r(3) 3(2) by (simp add: min_def, linarith)
    show ?thesis
    proof (cases "?k = length f \<and> (length (rsp_body r) < min (cap - k) 223 \<or> status_word r = EndOfFile)")
      case True
      then show ?thesis unfolding step using turn r(1) 3(1) body by (simp add: Let_def)
    next
      case False
      then have go: "\<not> length (rsp_body r) < min (cap - k) 223" "\<not> status_word r = EndOfFile"
        using r(2,4) len by (auto simp: min_def split: if_splits)
      have "0 < n" using r(2) 3(1) by simp
      then have shorter: "length f - ?k < length f - k" and "length (rsp_body r) \<noteq> 0" "k + length (rsp_body r) = ?k"
        using 3(2) len by auto
      moreover obtain s' where "read_to_end_loop tp cap (take ?k f) ?k s1 = (s', Ok f)" "cur s' = Some f"
        using less.hyps [OF shorter r(1)] by auto
      ultimately show ?thesis unfolding step using turn 3(1) body go by (auto simp: Let_def)
    qed
  qed
qed

text \<open>
  A card with the PKCS\#15 application and files in it: selecting the application succeeds; in the
  application, a file is made current by the first SELECT variant the card accepts.
\<close>

definition selects ::
  "('s, 'e) CardTransport \<Rightarrow> ('s \<Rightarrow> bool) \<Rightarrow> ('s \<Rightarrow> bytes option) \<Rightarrow> (FileId \<Rightarrow> bytes option) \<Rightarrow> bool" where
  "selects tp app cur files \<longleftrightarrow>
     (\<forall>s. \<exists>s' r. transmit tp (select_by_aid_into_apdu (SelectByAidNoFci (Aid PKCS15_AID))) s =
          (s', Ok (Response r)) \<and> response_is_ok r \<and> app s') \<and>
     (\<forall>s fid f. app s \<and> files fid = Some f \<longrightarrow>
        (\<exists>s' r. transmit tp (select_ef_into_apdu (SelectEfNoFci fid)) s = (s', Ok (Response r)) \<and>
           (if response_is_ok r then cur s' = Some f
            else \<exists>s'' r'. transmit tp (select_any_by_fid_variant fid) s' = (s'', Ok (Response r')) \<and>
                   response_is_ok r' \<and> cur s'' = Some f)))"

lemma select_application_done:
  assumes "selects tp app cur files"
  obtains s' where "select_pkcs15_application tp s = (s', Ok ())" "app s'"
proof -
  obtain s' r where r: "transmit tp (select_by_aid_into_apdu (SelectByAidNoFci (Aid PKCS15_AID))) s =
      (s', Ok (Response r))" "response_is_ok r" "app s'"
    using assms unfolding selects_def by blast
  have "aid_new PKCS15_AID = Ok (Aid PKCS15_AID)"
    by (simp add: aid_new_def AID_MIN_LENGTH_def AID_MAX_LENGTH_def str_def)
  with r have "select_pkcs15_application tp s = (s', Ok ())"
    by (simp add: select_pkcs15_application_def then_do_def done_with_def fs_exchange_def)
  then show thesis using that r(3) by blast
qed

lemma select_ef_done:
  assumes "selects tp app cur files" "app s" "files fid = Some f"
  obtains s' where "select_ef tp fid s = (s', Ok ())" "cur s' = Some f"
proof -
  obtain s1 r where r: "transmit tp (select_ef_into_apdu (SelectEfNoFci fid)) s = (s1, Ok (Response r))"
      "if response_is_ok r then cur s1 = Some f
       else \<exists>s'' r'. transmit tp (select_any_by_fid_variant fid) s1 = (s'', Ok (Response r')) \<and>
                   response_is_ok r' \<and> cur s'' = Some f"
    using assms unfolding selects_def by blast
  show thesis
  proof (cases "response_is_ok r")
    case True
    then have "select_ef tp fid s = (s1, Ok ())"
      using r by (simp add: select_ef_def select_with_variants_def then_do_def done_with_def fs_exchange_def)
    then show thesis using that r(2) True by simp
  next
    case False
    then obtain s'' r' where "transmit tp (select_any_by_fid_variant fid) s1 = (s'', Ok (Response r'))"
        "response_is_ok r'" "cur s'' = Some f"
      using r(2) by auto
    then show thesis
      using that r(1) False
      by (simp add: select_ef_def select_with_variants_def then_do_def done_with_def fs_exchange_def)
  qed
qed

lemma select_file_done:
  assumes "selects tp app cur files" "files fid = Some f"
  obtains s' where "cur s' = Some f"
    and "then_do (select_pkcs15_application tp) (\<lambda>_. then_do (select_ef tp fid) k) s = k () s'"
proof -
  obtain s1 where s1: "select_pkcs15_application tp s = (s1, Ok ())" "app s1"
    using select_application_done [OF assms(1)] by blast
  obtain s2 where "select_ef tp fid s1 = (s2, Ok ())" "cur s2 = Some f"
    using select_ef_done [OF assms(1) s1(2) assms(2)] by blast
  then show thesis using that s1(1) by (simp add: then_do_Ok)
qed

section \<open>A concrete card\<close>

text \<open>A card of the citizen kind with given files, whose state is the current file.\<close>

definition file_card :: "(FileId \<Rightarrow> bytes option) \<Rightarrow> (bytes option, unit) CardTransport" where
  "file_card files =
     \<lparr>transmit = (\<lambda>c cur. case cmd_bytes c of
         [cla, ins, p1, p2, le] \<Rightarrow>
           (cur, Ok (Response \<lparr>rsp_body = (case cur of None \<Rightarrow> [] | Some f \<Rightarrow>
              take (unat le) (drop (unat (u16_of_be p1 p2)) f)), rsp_sw1 = 0x90, rsp_sw2 = 0\<rparr>))
       | [cla, ins, p1, p2, lc, h, l] \<Rightarrow>
           (files (FileId h l), Ok (Response \<lparr>rsp_body = [], rsp_sw1 = 0x90, rsp_sw2 = 0\<rparr>))
       | _ \<Rightarrow> (None, Ok (Response \<lparr>rsp_body = [], rsp_sw1 = 0x90, rsp_sw2 = 0\<rparr>))),
      transmit_credential = (\<lambda>c cur. (cur, Ok NoCard))\<rparr>"

lemma success_status: "status_word \<lparr>rsp_body = b, rsp_sw1 = 0x90, rsp_sw2 = 0\<rparr> = Success"
    "response_is_ok \<lparr>rsp_body = b, rsp_sw1 = 0x90, rsp_sw2 = 0\<rparr>"
  by (simp_all add: status_word_def response_is_ok_def sw_is_success_def) code_simp+

lemma file_card_read:
  assumes "off < 2 ^ 15"
  shows "transmit (file_card files) (read_command off want) (Some f) =
     (Some f, Ok (Response \<lparr>rsp_body = take (unat want) (drop off f), rsp_sw1 = 0x90, rsp_sw2 = 0\<rparr>))"
proof -
  have "unat (u16_of_be (u16_hi (of_nat off)) (u16_lo (of_nat off))) = off"
    using assms by simp
  then show ?thesis
    by (simp add: file_card_def read_binary_into_apdu_def allow_wrong_le_retry_def from_wire_def)
qed

lemma file_card_serves: "serves (file_card files) id" "marks_end (file_card files) id"
  by (auto simp: serves_def marks_end_def file_card_read success_status intro!: exI [of _ "unat _"])

lemma file_card_selects: "selects (file_card files) (\<lambda>_. True) id files"
proof -
  have "transmit (file_card files) (select_by_aid_into_apdu (SelectByAidNoFci (Aid PKCS15_AID))) s =
      (None, Ok (Response \<lparr>rsp_body = [], rsp_sw1 = 0x90, rsp_sw2 = 0\<rparr>))" for s
    by (simp add: file_card_def from_wire_def str_def)
  moreover have "transmit (file_card files) (select_ef_into_apdu (SelectEfNoFci fid)) s =
      (files fid, Ok (Response \<lparr>rsp_body = [], rsp_sw1 = 0x90, rsp_sw2 = 0\<rparr>))" for fid s
    by (cases fid) (simp add: file_card_def from_wire_def)
  ultimately show ?thesis by (simp add: selects_def success_status)
qed

lemma authentication_objects_exact:
  assumes "selects tp app cur files" "serves tp cur" "marks_end tp cur"
    and "files (file_id_from_u16 0x4401) = Some (concat ws @ replicate n 0)"
    and "list_all2 (\<lambda>e w. entry_encode e = Ok w) es ws" "list_all entry_ok es"
    and "length (concat ws @ replicate n (0 :: u8)) \<le> 0x4000" "concat ws @ replicate n (0 :: u8) \<noteq> []"
  shows "\<exists>s'. read_authentication_objects tp s = (s', Ok (List.map_filter entry_object es))"
proof -
  let ?f = "concat ws @ replicate n 0"
  let ?k = "\<lambda>_ :: unit. then_do (read_binary_to_end tp None) (\<lambda>bs.
       done_with (map_err (\<lambda>_. FsInvalidData ''EF.AOD'') (aod_parse bs)))"
  obtain s1 where s1: "cur s1 = Some ?f"
      "then_do (select_pkcs15_application tp) (\<lambda>_. then_do (select_ef tp EF_AOD_FID) ?k) s = ?k () s1"
    using select_file_done [OF assms(1,4), of ?k] by blast
  have "length ?f \<le> MAX_OBJECT_BYTES" using assms(7) by (simp add: MAX_OBJECT_BYTES_def)
  then obtain s2 where "read_to_end_loop tp MAX_OBJECT_BYTES [] 0 s1 = (s2, Ok ?f)"
    using read_to_end_exact [OF assms(2,3) _ le_refl s1(1), of 0] by auto
  moreover have "aod_parse ?f = Ok (List.map_filter entry_object es)"
    using aod_parse_entries [OF assms(5,6), of "[]" n] by (simp add: aod_parse_def)
  ultimately have "?k () s1 = (s2, Ok (List.map_filter entry_object es))"
    using assms(8) \<open>length ?f \<le> MAX_OBJECT_BYTES\<close>
    by (simp add: read_binary_to_end_def then_do_def done_with_def)
  with s1(2) show ?thesis by (simp add: read_authentication_objects_def)
qed

section \<open>Properties\<close>

text \<open>
  Property C31. The reading loops end. Whatever a card answers, reading an object or a file sends at
  most seventy-four commands, each a READ BINARY, and what is returned has at most sixteen
  kibibytes.
\<close>
theorem reads_bounded:
  "(case read_binary_der_object (recording tp) what (s, []) of ((s', log), r) \<Rightarrow>
      length log \<le> 74 \<and> list_all is_read log \<and>
      (case r of Ok bs \<Rightarrow> length bs \<le> 0x4000 | Err _ \<Rightarrow> True)) \<and>
   (case read_binary_to_end (recording tp) size_hint (s, []) of ((s', log), r) \<Rightarrow>
      length log \<le> 74 \<and> list_all is_read log \<and>
      (case r of Ok bs \<Rightarrow> length bs \<le> 0x4000 | Err _ \<Rightarrow> True))"
proof (rule conjI)
  obtain s' log r where run: "read_object_loop (recording tp) what [] None (s, []) = ((s', log), r)"
    by (metis prod.exhaust)
  then show "case read_binary_der_object (recording tp) what (s, []) of ((s', log), r) \<Rightarrow>
      length log \<le> 74 \<and> list_all is_read log \<and>
      (case r of Ok bs \<Rightarrow> length bs \<le> 0x4000 | Err _ \<Rightarrow> True)"
    using read_object_sends [OF run]
    by (auto simp: read_binary_der_object_def MAX_OBJECT_BYTES_def split: result.splits)
  let ?cap = "min (case size_hint of Some n \<Rightarrow> n | None \<Rightarrow> MAX_OBJECT_BYTES) MAX_OBJECT_BYTES"
  obtain s1 log1 r1 where run1: "read_to_end_loop (recording tp) ?cap [] 0 (s, []) = ((s1, log1), r1)"
    by (metis prod.exhaust)
  have "?cap \<le> 0x4000" by (simp add: MAX_OBJECT_BYTES_def)
  then have "length log1 \<le> 74 \<and> list_all is_read log1"
    using read_to_end_sends [OF run1] by auto
  then show "case read_binary_to_end (recording tp) size_hint (s, []) of ((s', log), r) \<Rightarrow>
      length log \<le> 74 \<and> list_all is_read log \<and>
      (case r of Ok bs \<Rightarrow> length bs \<le> 0x4000 | Err _ \<Rightarrow> True)"
    using run1
    by (auto simp: read_binary_to_end_def then_do_def done_with_def Let_def MAX_OBJECT_BYTES_def
        split: result.splits)
qed

text \<open>
  Property C32. Reading the authentication certificate returns it. On a card with the PKCS\#15
  application that serves its files, where the file of the slot holds an object of at most sixteen
  kibibytes followed by any padding, the operation ends with exactly the octets of that object,
  whichever SELECT variant the card accepts and however much it answers beyond what is asked for.
\<close>
theorem certificate_read:
  assumes "selects tp app cur files" "serves tp cur"
    and "files (slot_fid Authentication) = Some (w @ pad)" "tlv t v = Ok w" "length w \<le> 0x4000"
  shows "\<exists>s'. read_certificate tp Authentication s = (s', Ok (UnvalidatedCertificate w))"
proof -
  let ?k = "\<lambda>_ :: unit. read_binary_der_object tp (slot_label Authentication)"
  obtain s1 where s1: "cur s1 = Some (w @ pad)"
      "then_do (select_pkcs15_application tp) (\<lambda>_. then_do (select_ef tp (slot_fid Authentication)) ?k) s =
         ?k () s1"
    using select_file_done [OF assms(1,3), of ?k] by blast
  obtain s2 where "?k () s1 = (s2, Ok w)"
    using read_der_object_exact [OF assms(2,4) _ s1(1)] assms(5) by (auto simp: MAX_OBJECT_BYTES_def)
  with s1(2) show ?thesis
    by (simp add: read_certificate_def then_do_Ok done_with_def)
qed

theorem certificate_read_witness:
  "\<exists>s'. read_certificate (file_card (\<lambda>fid. if fid = file_id_from_u16 0x4331
        then Some ([0x30, 0x02, 0x05, 0x00] @ [0, 0, 0]) else None)) Authentication None =
     (s', Ok (UnvalidatedCertificate [0x30, 0x02, 0x05, 0x00]))"
proof -
  have "tlv 0x30 [0x05, 0x00] = Ok [0x30, 0x02, 0x05, 0x00]" by code_simp
  then show ?thesis
    by (intro certificate_read [OF file_card_selects file_card_serves(1), where pad = "[0, 0, 0]"])
      simp_all
qed

text \<open>
  Reading the authentication objects lists the passwords of the card. On such a card,
  which also marks the end of its files, where the directory file holds the DER forms of its
  entries and zero padding in at most sixteen kibibytes, the operation ends with the password
  objects of the directory, in order.
\<close>
theorem authentication_objects_read:
  assumes "selects tp app cur files" "serves tp cur" "marks_end tp cur"
    and "files (file_id_from_u16 0x4401) = Some (concat ws @ replicate n 0)"
    and "list_all2 (\<lambda>e w. entry_encode e = Ok w) es ws" "list_all entry_ok es"
    and "length (concat ws @ replicate n (0 :: u8)) \<le> 0x4000" "concat ws @ replicate n (0 :: u8) \<noteq> []"
  shows "\<exists>s'. read_authentication_objects tp s = (s', Ok (List.map_filter entry_object es))"
  using assms by (rule authentication_objects_exact)

theorem authentication_objects_read_witness:
  "\<exists>s'. read_authentication_objects (file_card (\<lambda>fid. if fid = file_id_from_u16 0x4401 then
        Some ([0x30, 0x16, 0x30, 0x00, 0x30, 0x00, 0xA1, 0x10, 0x30, 0x0E, 0x03, 0x00, 0x0A, 0x01, 0x01,
          0x02, 0x01, 0x04, 0x02, 0x01, 0x0C, 0x80, 0x01, 0x11] @ [0, 0]) else None)) None =
     (s', Ok [\<lparr>pwd_reference = 0x11, pwd_lengths = \<lparr>range_min_octet = 4, range_max_octet = 12\<rparr>\<rparr>])"
proof -
  let ?w = "[0x30, 0x16, 0x30, 0x00, 0x30, 0x00, 0xA1, 0x10, 0x30, 0x0E, 0x03, 0x00, 0x0A, 0x01, 0x01,
      0x02, 0x01, 0x04, 0x02, 0x01, 0x0C, 0x80, 0x01, 0x11] :: bytes"
  let ?p = "Password \<lparr>ap_common = [], ap_class = [], ap_flags = [], ap_type = 1, ap_min = 4,
      ap_stored = 12, ap_max = None, ap_reference = Some 0x11\<rparr>"
  let ?files = "\<lambda>fid. if fid = file_id_from_u16 0x4401 then Some (?w @ [0, 0]) else None"
  have enc: "list_all2 (\<lambda>e w. entry_encode e = Ok w) [?p] [?w]" by code_simp
  have "\<exists>s'. read_authentication_objects (file_card ?files) None =
      (s', Ok (List.map_filter entry_object [?p]))"
    by (rule authentication_objects_read [OF file_card_selects file_card_serves _ enc, where n = 2])
      (simp_all add: numeral_2_eq_2)
  then show ?thesis by (simp add: List.map_filter_simps range_new_def)
qed

end
