(* ===== verification/Card_Lengths.thy ===== *)
theory Card_Lengths
  imports Card_Manage Pkcs15_Fs
begin

text \<open>
  The lengths a card accepts, read from the card: \<open>CardPinLengths::from_card\<close> of
  \<open>crates/auth/src/pin_lengths.rs\<close> and the two reading operations of \<open>manage.rs\<close>, which take the
  ranges of the authentication object directory and, on a citizen card, the PIN policy where the
  directory names none. The theory joins the file reader, the directory parser and the length
  checks: what the card's directory says is what the checks apply.
\<close>

section \<open>Reading the lengths\<close>

text \<open>The policy query is a closure of the caller; \<open>c\<close> is the state it captures.\<close>

definition listed_length ::
  "PasswordObject list option \<Rightarrow> (u8 \<Rightarrow> 'c \<Rightarrow> 'c \<times> PasswordLengthRange option) \<Rightarrow> u8 \<Rightarrow> 'c \<Rightarrow>
   'c \<times> ListedLength" where
  "listed_length objects policy reference c =
     (case Option.bind objects (\<lambda>os. directory_range os reference) of
        Some rng \<Rightarrow> (c, Listed rng AuthenticationObjectDirectory)
      | None \<Rightarrow>
          (case policy reference c of
             (c, Some rng) \<Rightarrow> (c, Listed rng PinPolicy)
           | (c, None) \<Rightarrow> (c, NotListed)))"

definition from_card ::
  "PinReferenceScheme \<Rightarrow> PasswordObject list option \<Rightarrow>
   (u8 \<Rightarrow> 'c \<Rightarrow> 'c \<times> PasswordLengthRange option) \<Rightarrow> 'c \<Rightarrow> 'c \<times> CardPinLengths" where
  "from_card n objects policy c =
     (case listed_length objects policy (scheme_reference n SlotPin1) c of (c, pin1) \<Rightarrow>
      case listed_length objects policy (scheme_reference n SlotPin2) c of (c, pin2) \<Rightarrow>
      case listed_length objects policy (puk_reference n) c of (c, puk) \<Rightarrow>
        (c, from_listed n pin1 pin2 puk))"

definition policy_query ::
  "('s, 'e) CardTransport \<Rightarrow> PinReferenceScheme \<Rightarrow> u8 \<Rightarrow> 's \<times> 'e AuthError option \<Rightarrow>
   ('s \<times> 'e AuthError option) \<times> PasswordLengthRange option" where
  "policy_query tp scheme reference c =
     (case c of (s, failure) \<Rightarrow>
        if failure \<noteq> None \<or> scheme \<noteq> Citizen then ((s, failure), None)
        else case read_pin_policy_lengths tp reference s of
               (s, Ok rng) \<Rightarrow> ((s, failure), rng)
             | (s, Err e) \<Rightarrow> ((s, Some e), None))"

definition read_card_pin_lengths_with_scheme ::
  "('s, 'e) CardTransport \<Rightarrow> PinReferenceScheme \<Rightarrow> ('s, CardPinLengths, 'e) card_op" where
  "read_card_pin_lengths_with_scheme tp scheme s =
     (case read_authentication_objects tp s of
        (s, Err (FsTransport e)) \<Rightarrow> (s, Err (AuthTransport e))
      | (s, Err (FsOutcome outcome)) \<Rightarrow> (s, Err (AuthOutcome outcome))
      | (s, r) \<Rightarrow>
          let objects = (case r of Ok os \<Rightarrow> Some os | Err _ \<Rightarrow> None) in
          (case from_card scheme objects (policy_query tp scheme) (s, None) of
             ((s, Some e), _) \<Rightarrow> (s, Err e)
           | ((s, None), l) \<Rightarrow> (s, Ok l)))"

definition read_card_pin_lengths :: "('s, 'e) CardTransport \<Rightarrow> ('s, CardPinLengths, 'e) card_op" where
  "read_card_pin_lengths tp =
     then_do (resolve_pin_reference_scheme tp) (\<lambda>scheme. read_card_pin_lengths_with_scheme tp scheme)"

section \<open>What the directory says\<close>

lemma entry_object_range: "entry_object e = Some p \<Longrightarrow> 0 < range_min (pwd_lengths p)"
  by (cases e) (auto simp: range_new_def range_min_def unat_gt_0 split: if_splits)

lemma directory_range_pos:
  assumes "directory_range (List.map_filter entry_object es) reference = Some r"
  shows "0 < range_min r"
proof -
  obtain p where "filter (\<lambda>p. names (pwd_reference p) reference) (List.map_filter entry_object es) = [p]"
      "r = pwd_lengths p"
    using assms by (auto simp: directory_range_def split: list.splits)
  then have "p \<in> set (List.map_filter entry_object es)" "r = pwd_lengths p"
    by (metis filter_is_subset list.set_intros(1) subsetD)+
  then show ?thesis by (auto simp: map_filter_def intro: entry_object_range)
qed

lemma from_card_listed:
  assumes "directory_range os (scheme_reference n SlotPin1) = Some r1"
    "directory_range os (scheme_reference n SlotPin2) = Some r2"
    "directory_range os (puk_reference n) = Some rp"
  shows "from_card n (Some os) policy c =
     (c, from_listed n (Listed r1 AuthenticationObjectDirectory) (Listed r2 AuthenticationObjectDirectory)
           (Listed rp AuthenticationObjectDirectory))"
  using assms by (simp add: from_card_def listed_length_def)

section \<open>Properties\<close>


definition example_entries :: "aod_entry list" where
  "example_entries =
      [Password \<lparr>ap_common = [], ap_class = [], ap_flags = [], ap_type = 1, ap_min = 0x04,
         ap_stored = 12, ap_max = None, ap_reference = Some 0x11\<rparr>,
       Password \<lparr>ap_common = [], ap_class = [], ap_flags = [], ap_type = 1, ap_min = 0x06,
         ap_stored = 12, ap_max = None, ap_reference = Some 0x02\<rparr>,
       Password \<lparr>ap_common = [], ap_class = [], ap_flags = [], ap_type = 1, ap_min = 0x08,
         ap_stored = 12, ap_max = None, ap_reference = Some 0x03\<rparr>]"

definition example_octets :: "bytes list" where
  "example_octets =
      [[0x30, 0x16, 0x30, 0x00, 0x30, 0x00, 0xA1, 0x10, 0x30, 0x0E, 0x03, 0x00, 0x0A, 0x01, 0x01,
        0x02, 0x01, 0x04, 0x02, 0x01, 0x0C, 0x80, 0x01, 0x11],
       [0x30, 0x16, 0x30, 0x00, 0x30, 0x00, 0xA1, 0x10, 0x30, 0x0E, 0x03, 0x00, 0x0A, 0x01, 0x01,
        0x02, 0x01, 0x06, 0x02, 0x01, 0x0C, 0x80, 0x01, 0x02],
       [0x30, 0x16, 0x30, 0x00, 0x30, 0x00, 0xA1, 0x10, 0x30, 0x0E, 0x03, 0x00, 0x0A, 0x01, 0x01,
        0x02, 0x01, 0x08, 0x02, 0x01, 0x0C, 0x80, 0x01, 0x03]]"


end
