(* ===== verification/Pin_Cache.thy ===== *)
theory Pin_Cache
  imports Card_Credentials
begin

text \<open>
  The negative PIN cache of \<open>crates/pin-cache/src/lib.rs\<close> over the fingerprints of
  \<open>crates/auth/src/credentials.rs\<close>. The keyed hash is a parameter: \<open>hmac key\<close> is the function
  of the message, or none where the key is refused. The theory shows that a PIN once rejected is
  refused for the same card and slot whatever the hash does, and that nothing else is refused as
  long as the hash does not collide on the values in play.
\<close>

definition CACHE_FINGERPRINT_LEN :: nat where "CACHE_FINGERPRINT_LEN = 32"
definition CACHE_FINGERPRINT_KEY_LEN :: nat where "CACHE_FINGERPRINT_KEY_LEN = 32"
definition SLOT_TAG_PIN1 :: u8 where "SLOT_TAG_PIN1 = 1"
definition SLOT_TAG_PIN2 :: u8 where "SLOT_TAG_PIN2 = 2"

type_synonym keyed_hash = "bytes \<Rightarrow> (bytes \<Rightarrow> bytes) option"

text \<open>The two implementors of the trait \<open>CachedPin\<close>.\<close>

datatype CachedPin = CachedPin1 Pin1 | CachedPin2 Pin2

fun cached_slot :: "CachedPin \<Rightarrow> PinSlot" where
  "cached_slot (CachedPin1 _) = SlotPin1"
| "cached_slot (CachedPin2 _) = SlotPin2"

definition pin_preimage :: "u8 \<Rightarrow> bytes \<Rightarrow> bytes \<Rightarrow> bytes" where
  "pin_preimage slot_tag serial_bytes digits =
     be_bytes 4 (length serial_bytes) @ serial_bytes @ [slot_tag] @ [of_nat (length digits)] @ digits"

definition pin_fingerprint :: "keyed_hash \<Rightarrow> u8 \<Rightarrow> bytes \<Rightarrow> bytes \<Rightarrow> bytes \<Rightarrow> bytes" where
  "pin_fingerprint hmac slot_tag serial_bytes digits key =
     (case hmac key of
        None \<Rightarrow> replicate CACHE_FINGERPRINT_LEN 0
      | Some mac \<Rightarrow>
          if \<not> length serial_bytes < 2 ^ 32 then replicate CACHE_FINGERPRINT_LEN 0
          else case u8_try_from (length digits) of
                 None \<Rightarrow> replicate CACHE_FINGERPRINT_LEN 0
               | Some _ \<Rightarrow> mac (pin_preimage slot_tag serial_bytes digits))"

fun keyed_fingerprint :: "keyed_hash \<Rightarrow> CachedPin \<Rightarrow> bytes \<Rightarrow> bytes \<Rightarrow> bytes" where
  "keyed_fingerprint hmac (CachedPin1 pin) serial_bytes key =
     pin_fingerprint hmac SLOT_TAG_PIN1 serial_bytes (pin1_digits pin) key"
| "keyed_fingerprint hmac (CachedPin2 pin) serial_bytes key =
     pin_fingerprint hmac SLOT_TAG_PIN2 serial_bytes (pin2_digits pin) key"

record PinSafetyCache =
  fingerprint_key :: bytes
  rejected_pin1 :: "bytes list"
  rejected_pin2 :: "bytes list"

text \<open>\<open>new\<close>, with the random source's answer as its argument.\<close>

definition cache_new :: "(bytes, 'e) result \<Rightarrow> (PinSafetyCache, 'e) result" where
  "cache_new random =
     and_then random (\<lambda>key. Ok \<lparr>fingerprint_key = key, rejected_pin1 = [], rejected_pin2 = []\<rparr>)"

fun cache_rejected :: "PinSafetyCache \<Rightarrow> PinSlot \<Rightarrow> bytes list" where
  "cache_rejected c SlotPin1 = rejected_pin1 c"
| "cache_rejected c SlotPin2 = rejected_pin2 c"

definition contains_fingerprint :: "PinSafetyCache \<Rightarrow> PinSlot \<Rightarrow> bytes \<Rightarrow> bool" where
  "contains_fingerprint c slot candidate = list_ex (\<lambda>known. known = candidate) (cache_rejected c slot)"

definition cache_fingerprint :: "keyed_hash \<Rightarrow> PinSafetyCache \<Rightarrow> bytes \<Rightarrow> CachedPin \<Rightarrow> bytes" where
  "cache_fingerprint hmac c serial pin = keyed_fingerprint hmac pin serial (fingerprint_key c)"

definition is_rejected :: "keyed_hash \<Rightarrow> PinSafetyCache \<Rightarrow> bytes \<Rightarrow> CachedPin \<Rightarrow> bool" where
  "is_rejected hmac c serial pin =
     contains_fingerprint c (cached_slot pin) (cache_fingerprint hmac c serial pin)"

definition record_fingerprint :: "PinSlot \<Rightarrow> bytes \<Rightarrow> PinSafetyCache \<Rightarrow> PinSafetyCache" where
  "record_fingerprint slot fingerprint c =
     (if contains_fingerprint c slot fingerprint then c
      else case slot of
             SlotPin1 \<Rightarrow> c\<lparr>rejected_pin1 := rejected_pin1 c @ [fingerprint]\<rparr>
           | SlotPin2 \<Rightarrow> c\<lparr>rejected_pin2 := rejected_pin2 c @ [fingerprint]\<rparr>)"

definition record_rejected ::
  "keyed_hash \<Rightarrow> bytes \<Rightarrow> CachedPin \<Rightarrow> PinSafetyCache \<Rightarrow> PinSafetyCache" where
  "record_rejected hmac serial pin c =
     record_fingerprint (cached_slot pin) (cache_fingerprint hmac c serial pin) c"

section \<open>The preimage\<close>

lemma pin_preimage_inject:
  assumes "length s < 2 ^ 32" "length s' < 2 ^ 32"
  shows "pin_preimage t s d = pin_preimage t' s' d' \<longleftrightarrow> t = t' \<and> s = s' \<and> d = d'"
proof
  assume eq: "pin_preimage t s d = pin_preimage t' s' d'"
  then have "be_bytes 4 (length s) = be_bytes 4 (length s')"
    by (simp add: pin_preimage_def append_eq_append_conv)
  then have "be_value (be_bytes 4 (length s)) = be_value (be_bytes 4 (length s'))" by simp
  then have len: "length s = length s'" using assms by (simp add: be_value_be_bytes)
  with eq show "t = t' \<and> s = s' \<and> d = d'" by (simp add: pin_preimage_def)
qed simp

section \<open>Histories\<close>

definition record_all ::
  "keyed_hash \<Rightarrow> (bytes \<times> CachedPin) list \<Rightarrow> PinSafetyCache \<Rightarrow> PinSafetyCache" where
  "record_all hmac history c = fold (\<lambda>(serial, pin). record_rejected hmac serial pin) history c"

fun cached_digits :: "CachedPin \<Rightarrow> bytes" where
  "cached_digits (CachedPin1 pin) = pin1_digits pin"
| "cached_digits (CachedPin2 pin) = pin2_digits pin"

fun cached_tag :: "CachedPin \<Rightarrow> u8" where
  "cached_tag (CachedPin1 _) = SLOT_TAG_PIN1"
| "cached_tag (CachedPin2 _) = SLOT_TAG_PIN2"

text \<open>What identifies a rejection: the card, the slot and the digits.\<close>

definition same_value :: "bytes \<times> CachedPin \<Rightarrow> bytes \<times> CachedPin \<Rightarrow> bool" where
  "same_value a b \<longleftrightarrow>
     fst a = fst b \<and> cached_slot (snd a) = cached_slot (snd b) \<and>
     cached_digits (snd a) = cached_digits (snd b)"

definition preimage_of :: "bytes \<times> CachedPin \<Rightarrow> bytes" where
  "preimage_of a = pin_preimage (cached_tag (snd a)) (fst a) (cached_digits (snd a))"

lemma keyed_fingerprint_eq:
  "keyed_fingerprint hmac pin serial key =
     pin_fingerprint hmac (cached_tag pin) serial (cached_digits pin) key"
  by (cases pin) simp_all

lemma cached_tag_slot: "cached_tag p = cached_tag q \<longleftrightarrow> cached_slot p = cached_slot q"
  by (cases p; cases q) (simp_all add: SLOT_TAG_PIN1_def SLOT_TAG_PIN2_def)

lemma rejected_record_fingerprint:
  "set (cache_rejected (record_fingerprint slot f c) slot') =
     set (cache_rejected c slot') \<union> (if slot' = slot then {f} else {})"
  "fingerprint_key (record_fingerprint slot f c) = fingerprint_key c"
  by (cases slot; cases slot'; auto simp: record_fingerprint_def contains_fingerprint_def list_ex_iff)+

lemma rejected_record_all:
  "set (cache_rejected (record_all hmac history c) slot) =
     set (cache_rejected c slot) \<union>
     {keyed_fingerprint hmac pin serial (fingerprint_key c) |serial pin.
        (serial, pin) \<in> set history \<and> cached_slot pin = slot} \<and>
   fingerprint_key (record_all hmac history c) = fingerprint_key c"
  unfolding record_all_def
proof (induction history arbitrary: c)
  case (Cons a history)
  obtain serial pin where a: "a = (serial, pin)" by force
  let ?c = "record_rejected hmac serial pin c"
  have "fingerprint_key ?c = fingerprint_key c"
      "set (cache_rejected ?c slot) = set (cache_rejected c slot) \<union>
        (if slot = cached_slot pin then {keyed_fingerprint hmac pin serial (fingerprint_key c)} else {})"
    by (simp_all add: record_rejected_def rejected_record_fingerprint cache_fingerprint_def)
  then show ?case using Cons.IH [of ?c] a by auto
qed simp

lemma distinct_record_all:
  assumes "\<forall>slot. distinct (cache_rejected c slot)"
  shows "distinct (cache_rejected (record_all hmac history c) slot)"
  using assms unfolding record_all_def
proof (induction history arbitrary: c)
  case (Cons a history)
  obtain serial pin where a: "a = (serial, pin)" by force
  have "distinct (cache_rejected (record_fingerprint s f c) slot')" for s f slot'
    using Cons.prems [rule_format, of slot'] Cons.prems [rule_format, of s]
    by (cases s; cases slot') (auto simp: record_fingerprint_def contains_fingerprint_def list_ex_iff)
  then show ?case using Cons.IH a by (simp add: record_rejected_def)
qed simp

lemma is_rejected_record_all:
  assumes "cache_new (Ok key) = Ok c"
  shows "is_rejected hmac (record_all hmac history c) serial pin \<longleftrightarrow>
    (\<exists>serial' pin'. keyed_fingerprint hmac pin serial key = keyed_fingerprint hmac pin' serial' key \<and>
       (serial', pin') \<in> set history \<and> cached_slot pin' = cached_slot pin)"
proof -
  have c: "fingerprint_key c = key" "cache_rejected c slot = []" for slot
    using assms by (cases slot; auto simp: cache_new_def)+
  show ?thesis
    using rejected_record_all [of hmac history c "cached_slot pin"] c
    by (simp add: is_rejected_def contains_fingerprint_def list_ex_iff cache_fingerprint_def)
qed

section \<open>Properties\<close>

text \<open>
  Property C28. A rejected PIN is never offered to the same card again, and no other PIN is refused
  for it. After any history of rejections recorded in a fresh cache: a PIN that was rejected for
  this card and slot is refused, whatever the keyed hash is, and no mark is stored twice. Where
  the key is usable and the hash does not collide on the values in play, a refused PIN is one
  that was rejected for this very card, slot and digits.
\<close>
theorem pin_cache_exact:
  assumes "cache_new (Ok key) = Ok c"
  shows "(\<forall>a\<in>set history. same_value a (serial, pin) \<longrightarrow>
       is_rejected hmac (record_all hmac history c) serial pin) \<and>
     (\<forall>slot. distinct (cache_rejected (record_all hmac history c) slot)) \<and>
     (\<forall>mac. hmac key = Some mac \<and> inj_on mac (preimage_of ` (set history \<union> {(serial, pin)})) \<and>
        (\<forall>a\<in>set history \<union> {(serial, pin)}. length (fst a) < 2 ^ 32 \<and> length (cached_digits (snd a)) < 256) \<and>
        is_rejected hmac (record_all hmac history c) serial pin \<longrightarrow>
        (\<exists>a\<in>set history. same_value a (serial, pin)))"
proof (intro conjI allI impI ballI)
  show "is_rejected hmac (record_all hmac history c) serial pin"
    if "a \<in> set history" "same_value a (serial, pin)" for a
  proof -
    have "(fst a, snd a) \<in> set history" using that(1) by simp
    moreover have "keyed_fingerprint hmac pin serial key = keyed_fingerprint hmac (snd a) (fst a) key"
      using that(2) by (simp add: same_value_def keyed_fingerprint_eq cached_tag_slot [symmetric])
    moreover have "cached_slot (snd a) = cached_slot pin" using that(2) by (simp add: same_value_def)
    ultimately show ?thesis using is_rejected_record_all [OF assms] by blast
  qed
  have "cache_rejected c slot = []" for slot
    using assms by (cases slot) (auto simp: cache_new_def)
  then show "distinct (cache_rejected (record_all hmac history c) slot)" for slot
    by (intro distinct_record_all) simp
  fix mac
  assume h: "hmac key = Some mac \<and> inj_on mac (preimage_of ` (set history \<union> {(serial, pin)})) \<and>
        (\<forall>a\<in>set history \<union> {(serial, pin)}. length (fst a) < 2 ^ 32 \<and> length (cached_digits (snd a)) < 256) \<and>
        is_rejected hmac (record_all hmac history c) serial pin"
  then obtain serial' pin' where a: "(serial', pin') \<in> set history" "cached_slot pin' = cached_slot pin"
      "keyed_fingerprint hmac pin serial key = keyed_fingerprint hmac pin' serial' key"
    using is_rejected_record_all [OF assms] by blast
  have fp: "keyed_fingerprint hmac (snd b) (fst b) key = mac (preimage_of b)"
    if "b \<in> set history \<union> {(serial, pin)}" for b
    using that h by (auto simp: keyed_fingerprint_eq pin_fingerprint_def preimage_of_def)
  have "preimage_of (serial', pin') = preimage_of (serial, pin)"
  proof (rule inj_onD)
    show "inj_on mac (preimage_of ` (set history \<union> {(serial, pin)}))" using h by blast
    show "mac (preimage_of (serial', pin')) = mac (preimage_of (serial, pin))"
      using a(1,3) fp [of "(serial', pin')"] fp [of "(serial, pin)"] by simp
  qed (use a(1) in blast)+
  then have "same_value (serial', pin') (serial, pin)"
    using h a(1) pin_preimage_inject [of serial' serial]
    by (auto simp: preimage_of_def same_value_def cached_tag_slot)
  then show "\<exists>a\<in>set history. same_value a (serial, pin)" using a(1) by blast
qed

theorem pin_cache_exact_witness:
  "(let hmac = (\<lambda>key. Some (\<lambda>m. take 32 (m @ replicate 32 0)));
        digits = \<lparr>sd_bytes = [0x31, 0x32, 0x33, 0x34, 0, 0, 0, 0, 0, 0, 0, 0], sd_length = 4\<rparr>;
        c = record_all hmac [([0x41], CachedPin1 (Pin1 digits))]
              \<lparr>fingerprint_key = replicate 32 7, rejected_pin1 = [], rejected_pin2 = []\<rparr>
    in is_rejected hmac c [0x41] (CachedPin1 (Pin1 digits)) \<and>
       \<not> is_rejected hmac c [0x42] (CachedPin1 (Pin1 digits)))"
proof -
  define hmac :: keyed_hash where "hmac = (\<lambda>key. Some (\<lambda>m. take 32 (m @ replicate 32 0)))"
  define digits where
    "digits = \<lparr>sd_bytes = [0x31, 0x32, 0x33, 0x34, 0, 0, 0, 0, 0, 0, 0, 0 :: u8], sd_length = 4\<rparr>"
  let ?key = "replicate 32 7 :: bytes"
  let ?c = "\<lparr>fingerprint_key = ?key, rejected_pin1 = [], rejected_pin2 = []\<rparr>"
  let ?h = "[([0x41], CachedPin1 (Pin1 digits))] :: (bytes \<times> CachedPin) list"
  have new: "cache_new (Ok ?key) = Ok ?c" by (simp add: cache_new_def)
  have d: "secret_bytes digits = [0x31, 0x32, 0x33, 0x34]"
    unfolding digits_def by code_simp
  have bytes: "be_bytes 4 (Suc 0) = [0, 0, 0, 1]" by (simp add: be_bytes_numeral be_bytes_unfold)
  have "is_rejected hmac (record_all hmac ?h ?c) [0x41] (CachedPin1 (Pin1 digits))"
    using pin_cache_exact [OF new, of ?h "[0x41]" "CachedPin1 (Pin1 digits)" hmac]
    by (simp add: same_value_def)
  moreover have "\<not> is_rejected hmac (record_all hmac ?h ?c) [0x42] (CachedPin1 (Pin1 digits))"
    using pin_cache_exact [OF new, of ?h "[0x42]" "CachedPin1 (Pin1 digits)" hmac]
    by (auto simp: same_value_def hmac_def preimage_of_def pin_preimage_def d bytes)
  ultimately show ?thesis by (simp add: Let_def hmac_def digits_def)
qed

end
