(* ===== verification/Pace_Sm.thy ===== *)
theory Pace_Sm
  imports Ber Iso7816 Card_Transport
begin

text \<open>
  Secure messaging of \<open>crates/pace/src/secure_messaging.rs\<close>, with the send sequence counter of
  \<open>handshake.rs\<close> and the cipher functions of \<open>crypto/symmetric.rs\<close>. The AES and CMAC primitives
  are those of external libraries: a record of functions, whose documented behaviour is the
  predicate \<open>aes_ok\<close>. A protected channel is again a transport, so whatever runs on a card runs on
  the channel. The theory shows that a channel to a card that holds the same keys is transparent,
  that nothing unauthenticated is taken for an answer, and that an answer is accepted only once.
\<close>

section \<open>Primitives\<close>

abbreviation (input) AES_BLOCK :: nat where "AES_BLOCK \<equiv> 16"
abbreviation (input) CMAC_TAG_TRUNCATED :: nat where "CMAC_TAG_TRUNCATED \<equiv> 8"

record aes_library =
  aes_block :: "bytes \<Rightarrow> bytes \<Rightarrow> bytes"
  cbc_encrypt :: "bytes \<Rightarrow> bytes \<Rightarrow> bytes \<Rightarrow> bytes"
  cbc_decrypt :: "bytes \<Rightarrow> bytes \<Rightarrow> bytes \<Rightarrow> bytes"
  cmac_tag :: "bytes \<Rightarrow> bytes \<Rightarrow> bytes"

datatype UnalignedInput = UnalignedInput nat

definition aes256_cbc_encrypt_no_padding ::
  "aes_library \<Rightarrow> bytes \<Rightarrow> bytes \<Rightarrow> bytes \<Rightarrow> (bytes, UnalignedInput) result" where
  "aes256_cbc_encrypt_no_padding A key iv plaintext =
     (if length plaintext mod AES_BLOCK \<noteq> 0 then Err (UnalignedInput (length plaintext))
      else Ok (cbc_encrypt A key iv plaintext))"

definition aes256_cbc_decrypt_no_padding ::
  "aes_library \<Rightarrow> bytes \<Rightarrow> bytes \<Rightarrow> bytes \<Rightarrow> (bytes, UnalignedInput) result" where
  "aes256_cbc_decrypt_no_padding A key iv ciphertext =
     (if length ciphertext mod AES_BLOCK \<noteq> 0 then Err (UnalignedInput (length ciphertext))
      else Ok (cbc_decrypt A key iv ciphertext))"

definition aes256_ecb_encrypt_block :: "aes_library \<Rightarrow> bytes \<Rightarrow> bytes \<Rightarrow> bytes" where
  "aes256_ecb_encrypt_block A key block = aes_block A key block"

definition aes256_cmac_truncated :: "aes_library \<Rightarrow> bytes \<Rightarrow> bytes \<Rightarrow> bytes" where
  "aes256_cmac_truncated A key message = take CMAC_TAG_TRUNCATED (cmac_tag A key message)"

text \<open>The counter steps its octets from the last one, carrying over those that are full.\<close>

fun ssc_carry :: "bytes \<Rightarrow> bytes" where
  "ssc_carry [] = []"
| "ssc_carry (b # bs) = (if b = 0xFF then 0 # ssc_carry bs else (b + 1) # bs)"

definition ssc_increment :: "bytes \<Rightarrow> bytes" where
  "ssc_increment s = rev (ssc_carry (rev s))"

definition SSC_INITIAL :: bytes where
  "SSC_INITIAL = replicate AES_BLOCK 0"

section \<open>Padding and command forms\<close>

abbreviation (input) PAD_MARKER :: u8 where "PAD_MARKER \<equiv> 0x80"
abbreviation (input) PAD_FILLER :: u8 where "PAD_FILLER \<equiv> 0x00"
abbreviation (input) HEADER_LEN :: nat where "HEADER_LEN \<equiv> 4"

definition iso7816_4_pad :: "bytes \<Rightarrow> bytes" where
  "iso7816_4_pad data =
     (let out = data @ [PAD_MARKER] in out @ replicate ((AES_BLOCK - length out mod AES_BLOCK) mod AES_BLOCK) PAD_FILLER)"

definition iso7816_4_unpad :: "bytes \<Rightarrow> bytes" where
  "iso7816_4_unpad data =
     (let trailing_filler = length (takeWhile (\<lambda>b. b = PAD_FILLER) (rev data));
          from_end = trailing_filler + 1
      in if length data < from_end then data
         else let marker_pos = length data - from_end in
              if data ! marker_pos = PAD_MARKER then take marker_pos data else data)"

definition decode_short_apdu :: "bytes \<Rightarrow> (bytes \<times> u8 option) option" where
  "decode_short_apdu apdu =
     (if length apdu = HEADER_LEN then Some ([], None)
      else if length apdu = HEADER_LEN + 1 then Some ([], Some (apdu ! HEADER_LEN))
      else if length apdu \<le> HEADER_LEN then None
      else
        let lc = unat (apdu ! HEADER_LEN);
            body_start = HEADER_LEN + 1;
            body_end = body_start + lc
        in case slice_get apdu body_start body_end of
             None \<Rightarrow> None
           | Some data \<Rightarrow>
               if length apdu = body_end then Some (data, None)
               else if length apdu = body_end + 1 then Some (data, Some (apdu ! body_end))
               else None)"

section \<open>The channel\<close>

abbreviation (input) TAG_CRYPTOGRAM :: u8 where "TAG_CRYPTOGRAM \<equiv> 0x87"
abbreviation (input) TAG_CRYPTOGRAM_ODD :: u8 where "TAG_CRYPTOGRAM_ODD \<equiv> 0x85"
abbreviation (input) INS_ODD_MASK :: u8 where "INS_ODD_MASK \<equiv> 0x01"
abbreviation (input) TAG_PROTECTED_LE :: u8 where "TAG_PROTECTED_LE \<equiv> 0x97"
abbreviation (input) TAG_PROTECTED_STATUS :: u8 where "TAG_PROTECTED_STATUS \<equiv> 0x99"
abbreviation (input) TAG_MAC :: u8 where "TAG_MAC \<equiv> 0x8E"
abbreviation (input) PADDING_INDICATOR :: u8 where "PADDING_INDICATOR \<equiv> 0x01"
abbreviation (input) SM_LE_ANY :: u8 where "SM_LE_ANY \<equiv> 0x00"
abbreviation (input) SM_READ_BINARY_MAX_LE :: u8 where "SM_READ_BINARY_MAX_LE \<equiv> 0xDF"
abbreviation (input) STATUS_LEN :: nat where "STATUS_LEN \<equiv> 2"
abbreviation (input) MAC_LEN :: nat where "MAC_LEN \<equiv> 8"

record ('s, 'o) SmTransport =
  sm_inner :: 's
  sm_k_enc :: bytes
  sm_k_mac :: bytes
  sm_ssc :: bytes
  sm_opened_by :: 'o

datatype 'e SmError =
    SmTransportError 'e
  | SmMalformed string
  | MacMismatch
  | Unprotected StatusWord
  | CommandTooLong

type_synonym ('s, 'o, 'a, 'e) sm_op = "(('s, 'o) SmTransport, 'a, 'e SmError) transport_op"

definition sm_step :: "('s, 'o, unit, 'e) sm_op" where
  "sm_step m = (m\<lparr>sm_ssc := ssc_increment (sm_ssc m)\<rparr>, Ok ())"

text \<open>The cryptogram object of a command, \<open>m\<close> being the channel with its counter stepped.\<close>

definition wrap_data ::
  "aes_library \<Rightarrow> ('s, 'o) SmTransport \<Rightarrow> u8 \<Rightarrow> bytes \<Rightarrow> (bytes, 'e SmError) result" where
  "wrap_data A m instruction data =
     (if data = [] then Ok []
      else
        let padded = iso7816_4_pad data;
            block_iv = aes256_ecb_encrypt_block A (sm_k_enc m) (sm_ssc m)
        in and_then (map_err (\<lambda>_. SmMalformed ''padded plaintext not block-aligned'')
             (aes256_cbc_encrypt_no_padding A (sm_k_enc m) block_iv padded)) (\<lambda>cipher.
             map_err (\<lambda>_. CommandTooLong)
               (if instruction AND INS_ODD_MASK \<noteq> 0 then tlv TAG_CRYPTOGRAM_ODD cipher
                else tlv TAG_CRYPTOGRAM (PADDING_INDICATOR # cipher))))"

definition wrap_objects ::
  "aes_library \<Rightarrow> ('s, 'o) SmTransport \<Rightarrow> CommandHeader \<Rightarrow> bytes \<Rightarrow> u8 option \<Rightarrow>
   (bytes, 'e SmError) result" where
  "wrap_objects A m header data le =
     and_then (wrap_data A m (hdr_instruction header) data) (\<lambda>cryptogram.
     and_then (case le of
         Some le_byte \<Rightarrow> map_err (\<lambda>_. CommandTooLong) (tlv TAG_PROTECTED_LE [le_byte])
       | None \<Rightarrow> Ok []) (\<lambda>protected_le.
     let mac_input = iso7816_4_pad (sm_ssc m @ iso7816_4_pad (header_to_bytes header) @ cryptogram @ protected_le);
         tag = aes256_cmac_truncated A (sm_k_mac m) mac_input
     in and_then (map_err (\<lambda>_. CommandTooLong) (tlv TAG_MAC tag)) (\<lambda>mac_object.
          Ok (cryptogram @ protected_le @ mac_object))))"

definition sm_wrap ::
  "aes_library \<Rightarrow> bytes \<Rightarrow> ('s, 'o, CommandHeader \<times> bytes, 'e) sm_op" where
  "sm_wrap A plain =
     (if length plain < HEADER_LEN then done_with (Err (SmMalformed ''command shorter than its header''))
      else
        let sm_header = \<lparr>hdr_class = SecureMessaging, hdr_instruction = plain ! 1, hdr_p1 = plain ! 2,
              hdr_p2 = plain ! 3\<rparr>
        in case decode_short_apdu plain of
             None \<Rightarrow> done_with (Err (SmMalformed ''command is not a short-form case''))
           | Some (data, le) \<Rightarrow>
               then_do sm_step (\<lambda>_ m.
                 (m, and_then (wrap_objects A m sm_header data le) (\<lambda>body. Ok (sm_header, body)))))"

text \<open>The objects of a response, the last of each kind counting.\<close>

fun response_objects ::
  "(BerTlvAny, BerError) result list \<Rightarrow> (u8 \<times> bytes) option \<Rightarrow> bytes option \<Rightarrow> bytes option \<Rightarrow>
   ((u8 \<times> bytes) option \<times> bytes option \<times> bytes option, 'e SmError) result" where
  "response_objects [] cryptogram status mac = Ok (cryptogram, status, mac)"
| "response_objects (Err _ # items) cryptogram status mac = Err (SmMalformed ''response BER parse'')"
| "response_objects (Ok p # items) cryptogram status mac =
     (let tag = tlv_tag p in
      if tag = ucast TAG_CRYPTOGRAM \<or> tag = ucast TAG_CRYPTOGRAM_ODD
      then response_objects items (Some (ucast tag, tlv_value p)) status mac
      else if tag = ucast TAG_PROTECTED_STATUS
      then response_objects items cryptogram (Some (tlv_value p)) mac
      else if tag = ucast TAG_MAC
      then response_objects items cryptogram status (Some (tlv_value p))
      else response_objects items cryptogram status mac)"

definition decrypt_body ::
  "aes_library \<Rightarrow> ('s, 'o) SmTransport \<Rightarrow> (u8 \<times> bytes) option \<Rightarrow> (bytes, 'e SmError) result" where
  "decrypt_body A m cryptogram =
     (case cryptogram of
        None \<Rightarrow> Ok []
      | Some (tag, value) \<Rightarrow>
          and_then (if tag = TAG_CRYPTOGRAM then
              (case value of
                 [] \<Rightarrow> Err (SmMalformed ''cryptogram empty'')
               | indicator # cipher \<Rightarrow>
                   if indicator \<noteq> PADDING_INDICATOR then Err (SmMalformed ''cryptogram padding indicator'')
                   else Ok cipher)
            else Ok value) (\<lambda>cipher_bytes.
          if length cipher_bytes mod AES_BLOCK \<noteq> 0 then Err (SmMalformed ''cryptogram not whole blocks'')
          else
            let block_iv = aes256_ecb_encrypt_block A (sm_k_enc m) (sm_ssc m) in
            and_then (map_err (\<lambda>_. SmMalformed ''cryptogram not whole blocks'')
              (aes256_cbc_decrypt_no_padding A (sm_k_enc m) block_iv cipher_bytes)) (\<lambda>plain.
              Ok (iso7816_4_unpad plain))))"

definition response_mac_input ::
  "bytes \<Rightarrow> (u8 \<times> bytes) option \<Rightarrow> bytes \<Rightarrow> (bytes, 'e SmError) result" where
  "response_mac_input ssc cryptogram status =
     and_then (case cryptogram of
         Some (tag, value) \<Rightarrow> map_err (\<lambda>_. SmMalformed ''cryptogram too long to re-encode'') (tlv tag value)
       | None \<Rightarrow> Ok []) (\<lambda>object.
     and_then (map_err (\<lambda>_. SmMalformed ''status too long to re-encode'') (tlv TAG_PROTECTED_STATUS status))
       (\<lambda>status_object. Ok (iso7816_4_pad (ssc @ object @ status_object))))"

definition unwrap_objects ::
  "aes_library \<Rightarrow> ('s, 'o) SmTransport \<Rightarrow> bytes \<Rightarrow> (bytes \<times> StatusWord, 'e SmError) result" where
  "unwrap_objects A m response =
     and_then (response_objects (ber_items response) None None None) (\<lambda>(cryptogram, status, mac).
     and_then (ok_or status (SmMalformed ''no protected status object'')) (\<lambda>status.
     and_then (ok_or mac (SmMalformed ''no authentication object'')) (\<lambda>mac.
     if length status \<noteq> STATUS_LEN then Err (SmMalformed ''status object wrong length'')
     else if length mac \<noteq> MAC_LEN then Err (SmMalformed ''authentication object wrong length'')
     else
       and_then (response_mac_input (sm_ssc m) cryptogram status) (\<lambda>mac_input.
       if aes256_cmac_truncated A (sm_k_mac m) mac_input \<noteq> mac then Err MacMismatch
       else and_then (decrypt_body A m cryptogram) (\<lambda>body.
         Ok (body, sw_from_bytes (status ! 0) (status ! 1)))))))"

definition sm_unwrap :: "aes_library \<Rightarrow> bytes \<Rightarrow> ('s, 'o, bytes \<times> StatusWord, 'e) sm_op" where
  "sm_unwrap A response = then_do sm_step (\<lambda>_ m. (m, unwrap_objects A m response))"

fun sm_finish :: "aes_library \<Rightarrow> TransportOutcome \<Rightarrow> ('s, 'o, TransportOutcome, 'e) sm_op" where
  "sm_finish A (Response response) =
     (if rsp_body response = [] then done_with (Err (Unprotected (status_word response)))
      else then_do (sm_unwrap A (rsp_body response)) (\<lambda>(body, sw).
        done_with (Ok (Response \<lparr>rsp_body = body, rsp_sw1 = u16_hi (sw_as_u16 sw), rsp_sw2 = u16_lo (sw_as_u16 sw)\<rparr>))))"
| "sm_finish A other = done_with (Ok other)"

definition on_inner ::
  "('s \<Rightarrow> 's \<times> (TransportOutcome, 'e) result) \<Rightarrow> ('s, 'o, TransportOutcome, 'e) sm_op" where
  "on_inner f m = (case f (sm_inner m) of (s, r) \<Rightarrow> (m\<lparr>sm_inner := s\<rparr>, map_err SmTransportError r))"

definition transmit_single ::
  "aes_library \<Rightarrow> ('s, 'e) CardTransport \<Rightarrow> bytes \<Rightarrow> ('s, 'o, TransportOutcome, 'e) sm_op" where
  "transmit_single A tp plain =
     then_do (sm_wrap A plain) (\<lambda>(header, body).
     then_do (done_with (map_err (\<lambda>_. CommandTooLong) (case_4 header body SM_LE_ANY))) (\<lambda>wrapped.
     then_do (on_inner (transmit tp wrapped)) (sm_finish A)))"

fun response_or_fault :: "TransportOutcome \<Rightarrow> (ResponseApdu \<Rightarrow> ('s, 'o, TransportOutcome, 'e) sm_op) \<Rightarrow>
  ('s, 'o, TransportOutcome, 'e) sm_op" where
  "response_or_fault (Response response) k = k response"
| "response_or_fault fault k = done_with (Ok fault)"

definition transmit_fragmented_read ::
  "aes_library \<Rightarrow> ('s, 'e) CardTransport \<Rightarrow> bytes \<Rightarrow> bytes \<Rightarrow> ('s, 'o, TransportOutcome, 'e) sm_op" where
  "transmit_fragmented_read A tp first second =
     then_do (transmit_single A tp first) (\<lambda>outcome.
     response_or_fault outcome (\<lambda>first_response.
     if \<not> response_is_ok first_response \<or> length (rsp_body first_response) \<noteq> unat SM_READ_BINARY_MAX_LE
     then done_with (Ok (Response first_response))
     else then_do (transmit_single A tp second) (\<lambda>outcome.
       response_or_fault outcome (\<lambda>second_response.
       done_with (Ok (Response \<lparr>rsp_body = rsp_body first_response @ rsp_body second_response,
         rsp_sw1 = rsp_sw1 second_response, rsp_sw2 = rsp_sw2 second_response\<rparr>))))))"

text \<open>
  READ BINARY spans longer than a protected response carries are split in two. The offset has
  fifteen bits in the direct form and eleven in the short-file-identifier form, so the sum stays in
  sixteen bits.
\<close>

definition split_protected_read ::
  "bytes \<Rightarrow> ((bytes \<times> bytes) option, 'e SmError) result" where
  "split_protected_read command =
     (if length command \<noteq> 5 \<or> command ! 1 \<noteq> 0xB0 then Ok None
      else
        let le = command ! 4;
            total_len = (if le = SM_LE_ANY then 256 else unat le);
            first_len = unat SM_READ_BINARY_MAX_LE
        in if total_len \<le> first_len then Ok None
           else
             let p1 = command ! 2; p2 = command ! 3;
                 direct = (p1 AND 0x80 = 0);
                 offset = (if direct then u16_of_be p1 p2 else u16_of_be (p1 AND 0x07) p2);
                 ceiling = (if direct then 0x7FFF else 0x07FF :: u16);
                 advanced = unat offset + first_len
             in if advanced \<ge> 2 ^ 16 \<or> advanced > unat ceiling
                then Err (SmMalformed ''fragmented read offset out of form'')
                else
                  let second_offset = of_nat advanced :: u16 in
                  and_then (ok_or (u8_try_from (total_len - first_len)) (SmMalformed ''fragment too long'')) (\<lambda>second_le.
                  let second_p1 = (if direct then u16_hi second_offset
                        else (p1 AND NOT 0x07) OR (u16_hi second_offset AND 0x07));
                      second_p2 = u16_lo second_offset
                  in Ok (Some ([command ! 0, 0xB0, p1, p2, SM_READ_BINARY_MAX_LE],
                               [command ! 0, 0xB0, second_p1, second_p2, second_le]))))"

definition sm_transport ::
  "aes_library \<Rightarrow> ('s, 'e) CardTransport \<Rightarrow> (('s, 'o) SmTransport, 'e SmError) CardTransport" where
  "sm_transport A tp =
     \<lparr>transmit = (\<lambda>command m.
        case split_protected_read (cmd_bytes command) of
          Err e \<Rightarrow> (m, Err e)
        | Ok (Some (first, second)) \<Rightarrow> transmit_fragmented_read A tp first second m
        | Ok None \<Rightarrow> transmit_single A tp (cmd_bytes command) m),
      transmit_credential = (\<lambda>command.
        then_do (expose_wire command (sm_wrap A)) (\<lambda>(header, body).
        then_do (done_with (map_err (\<lambda>_. CommandTooLong) (from_protected_parts header body SM_LE_ANY)))
          (\<lambda>wrapped. then_do (on_inner (transmit_credential tp wrapped)) (sm_finish A))))\<rparr>"

fun sm_error_kind :: "('e \<Rightarrow> TransportErrorKind) \<Rightarrow> 'e SmError \<Rightarrow> TransportErrorKind" where
  "sm_error_kind kind (SmTransportError e) = kind e"
| "sm_error_kind kind (SmMalformed _) = KindProtocolDesync"
| "sm_error_kind kind MacMismatch = KindProtocolDesync"
| "sm_error_kind kind (Unprotected _) = KindProtocolDesync"
| "sm_error_kind kind CommandTooLong = Backend"

section \<open>The counter\<close>

lemma length_ssc_carry [simp]: "length (ssc_carry s) = length s"
  by (induction s) auto

lemma length_ssc_increment [simp]: "length (ssc_increment s) = length s"
  by (simp add: ssc_increment_def)

lemma be_value_carry:
  "be_value (rev (ssc_carry s)) = (be_value (rev s) + 1) mod 256 ^ length s"
proof (induction s)
  case (Cons b s)
  let ?v = "be_value (rev s)" and ?N = "256 ^ length s :: nat"
  have v: "?v < ?N" using be_value_less [of "rev s"] by simp
  show ?case
  proof (cases "b = 0xFF")
    case True
    have b: "unat b = 255" by (simp add: True)
    have "(?v * 256 + 255 + 1) mod (256 * ?N) = 256 * ((?v + 1) mod ?N)"
      by (simp add: mult_mod_right algebra_simps)
    then show ?thesis using Cons True by (simp add: be_value_snoc b)
  next
    case False
    then have "unat b \<noteq> 255" by (simp add: word_unat_eq_iff)
    then have "unat b + 1 < 256" using unat_u8_less [of b] by linarith
    then have b: "unat (b + 1) = unat b + 1" "unat b + 1 < 256" by (simp_all add: unat_word_ariths)
    then have "?v * 256 + unat b + 1 < 256 * ?N" using v by linarith
    then show ?thesis using False b by (simp add: be_value_snoc)
  qed
qed simp

lemma ssc_increment_value: "be_value (ssc_increment s) = (be_value s + 1) mod 256 ^ length s"
  using be_value_carry [of "rev s"] by (simp add: ssc_increment_def)

section \<open>Padding\<close>

lemma block_fill: "n + 1 + (16 - (n + 1) mod 16) mod 16 = 16 * (n div 16 + 1)" for n :: nat
proof -
  define q r where "q = n div 16" and "r = n mod 16"
  have n: "n = 16 * q + r" "r < 16" by (simp_all add: q_def r_def)
  have "n div 16 = q" by (simp add: q_def)
  moreover have "(n + 1) mod 16 = (if r = 15 then 0 else r + 1)" using n by (auto simp: mod_Suc)
  ultimately show ?thesis using n by auto
qed

lemma length_pad: "length (iso7816_4_pad d) = 16 * (length d div 16 + 1)"
  using block_fill [of "length d"] by (simp add: iso7816_4_pad_def)

lemma pad_form: "\<exists>n. iso7816_4_pad d = d @ 0x80 # replicate n 0"
  by (simp add: iso7816_4_pad_def)

lemma unpad_pad [simp]: "iso7816_4_unpad (iso7816_4_pad d) = d"
proof -
  obtain n where n: "iso7816_4_pad d = d @ 0x80 # replicate n 0" using pad_form by blast
  have "takeWhile (\<lambda>b. b = 0) (replicate n 0 @ 0x80 # rev d) = replicate n (0 :: u8)"
    by (induction n) simp_all
  then show ?thesis by (simp add: n iso7816_4_unpad_def Let_def nth_append)
qed

lemma pad_inject: "iso7816_4_pad a = iso7816_4_pad b \<longleftrightarrow> a = b"
  by (metis unpad_pad)

section \<open>A card that speaks secure messaging\<close>

text \<open>
  The documented behaviour of the cipher library: decrypting whole blocks undoes encrypting them
  and keeps their length, and a full tag has at least the eight octets that are kept of it.
\<close>

definition aes_ok :: "aes_library \<Rightarrow> bool" where
  "aes_ok A \<longleftrightarrow>
     (\<forall>k iv m. length m mod 16 = 0 \<longrightarrow>
        length (cbc_encrypt A k iv m) = length m \<and> cbc_decrypt A k iv (cbc_encrypt A k iv m) = m) \<and>
     (\<forall>k m. 8 \<le> length (cmac_tag A k m))"

text \<open>
  The card's side: it authenticates a command with its own counter, rebuilds the plain command, has
  it processed, and protects the answer with the next counter. \<open>plain\<close> is the card without secure
  messaging, a function on the octets of a command.
\<close>

type_synonym 's plain_card = "bytes \<Rightarrow> 's \<Rightarrow> 's \<times> ResponseApdu"

record 's sm_card_state =
  sc_card :: 's
  sc_ssc :: bytes

definition tlv_octets :: "u8 \<Rightarrow> bytes \<Rightarrow> bytes" where
  "tlv_octets t v = (case tlv t v of Ok w \<Rightarrow> w | Err _ \<Rightarrow> [])"

definition tagged :: "(BerTlvAny, BerError) result list \<Rightarrow> u16 \<rightharpoonup> bytes" where
  "tagged items =
     map_of (List.map_filter (\<lambda>r. case r of Ok p \<Rightarrow> Some (tlv_tag p, tlv_value p) | Err _ \<Rightarrow> None) items)"

definition sm_card_open ::
  "aes_library \<Rightarrow> bytes \<Rightarrow> bytes \<Rightarrow> bytes \<Rightarrow> bytes \<Rightarrow> bytes option" where
  "sm_card_open A k_enc k_mac ssc command =
     (case decode_short command of
        None \<Rightarrow> None
      | Some a \<Rightarrow>
          let items = ber_items (sa_data a);
              authenticated = take (length (sa_data a) - 10) (sa_data a);
              tag = take 8 (cmac_tag A k_mac
                (iso7816_4_pad (ssc @ iso7816_4_pad (sa_header a) @ authenticated)));
              decrypt = (\<lambda>c. iso7816_4_unpad (cbc_decrypt A k_enc (aes_block A k_enc ssc) c));
              body = (case tagged items 0x87 of
                  Some v \<Rightarrow> decrypt (tl v)
                | None \<Rightarrow> (case tagged items 0x85 of Some v \<Rightarrow> decrypt v | None \<Rightarrow> []))
          in if hd (sa_header a) \<noteq> 0x0C \<or> tagged items 0x8E \<noteq> Some tag then None
             else Some (0x00 # tl (sa_header a) @ (if body = [] then [] else of_nat (length body) # body) @
                    (case tagged items 0x97 of Some v \<Rightarrow> v | None \<Rightarrow> [])))"

definition sm_card_seal ::
  "aes_library \<Rightarrow> bytes \<Rightarrow> bytes \<Rightarrow> bytes \<Rightarrow> u8 \<Rightarrow> ResponseApdu \<Rightarrow> bytes" where
  "sm_card_seal A k_enc k_mac ssc ins r =
     (let cipher = cbc_encrypt A k_enc (aes_block A k_enc ssc) (iso7816_4_pad (rsp_body r));
          cryptogram = (if rsp_body r = [] then []
            else if ins AND 0x01 \<noteq> 0 then tlv_octets 0x85 cipher
            else tlv_octets 0x87 (0x01 # cipher));
          status = tlv_octets 0x99 [rsp_sw1 r, rsp_sw2 r];
          tag = take 8 (cmac_tag A k_mac (iso7816_4_pad (ssc @ cryptogram @ status)))
      in cryptogram @ status @ tlv_octets 0x8E tag)"

definition sm_card_answer ::
  "aes_library \<Rightarrow> bytes \<Rightarrow> bytes \<Rightarrow> 's plain_card \<Rightarrow> bytes \<Rightarrow> 's sm_card_state \<Rightarrow>
   's sm_card_state \<times> (TransportOutcome, 'e) result" where
  "sm_card_answer A k_enc k_mac plain command c =
     (let ssc = ssc_increment (sc_ssc c) in
      case sm_card_open A k_enc k_mac ssc command of
        None \<Rightarrow> (c\<lparr>sc_ssc := ssc\<rparr>, Ok (Response \<lparr>rsp_body = [], rsp_sw1 = 0x69, rsp_sw2 = 0x88\<rparr>))
      | Some apdu \<Rightarrow>
          (case plain apdu (sc_card c) of
             (s, r) \<Rightarrow>
               (\<lparr>sc_card = s, sc_ssc = ssc_increment ssc\<rparr>,
                Ok (Response (r\<lparr>rsp_body := sm_card_seal A k_enc k_mac (ssc_increment ssc) (apdu ! 1) r\<rparr>)))))"

definition sm_card ::
  "aes_library \<Rightarrow> bytes \<Rightarrow> bytes \<Rightarrow> 's plain_card \<Rightarrow> ('s sm_card_state, 'e) CardTransport" where
  "sm_card A k_enc k_mac plain =
     \<lparr>transmit = (\<lambda>c. sm_card_answer A k_enc k_mac plain (cmd_bytes c)),
      transmit_credential = (\<lambda>c. sm_card_answer A k_enc k_mac plain (credential_wire c))\<rparr>"

text \<open>The two ends of a channel hold the same keys and the same counter.\<close>

definition in_step :: "bytes \<Rightarrow> bytes \<Rightarrow> ('s sm_card_state, 'o) SmTransport \<Rightarrow> bool" where
  "in_step k_enc k_mac m \<longleftrightarrow>
     sm_k_enc m = k_enc \<and> sm_k_mac m = k_mac \<and> sm_ssc m = sc_ssc (sm_inner m)"

text \<open>A plain command in its short form.\<close>

definition short_wire :: "CommandHeader \<Rightarrow> bytes \<Rightarrow> u8 option \<Rightarrow> bytes" where
  "short_wire h data le =
     header_to_bytes h @ (if data = [] then [] else of_nat (length data) # data) @
     (case le of Some l \<Rightarrow> [l] | None \<Rightarrow> [])"

section \<open>Objects\<close>

lemma tlv_eq: "ber_tag_ok (Tag1 t) \<Longrightarrow> length v < 2 ^ 32 \<Longrightarrow> tlv t v = Ok (tlv_octets t v)"
proof -
  assume "ber_tag_ok (Tag1 t)" "length v < 2 ^ 32"
  then obtain w where "tlv t v = Ok w"
    using push_length_Ok_iff [of "length v"] ber_encode_Ok [of "Tag1 t" v] by auto
  then show ?thesis by (simp add: tlv_octets_def)
qed

lemma object_tags [simp]:
  "ber_tag_ok (Tag1 0x85)" "ber_tag_ok (Tag1 0x87)" "ber_tag_ok (Tag1 0x97)" "ber_tag_ok (Tag1 0x99)"
  "ber_tag_ok (Tag1 0x8E)"
  by (simp_all add: MULTI_BYTE_TAG_MASK_def)

declare ber_tag_ok.simps [simp del]

lemma items_of_objects:
  assumes "\<forall>(t, v) \<in> set rs. ber_tag_ok (Tag1 t) \<and> length v < 2 ^ 32"
  shows "\<exists>ns. length ns = length rs \<and>
    ber_items (concat (map (\<lambda>(t, v). tlv_octets t v) rs)) =
      map2 (\<lambda>(t, v) n. Ok \<lparr>tlv_tag = ucast t, tlv_value = v, tlv_size = n\<rparr>) rs ns"
proof -
  let ?ws = "map (\<lambda>(t, v). tlv_octets t v) rs" and ?xs = "map (\<lambda>(t, v). (Tag1 t, v)) rs"
  have "list_all2 (\<lambda>x w. ber_encode x = Ok w) ?xs ?ws"
    using assms by (induction rs) (auto simp: tlv_eq)
  then have "ber_items (concat ?ws) = map2 (\<lambda>x w. Ok (ber_view x (length w))) ?xs ?ws"
    by (rule ber_codec.items_concat)
  also have "\<dots> = map2 (\<lambda>(t, v) n. Ok \<lparr>tlv_tag = ucast t, tlv_value = v, tlv_size = n\<rparr>) rs (map length ?ws)"
    by (rule nth_equalityI) (auto simp: ber_view_def split: prod.splits)
  finally show ?thesis by (intro exI [of _ "map length ?ws"]) simp
qed

lemma tlv_octets_short: "length v < 128 \<Longrightarrow> ber_tag_ok (Tag1 t) \<Longrightarrow> tlv_octets t v = t # of_nat (length v) # v"
  by (simp add: ber_tag_ok.simps tlv_octets_def tlv_def push_tlv_def push_length_def Let_def ber_consts)

lemma length_tlv_octets: "length v < 256 \<Longrightarrow> ber_tag_ok (Tag1 t) \<Longrightarrow> length (tlv_octets t v) \<le> length v + 3"
  by (simp add: ber_tag_ok.simps tlv_octets_def tlv_def push_tlv_def push_length_def Let_def ber_consts)

lemma length_tlv_octets_ge: "ber_tag_ok (Tag1 t) \<Longrightarrow> length v < 2 ^ 32 \<Longrightarrow> length v \<le> length (tlv_octets t v)"
  using tlv_eq [of t v] ber_encode_Ok [of "Tag1 t" v "tlv_octets t v"] by auto

section \<open>Sealing and opening an answer\<close>

lemma aes_okD:
  assumes "aes_ok A"
  shows "length m mod 16 = 0 \<Longrightarrow> length (cbc_encrypt A k iv m) = length m"
    "length m mod 16 = 0 \<Longrightarrow> cbc_decrypt A k iv (cbc_encrypt A k iv m) = m"
    "length (take 8 (cmac_tag A k m)) = 8"
  using assms by (simp_all add: aes_ok_def)

lemma pad_blocks [simp]: "length (iso7816_4_pad d) mod 16 = 0"
  by (simp add: length_pad)

fun object_octets :: "(u8 \<times> bytes) option \<Rightarrow> bytes" where
  "object_octets None = []"
| "object_octets (Some (t, v)) = tlv_octets t v"

fun cryptogram_ok :: "(u8 \<times> bytes) option \<Rightarrow> bool" where
  "cryptogram_ok None \<longleftrightarrow> True"
| "cryptogram_ok (Some (t, v)) \<longleftrightarrow> t \<in> {0x85, 0x87} \<and> length v < 2 ^ 32"

lemma response_objects_sealed:
  assumes "cryptogram_ok c" "length status = 2" "length tag = 8"
  shows "response_objects (ber_items (object_octets c @ tlv_octets 0x99 status @ tlv_octets 0x8E tag))
    None None None = Ok (c, Some status, Some tag)"
proof (cases c)
  case None
  then show ?thesis
    using items_of_objects [of "[(0x99, status), (0x8E, tag)]"] assms
    by (auto simp: length_Suc_conv)
next
  case (Some tv)
  then show ?thesis
    using items_of_objects [of "[tv, (0x99, status), (0x8E, tag)]"] assms
    by (cases tv) (auto simp: length_Suc_conv)
qed

definition sealed_body :: "aes_library \<Rightarrow> bytes \<Rightarrow> bytes \<Rightarrow> u8 \<Rightarrow> bytes \<Rightarrow> (u8 \<times> bytes) option" where
  "sealed_body A k ssc ins body =
     (let cipher = cbc_encrypt A k (aes_block A k ssc) (iso7816_4_pad body) in
      if body = [] then None
      else if ins AND 0x01 \<noteq> 0 then Some (0x85, cipher) else Some (0x87, 0x01 # cipher))"

lemma sealed_body_ok:
  assumes "aes_ok A" "length body < 2 ^ 31"
  shows "cryptogram_ok (sealed_body A k ssc ins body)"
proof -
  have "length (iso7816_4_pad body) \<le> length body + 16" by (simp add: length_pad)
  then show ?thesis using assms aes_okD(1) [OF assms(1) pad_blocks] by (simp add: sealed_body_def Let_def)
qed

lemma decrypt_sealed_body:
  assumes "aes_ok A"
  shows "decrypt_body A m (sealed_body A (sm_k_enc m) (sm_ssc m) ins body) = Ok body"
  using aes_okD [OF assms] pad_blocks
  by (simp add: sealed_body_def decrypt_body_def Let_def aes256_ecb_encrypt_block_def
      aes256_cbc_decrypt_no_padding_def)

lemma unwrap_seal:
  assumes "aes_ok A" "length (rsp_body r) < 2 ^ 31"
  shows "unwrap_objects A m (sm_card_seal A (sm_k_enc m) (sm_k_mac m) (sm_ssc m) ins r) =
    Ok (rsp_body r, sw_from_bytes (rsp_sw1 r) (rsp_sw2 r))"
proof -
  define c where "c = sealed_body A (sm_k_enc m) (sm_ssc m) ins (rsp_body r)"
  define status where "status = [rsp_sw1 r, rsp_sw2 r]"
  define tag where "tag = take 8 (cmac_tag A (sm_k_mac m)
    (iso7816_4_pad (sm_ssc m @ object_octets c @ tlv_octets 0x99 status)))"
  have c: "cryptogram_ok c" using sealed_body_ok assms by (simp add: c_def)
  have len: "length status = 2" "length tag = 8"
    using aes_okD(3) [OF assms(1)] by (simp_all add: status_def tag_def)
  have seal: "sm_card_seal A (sm_k_enc m) (sm_k_mac m) (sm_ssc m) ins r =
      object_octets c @ tlv_octets 0x99 status @ tlv_octets 0x8E tag"
    by (simp add: sm_card_seal_def c_def sealed_body_def status_def tag_def Let_def)
  have mac: "response_mac_input (sm_ssc m) c status =
      Ok (iso7816_4_pad (sm_ssc m @ object_octets c @ tlv_octets 0x99 status))"
    using c len by (cases c rule: object_octets.cases) (auto simp: response_mac_input_def tlv_eq)
  have body: "decrypt_body A m c = Ok (rsp_body r)" using decrypt_sealed_body [OF assms(1)] by (simp add: c_def)
  have tag: "aes256_cmac_truncated A (sm_k_mac m)
      (iso7816_4_pad (sm_ssc m @ object_octets c @ tlv_octets 0x99 status)) = tag"
    by (simp add: aes256_cmac_truncated_def tag_def)
  have "unwrap_objects A m (object_octets c @ tlv_octets 0x99 status @ tlv_octets 0x8E tag) =
      Ok (rsp_body r, sw_from_bytes (status ! 0) (status ! 1))"
    by (simp add: unwrap_objects_def response_objects_sealed [OF c len] mac body len tag)
  then show ?thesis by (simp add: seal status_def)
qed

section \<open>Sealing and opening a command\<close>

definition le_object :: "u8 option \<Rightarrow> (u8 \<times> bytes) option" where
  "le_object le = map_option (\<lambda>l. (0x97, [l])) le"

definition command_tag ::
  "aes_library \<Rightarrow> bytes \<Rightarrow> bytes \<Rightarrow> bytes \<Rightarrow> (u8 \<times> bytes) option \<Rightarrow> u8 option \<Rightarrow> bytes" where
  "command_tag A k_mac ssc header c le = take 8 (cmac_tag A k_mac
     (iso7816_4_pad (ssc @ iso7816_4_pad header @ object_octets c @ object_octets (le_object le))))"

definition sealed_command ::
  "aes_library \<Rightarrow> bytes \<Rightarrow> bytes \<Rightarrow> bytes \<Rightarrow> CommandHeader \<Rightarrow> bytes \<Rightarrow> u8 option \<Rightarrow> bytes" where
  "sealed_command A k_enc k_mac ssc h data le =
     (let c = sealed_body A k_enc ssc (hdr_instruction h) data in
      object_octets c @ object_octets (le_object le) @
      tlv_octets 0x8E (command_tag A k_mac ssc (header_to_bytes h) c le))"

lemma wrap_objects_eq:
  assumes "aes_ok A" "length data < 2 ^ 31"
  shows "wrap_objects A m h data le = Ok (sealed_command A (sm_k_enc m) (sm_k_mac m) (sm_ssc m) h data le)"
proof -
  define c where "c = sealed_body A (sm_k_enc m) (sm_ssc m) (hdr_instruction h) data"
  have c: "cryptogram_ok c" using sealed_body_ok assms by (simp add: c_def)
  have data: "wrap_data A m (hdr_instruction h) data = Ok (object_octets c)"
    using c by (auto simp: wrap_data_def c_def sealed_body_def Let_def aes256_cbc_encrypt_no_padding_def
        aes256_ecb_encrypt_block_def tlv_eq)
  show ?thesis
    by (cases le) (simp_all add: data wrap_objects_def sealed_command_def c_def [symmetric] Let_def
      aes256_cmac_truncated_def command_tag_def le_object_def tlv_eq)
qed

lemma decode_short_wire:
  assumes "length data < 256"
  shows "decode_short_apdu (short_wire h data le) = Some (data, le)"
  using assms
  by (cases le; cases data)
    (simp_all add: decode_short_apdu_def short_wire_def header_to_bytes_def slice_get_def unat_of_nat_u8
      nth_append del: of_nat_Suc)

lemma sm_wrap_eq:
  assumes "aes_ok A" "length data < 256"
  shows "sm_wrap A (short_wire h data le) m =
    (let m' = m\<lparr>sm_ssc := ssc_increment (sm_ssc m)\<rparr>; h' = h\<lparr>hdr_class := SecureMessaging\<rparr> in
     (m', Ok (h', sealed_command A (sm_k_enc m) (sm_k_mac m) (sm_ssc m') h' data le)))"
proof -
  have "\<not> length (short_wire h data le) < 4"
    "\<lparr>hdr_class = SecureMessaging, hdr_instruction = short_wire h data le ! 1,
      hdr_p1 = short_wire h data le ! 2, hdr_p2 = short_wire h data le ! 3\<rparr> = h\<lparr>hdr_class := SecureMessaging\<rparr>"
    by (simp_all add: short_wire_def header_to_bytes_def)
  moreover have "length data < 2 ^ 31" using assms by simp
  ultimately show ?thesis
    using assms
    by (simp add: wrap_objects_eq sm_wrap_def decode_short_wire then_do_def sm_step_def Let_def)
qed

lemma tagged_views:
  "length ns = length rs \<Longrightarrow>
   tagged (map2 (\<lambda>(t, v) n. Ok \<lparr>tlv_tag = ucast t, tlv_value = v, tlv_size = n\<rparr>) rs ns) =
     map_of (map (\<lambda>(t, v). (ucast t, v)) rs)"
  by (induction ns rs rule: list_induct2) (auto simp: tagged_def map_filter_simps)

lemma command_items:
  assumes "cryptogram_ok c" "length tag = 8"
  shows "tagged (ber_items (object_octets c @ object_octets (le_object le) @ tlv_octets 0x8E tag)) =
    [0x8E \<mapsto> tag] ++ (case le of Some l \<Rightarrow> [0x97 \<mapsto> [l]] | None \<Rightarrow> Map.empty) ++
    (case c of Some (t, v) \<Rightarrow> [ucast t \<mapsto> v] | None \<Rightarrow> Map.empty)"
proof -
  define rs where "rs = (case c of Some tv \<Rightarrow> [tv] | None \<Rightarrow> []) @
    (case le_object le of Some tv \<Rightarrow> [tv] | None \<Rightarrow> []) @ [(0x8E, tag)]"
  have ok: "\<forall>(t, v) \<in> set rs. ber_tag_ok (Tag1 t) \<and> length v < 2 ^ 32"
    using assms by (auto simp: rs_def le_object_def split: option.splits)
  have cat: "concat (map (\<lambda>(t, v). tlv_octets t v) rs) =
      object_octets c @ object_octets (le_object le) @ tlv_octets 0x8E tag"
    by (auto simp: rs_def le_object_def split: option.splits)
  obtain ns where n: "length ns = length rs" and items:
    "ber_items (object_octets c @ object_octets (le_object le) @ tlv_octets 0x8E tag) =
      map2 (\<lambda>(t, v) n. Ok \<lparr>tlv_tag = ucast t, tlv_value = v, tlv_size = n\<rparr>) rs ns"
    using items_of_objects [OF ok] unfolding cat by blast
  show ?thesis unfolding items tagged_views [OF n]
    by (auto simp: rs_def le_object_def split: option.splits)
qed

lemma length_sealed_command:
  assumes "aes_ok A"
  shows "length data \<le> 223 \<Longrightarrow> length (sealed_command A k_enc k_mac ssc h data le) \<le> 241"
    and "length data \<le> 24 \<Longrightarrow> length (sealed_command A k_enc k_mac ssc h data None) \<le> 58"
    and "10 \<le> length (sealed_command A k_enc k_mac ssc h data le)"
proof -
  define c where "c = sealed_body A k_enc ssc (hdr_instruction h) data"
  have tag: "length (tlv_octets 0x8E (command_tag A k ssc hd c le)) = 10" for k hd le
    using aes_okD(3) [OF assms] by (simp add: tlv_octets_short command_tag_def)
  have le: "length (object_octets (le_object le)) \<le> 3"
    by (cases le) (simp_all add: le_object_def tlv_octets_short)
  have cipher: "length (cbc_encrypt A k_enc iv (iso7816_4_pad data)) = 16 * (length data div 16 + 1)" for iv
    using aes_okD(1) [OF assms pad_blocks] by (simp add: length_pad)
  have "length (object_octets c) \<le> 228" if "length data \<le> 223"
  proof -
    have "length data div 16 \<le> 13" using that by simp
    then show ?thesis
      by (auto simp: c_def sealed_body_def Let_def cipher intro!: order_trans [OF length_tlv_octets])
  qed
  then show "length data \<le> 223 \<Longrightarrow> length (sealed_command A k_enc k_mac ssc h data le) \<le> 241"
    using le by (simp add: sealed_command_def Let_def c_def [symmetric] tag)
  have "length (object_octets c) \<le> 35" if "length data \<le> 24"
  proof -
    have "length data div 16 \<le> 1" using that by simp
    then show ?thesis by (auto simp: c_def sealed_body_def Let_def cipher tlv_octets_short)
  qed
  then show "length data \<le> 24 \<Longrightarrow> length (sealed_command A k_enc k_mac ssc h data None) \<le> 58"
    by (simp add: sealed_command_def Let_def c_def [symmetric] tag le_object_def)
  show "10 \<le> length (sealed_command A k_enc k_mac ssc h data le)"
    by (simp add: sealed_command_def Let_def c_def [symmetric] tag)
qed

lemma open_sealed:
  assumes aes: "aes_ok A" and plain: "hdr_class h = Plain"
    and b: "b = sealed_command A k_enc k_mac ssc (h\<lparr>hdr_class := SecureMessaging\<rparr>) data le"
    and len: "length data < 256" "length b < 256"
  shows "sm_card_open A k_enc k_mac ssc
    (header_to_bytes (h\<lparr>hdr_class := SecureMessaging\<rparr>) @ [of_nat (length b)] @ b @ [0]) =
    Some (short_wire h data le)"
proof -
  define h' where "h' = h\<lparr>hdr_class := SecureMessaging\<rparr>"
  define c where "c = sealed_body A k_enc ssc (hdr_instruction h) data"
  define tag where "tag = command_tag A k_mac ssc (header_to_bytes h') c le"
  have tag: "length tag = 8" using aes_okD(3) [OF aes] by (simp add: tag_def command_tag_def)
  have form: "b = (object_octets c @ object_octets (le_object le)) @ tlv_octets 0x8E tag"
    by (simp add: b sealed_command_def Let_def c_def tag_def h'_def)
  then have "b \<noteq> []" and auth: "take (length b - 10) b = object_octets c @ object_octets (le_object le)"
    by (simp_all add: tlv_octets_short tag)
  have c: "cryptogram_ok c" using sealed_body_ok [OF aes] len by (simp add: c_def)
  note items = command_items [OF c tag, of le, folded append_assoc, folded form]
  have decode: "decode_short (header_to_bytes h' @ [of_nat (length b)] @ b @ [0]) =
      Some \<lparr>sa_header = header_to_bytes h', sa_data = b, sa_le = Some 0\<rparr>"
    by (rule decode_case_4) (use \<open>b \<noteq> []\<close> len in auto)
  have mac: "take 8 (cmac_tag A k_mac (iso7816_4_pad (ssc @ iso7816_4_pad (header_to_bytes h') @
      object_octets c @ object_octets (le_object le)))) = tag"
    by (simp add: tag_def command_tag_def)
  have header: "class_as_byte (hdr_class h') = 0x0C" "0x00 # tl (header_to_bytes h') = header_to_bytes h"
    by (simp_all add: h'_def header_to_bytes_def plain)
  have body: "(case tagged (ber_items b) 0x87 of
        Some v \<Rightarrow> iso7816_4_unpad (cbc_decrypt A k_enc (aes_block A k_enc ssc) (tl v))
      | None \<Rightarrow> (case tagged (ber_items b) 0x85 of
            Some v \<Rightarrow> iso7816_4_unpad (cbc_decrypt A k_enc (aes_block A k_enc ssc) v) | None \<Rightarrow> [])) = data"
    using aes_okD(2) [OF aes pad_blocks] by (cases le) (auto simp: items c_def sealed_body_def Let_def)
  have le: "(case tagged (ber_items b) 0x97 of Some v \<Rightarrow> v | None \<Rightarrow> []) = (case le of Some l \<Rightarrow> [l] | None \<Rightarrow> [])"
    "tagged (ber_items b) 0x8E = Some tag"
    using c by (cases le; cases c rule: cryptogram_ok.cases; auto simp: items)+
  show ?thesis
    unfolding h'_def [symmetric] sm_card_open_def decode
    by (simp add: Let_def auth mac header body le short_wire_def append_Cons [symmetric] del: append_Cons)
qed

section \<open>One exchange\<close>

lemma status_octets:
  "u16_hi (sw_as_u16 (sw_from_bytes a b)) = a" "u16_lo (sw_as_u16 (sw_from_bytes a b)) = b"
  by (simp_all add: sw_from_bytes_def status_word_decode_lossless)

text \<open>A channel and its card after one exchange that left the plain card in \<open>s\<close>.\<close>

definition stepped :: "('s sm_card_state, 'o) SmTransport \<Rightarrow> 's \<Rightarrow> ('s sm_card_state, 'o) SmTransport" where
  "stepped m s =
     (let ssc = ssc_increment (ssc_increment (sm_ssc m)) in
      m\<lparr>sm_inner := \<lparr>sc_card = s, sc_ssc = ssc\<rparr>, sm_ssc := ssc\<rparr>)"

lemma in_step_stepped: "in_step k_enc k_mac m \<Longrightarrow> in_step k_enc k_mac (stepped m s)"
  by (simp add: in_step_def stepped_def Let_def)

lemma seal_nonempty: "sm_card_seal A k_enc k_mac ssc ins r \<noteq> []"
  by (simp add: sm_card_seal_def Let_def tlv_octets_short)

lemma exchange_sealed:
  assumes aes: "aes_ok A" and sync: "in_step k_enc k_mac m" and plain: "hdr_class h = Plain"
    and b: "b = sealed_command A k_enc k_mac (ssc_increment (sm_ssc m))
      (h\<lparr>hdr_class := SecureMessaging\<rparr>) data le"
    and len: "length data < 256" "length b < 256"
    and card: "pc (short_wire h data le) (sc_card (sm_inner m)) = (s, r)"
    and body: "length (rsp_body r) < 2 ^ 31"
  shows "then_do (on_inner (sm_card_answer A k_enc k_mac pc
      (header_to_bytes (h\<lparr>hdr_class := SecureMessaging\<rparr>) @ [of_nat (length b)] @ b @ [0]))) (sm_finish A)
      (m\<lparr>sm_ssc := ssc_increment (sm_ssc m)\<rparr>) = (stepped m s, Ok (Response r))"
proof -
  let ?ssc = "ssc_increment (ssc_increment (sm_ssc m))"
  define m2 where "m2 = stepped m s"
  have m2: "sm_k_enc m2 = k_enc" "sm_k_mac m2 = k_mac" "sm_ssc m2 = ?ssc"
    using sync by (simp_all add: m2_def stepped_def in_step_def Let_def)
  define w where "w = sm_card_seal A k_enc k_mac ?ssc (hdr_instruction h) r"
  have ins: "short_wire h data le ! 1 = hdr_instruction h" by (simp add: short_wire_def header_to_bytes_def)
  have open': "sm_card_open A k_enc k_mac (ssc_increment (sm_ssc m))
      (header_to_bytes (h\<lparr>hdr_class := SecureMessaging\<rparr>) @ [of_nat (length b)] @ b @ [0]) =
      Some (short_wire h data le)"
    by (rule open_sealed [OF aes plain b len])
  have ctr: "sc_ssc (sm_inner m) = sm_ssc m" using sync by (simp add: in_step_def)
  have answer: "on_inner (sm_card_answer A k_enc k_mac pc
      (header_to_bytes (h\<lparr>hdr_class := SecureMessaging\<rparr>) @ [of_nat (length b)] @ b @ [0]))
      (m\<lparr>sm_ssc := ssc_increment (sm_ssc m)\<rparr>) =
      (m2\<lparr>sm_ssc := ssc_increment (sm_ssc m)\<rparr>, Ok (Response (r\<lparr>rsp_body := w\<rparr>)))"
    unfolding on_inner_def sm_card_answer_def
    by (simp add: ctr open' [simplified] card ins w_def m2_def stepped_def Let_def del: One_nat_def)
  have unwrap: "unwrap_objects A m2 w = Ok (rsp_body r, sw_from_bytes (rsp_sw1 r) (rsp_sw2 r))"
    using unwrap_seal [OF aes body, of m2 "hdr_instruction h"] by (simp add: m2 w_def)
  have "sm_finish A (Response (r\<lparr>rsp_body := w\<rparr>)) (m2\<lparr>sm_ssc := ssc_increment (sm_ssc m)\<rparr>) =
      (m2, Ok (Response r))"
  proof -
    have "m2\<lparr>sm_ssc := ?ssc\<rparr> = m2" using m2(3) by simp
    moreover have "w \<noteq> []" using seal_nonempty by (simp add: w_def)
    ultimately show ?thesis
      by (simp add: sm_unwrap_def sm_step_def then_do_def unwrap status_octets done_with_def)
  qed
  then show ?thesis unfolding then_do_def answer by (simp add: m2_def)
qed

lemma transmit_single_sealed:
  assumes aes: "aes_ok A" and sync: "in_step k_enc k_mac m" and plain: "hdr_class h = Plain"
    and len: "length data \<le> 223"
    and card: "pc (short_wire h data le) (sc_card (sm_inner m)) = (s, r)"
    and body: "length (rsp_body r) < 2 ^ 31"
  shows "transmit_single A (sm_card A k_enc k_mac pc) (short_wire h data le) m = (stepped m s, Ok (Response r))"
proof -
  define h' where "h' = h\<lparr>hdr_class := SecureMessaging\<rparr>"
  define b where "b = sealed_command A k_enc k_mac (ssc_increment (sm_ssc m)) h' data le"
  have b: "length b < 256" "b \<noteq> []"
    using length_sealed_command(1) [OF aes len, of k_enc k_mac "ssc_increment (sm_ssc m)" h' le]
      length_sealed_command(3) [OF aes, of k_enc k_mac "ssc_increment (sm_ssc m)" h' data le]
    by (auto simp: b_def)
  have wrap: "sm_wrap A (short_wire h data le) m =
      (m\<lparr>sm_ssc := ssc_increment (sm_ssc m)\<rparr>, Ok (h', b))"
    using sm_wrap_eq [OF aes, of data h le m] len sync by (simp add: Let_def b_def h'_def in_step_def)
  have "length data < 256" using len by simp
  note exchange = exchange_sealed [where pc = pc, OF aes sync plain b_def [unfolded h'_def] this b(1) card body, folded h'_def]
  have "case_4 h' b 0 = Ok (from_wire (header_to_bytes h' @ [of_nat (length b)] @ b @ [0]))"
    using b by (simp add: case_4_eq)
  then show ?thesis
    unfolding transmit_single_def then_do_def wrap
    using exchange by (simp add: done_with_def sm_card_def from_wire_def then_do_def)
qed

lemma transmit_credential_sealed:
  assumes aes: "aes_ok A" and sync: "in_step k_enc k_mac m" and plain: "hdr_class h = Plain"
    and len: "length data \<le> 24" and wire: "credential_wire c = short_wire h data None"
    and card: "pc (short_wire h data None) (sc_card (sm_inner m)) = (s, r)"
    and body: "length (rsp_body r) < 2 ^ 31"
  shows "transmit_credential (sm_transport A (sm_card A k_enc k_mac pc)) c m = (stepped m s, Ok (Response r))"
proof -
  define h' where "h' = h\<lparr>hdr_class := SecureMessaging\<rparr>"
  define b where "b = sealed_command A k_enc k_mac (ssc_increment (sm_ssc m)) h' data None"
  have b: "length b \<le> 58" "b \<noteq> []"
    using length_sealed_command(2) [OF aes len, of k_enc k_mac "ssc_increment (sm_ssc m)" h']
      length_sealed_command(3) [OF aes, of k_enc k_mac "ssc_increment (sm_ssc m)" h' data None]
    by (auto simp: b_def)
  have wrap: "expose_wire c (sm_wrap A) m = (m\<lparr>sm_ssc := ssc_increment (sm_ssc m)\<rparr>, Ok (h', b))"
    using sm_wrap_eq [OF aes, of data h None m] len sync wire
    by (simp add: Let_def b_def h'_def in_step_def expose_wire_def)
  have "length data < 256" "length b < 256" using len b by simp_all
  note exchange = exchange_sealed [where pc = pc, OF aes sync plain b_def [unfolded h'_def] this card body, folded h'_def]
  obtain cc where "from_protected_parts h' b 0 = Ok cc"
    "credential_wire cc = header_to_bytes h' @ [of_nat (length b)] @ b @ [0]"
    using protected_wire [OF b(2,1), of h' 0] by blast
  then show ?thesis
    using exchange by (simp add: sm_transport_def then_do_def wrap done_with_def sm_card_def)
qed

section \<open>Properties\<close>

text \<open>A dialogue: plain commands and credential commands, in the order they are sent.\<close>

datatype exchange = Exchange CommandApdu | ExchangeCredential CredentialCommand

fun exchange_wire :: "exchange \<Rightarrow> bytes" where
  "exchange_wire (Exchange c) = cmd_bytes c"
| "exchange_wire (ExchangeCredential c) = credential_wire c"

fun dialogue ::
  "('s, 'e) CardTransport \<Rightarrow> exchange list \<Rightarrow> 's \<Rightarrow> 's \<times> (TransportOutcome, 'e) result list" where
  "dialogue tp [] s = (s, [])"
| "dialogue tp (Exchange c # es) s =
     (case transmit tp c s of (s', r) \<Rightarrow> map_prod id ((#) r) (dialogue tp es s'))"
| "dialogue tp (ExchangeCredential c # es) s =
     (case transmit_credential tp c s of (s', r) \<Rightarrow> map_prod id ((#) r) (dialogue tp es s'))"

fun plain_run :: "'s plain_card \<Rightarrow> bytes list \<Rightarrow> 's \<Rightarrow> 's \<times> ResponseApdu list" where
  "plain_run pc [] s = (s, [])"
| "plain_run pc (w # ws) s = (case pc w s of (s', r) \<Rightarrow> map_prod id ((#) r) (plain_run pc ws s'))"

definition long_read :: "bytes \<Rightarrow> bool" where
  "long_read w \<longleftrightarrow> length w = 5 \<and> w ! 1 = 0xB0 \<and> (w ! 4 = 0 \<or> 223 < unat (w ! 4))"

text \<open>
  The commands one protected exchange carries: plain class, up to 223 data octets (24 for a
  credential), and for a READ BINARY a length of at most 223.
\<close>

fun carried :: "exchange \<Rightarrow> bool" where
  "carried (Exchange c) \<longleftrightarrow> \<not> long_read (cmd_bytes c) \<and>
     (\<exists>h data le. hdr_class h = Plain \<and> length data \<le> 223 \<and> cmd_bytes c = short_wire h data le)"
| "carried (ExchangeCredential c) \<longleftrightarrow>
     (\<exists>h data. hdr_class h = Plain \<and> length data \<le> 24 \<and> credential_wire c = short_wire h data None)"

lemma split_none: "\<not> long_read w \<Longrightarrow> split_protected_read w = Ok None"
  by (auto simp: split_protected_read_def long_read_def Let_def)

lemma dialogue_step:
  assumes "aes_ok A" "in_step k_enc k_mac m" "carried e"
    and "pc (exchange_wire e) (sc_card (sm_inner m)) = (s, r)" "length (rsp_body r) < 2 ^ 31"
  shows "dialogue (sm_transport A (sm_card A k_enc k_mac pc)) (e # es) m =
    map_prod id ((#) (Ok (Response r))) (dialogue (sm_transport A (sm_card A k_enc k_mac pc)) es (stepped m s))"
proof (cases e)
  case (Exchange c)
  with assms(3) obtain h data le where c: "\<not> long_read (cmd_bytes c)" "hdr_class h = Plain"
    "length data \<le> 223" "cmd_bytes c = short_wire h data le" by auto
  have sent: "transmit (sm_transport A (sm_card A k_enc k_mac pc)) c m = (stepped m s, Ok (Response r))"
    using transmit_single_sealed [OF assms(1,2) c(2,3), of pc le s r] assms(4,5) c
    by (simp add: sm_transport_def Exchange split_none)
  show ?thesis by (simp add: Exchange sent)
next
  case (ExchangeCredential c)
  with assms(3) obtain h data where c: "hdr_class h = Plain" "length data \<le> 24"
    "credential_wire c = short_wire h data None" by auto
  have sent: "transmit_credential (sm_transport A (sm_card A k_enc k_mac pc)) c m = (stepped m s, Ok (Response r))"
    using transmit_credential_sealed [OF assms(1,2) c, of pc s r] assms(4,5) c
    by (simp add: ExchangeCredential)
  show ?thesis by (simp add: ExchangeCredential sent)
qed

text \<open>A cipher library, a card and a channel for the concrete instances below.\<close>

definition xor_library :: aes_library where
  "xor_library = \<lparr>aes_block = (\<lambda>k b. b), cbc_encrypt = (\<lambda>k iv. map (\<lambda>b. b XOR 0x5A)),
     cbc_decrypt = (\<lambda>k iv. map (\<lambda>b. b XOR 0x5A)), cmac_tag = (\<lambda>k m. take 16 (rev m @ replicate 16 0))\<rparr>"

definition tallying_card :: "nat plain_card" where
  "tallying_card w n = (n + 1, \<lparr>rsp_body = [of_nat n], rsp_sw1 = 0x90, rsp_sw2 = hd w\<rparr>)"

definition fresh_channel :: "'s \<Rightarrow> ('s sm_card_state, unit) SmTransport" where
  "fresh_channel s = \<lparr>sm_inner = \<lparr>sc_card = s, sc_ssc = SSC_INITIAL\<rparr>, sm_k_enc = [1], sm_k_mac = [2],
     sm_ssc = SSC_INITIAL, sm_opened_by = ()\<rparr>"

lemma xor_library_ok: "aes_ok xor_library"
  by (simp add: aes_ok_def xor_library_def o_def xor.assoc min_def)

lemma fresh_in_step: "in_step [1] [2] (fresh_channel s)"
  by (simp add: in_step_def fresh_channel_def)

lemma case_2_carried: "ins \<noteq> 0xB0 \<Longrightarrow> carried (Exchange (case_2
    \<lparr>hdr_class = Plain, hdr_instruction = ins, hdr_p1 = p1, hdr_p2 = p2\<rparr> le))"
  by (auto simp: case_2_def from_wire_def short_wire_def long_read_def header_to_bytes_def
      intro!: exI [of _ "\<lparr>hdr_class = Plain, hdr_instruction = ins, hdr_p1 = p1, hdr_p2 = p2\<rparr>"]
        exI [of _ "[]"] exI [of _ "Some le"])



lemma then_do_OkE:
  assumes "then_do f g s = (s', Ok y)"
  obtains x s1 where "f s = (s1, Ok x)" "g x s1 = (s', Ok y)"
  using assms by (auto simp: then_do_def split: prod.splits result.splits)

lemma unwrap_accepted:
  assumes "unwrap_objects A m w = (Ok (body, sw) :: (_, 'e SmError) result)"
  obtains c s1 s2 where "sw = sw_from_bytes s1 s2"
    "response_objects (ber_items w) None None None =
      (Ok (c, Some [s1, s2], Some (take 8 (cmac_tag A (sm_k_mac m) (iso7816_4_pad
        (sm_ssc m @ object_octets c @ tlv_octets 0x99 [s1, s2]))))) :: (_, 'e SmError) result)"
    "decrypt_body A m c = (Ok body :: (_, 'e SmError) result)"
proof -
  from assms obtain c status tag mac_input where
    objects: "response_objects (ber_items w) None None None =
      (Ok (c, Some status, Some tag) :: (_, 'e SmError) result)"
    and len: "length status = 2"
    and mac: "response_mac_input (sm_ssc m) c status = (Ok mac_input :: (_, 'e SmError) result)"
    and tag: "aes256_cmac_truncated A (sm_k_mac m) mac_input = tag"
    and body: "decrypt_body A m c = (Ok body :: (_, 'e SmError) result)"
    and sw: "sw = sw_from_bytes (status ! 0) (status ! 1)"
    by (auto simp: unwrap_objects_def result_simps split: if_splits)
  obtain s1 s2 where status: "status = [s1, s2]"
    using len by (auto simp: length_Suc_conv numeral_2_eq_2)
  have "mac_input = iso7816_4_pad (sm_ssc m @ object_octets c @ tlv_octets 0x99 [s1, s2])"
    using mac by (cases c rule: object_octets.cases)
      (auto simp: status response_mac_input_def result_simps tlv_octets_def)
  with that [of s1 s2 c] objects tag body status sw show ?thesis by (auto simp: aes256_cmac_truncated_def)
qed

lemma finish_Response:
  assumes "sm_finish A out m = (m', Ok (Response r) :: (_, 'e SmError) result)"
  obtains raw sw where "out = Response raw" "m' = m\<lparr>sm_ssc := ssc_increment (sm_ssc m)\<rparr>"
    "unwrap_objects A m' (rsp_body raw) = (Ok (rsp_body r, sw) :: (_, 'e SmError) result)"
    "rsp_sw1 r = u16_hi (sw_as_u16 sw)" "rsp_sw2 r = u16_lo (sw_as_u16 sw)"
  using assms
  by (cases out) (auto simp: done_with_def sm_unwrap_def sm_step_def elim!: then_do_OkE split: if_splits)



text \<open>
  A card with a transparent file: READ BINARY with a fifteen-bit offset answers the octets of a span
  that lies in the file, an expected length of zero standing for 256.
\<close>

definition span :: "u8 \<Rightarrow> nat" where
  "span le = (if le = 0 then 256 else unat le)"

definition serves_file :: "'s plain_card \<Rightarrow> bytes \<Rightarrow> 's \<Rightarrow> bool" where
  "serves_file pc file s \<longleftrightarrow>
     (\<forall>p1 p2 le. unat p1 < 128 \<and> unat (u16_of_be p1 p2) + span le \<le> length file \<longrightarrow>
        pc [0x00, 0xB0, p1, p2, le] s =
          (s, \<lparr>rsp_body = take (span le) (drop (unat (u16_of_be p1 p2)) file), rsp_sw1 = 0x90, rsp_sw2 = 0x00\<rparr>))"

lemma span_le: "span le \<le> 256" "0 < span le"
  by (simp_all add: span_def unat_gt_0 less_imp_le [OF unat_u8_less])

lemma read_single:
  assumes aes: "aes_ok A" and sync: "in_step k_enc k_mac m" and served: "serves_file pc file (sc_card (sm_inner m))"
    and addr: "unat p1 < 128" "unat (u16_of_be p1 p2) + span le \<le> length file"
  shows "transmit_single A (sm_card A k_enc k_mac pc) [0x00, 0xB0, p1, p2, le] m =
    (stepped m (sc_card (sm_inner m)), Ok (Response
      \<lparr>rsp_body = take (span le) (drop (unat (u16_of_be p1 p2)) file), rsp_sw1 = 0x90, rsp_sw2 = 0x00\<rparr>))"
proof -
  let ?h = "\<lparr>hdr_class = Plain, hdr_instruction = 0xB0, hdr_p1 = p1, hdr_p2 = p2\<rparr>"
  have wire: "short_wire ?h [] (Some le) = [0x00, 0xB0, p1, p2, le]"
    by (simp add: short_wire_def header_to_bytes_def)
  show ?thesis
    using transmit_single_sealed [OF aes sync, of ?h "[]" pc "Some le"] served addr span_le(1) [of le]
    unfolding wire by (auto simp: serves_file_def)
qed

lemma split_direct:
  fixes p1 p2 le :: u8
  assumes "unat p1 < 128" "223 < span le" "unat (u16_of_be p1 p2) + 223 \<le> 0x7FFF"
  defines "off \<equiv> of_nat (unat (u16_of_be p1 p2) + 223) :: u16"
  shows "split_protected_read [cls, 0xB0, p1, p2, le] =
    Ok (Some ([cls, 0xB0, p1, p2, 0xDF], [cls, 0xB0, u16_hi off, u16_lo off, of_nat (span le - 223)]))"
proof -
  have direct: "p1 AND 0x80 = 0" using assms(1) by (intro sign_bit_clear) (simp add: word_less_nat_alt)
  show ?thesis
    using assms span_le [of le]
    by (simp add: split_protected_read_def direct Let_def span_def u8_try_from_def)
qed

lemma span_of_nat: "0 < n \<Longrightarrow> n < 256 \<Longrightarrow> span (of_nat n) = n"
  using of_nat_u8_nonzero [of n] by (simp add: span_def unat_of_nat_u8)

lemma unat_u16_hi: "unat (u16_hi w) = unat w div 256"
proof -
  have "unat w div 256 < 256" using unat_u16_less [of w] by (intro less_mult_imp_div_less) simp
  then show ?thesis by (simp add: u16_hi_def unsigned_ucast_eq unsigned_drop_bit_eq drop_bit_eq_div take_bit_eq_mod unat_div)
qed

lemma serves_stepped: "serves_file pc file s \<Longrightarrow> serves_file pc file (sc_card (sm_inner (stepped m s)))"
  by (simp add: stepped_def Let_def)

lemma read_fragments:
  assumes aes: "aes_ok A" and sync: "in_step k_enc k_mac m" and served: "serves_file pc file s"
    and s: "s = sc_card (sm_inner m)"
    and addr: "unat p1 < 128" "unat (u16_of_be p1 p2) + span le \<le> length file"
    and long: "span le = 223 + n" "0 < n" "unat (u16_of_be p1 p2) + 223 \<le> 0x7FFF"
  defines "off \<equiv> of_nat (unat (u16_of_be p1 p2) + 223) :: u16"
  shows "transmit_fragmented_read A (sm_card A k_enc k_mac pc) [0x00, 0xB0, p1, p2, 0xDF]
      [0x00, 0xB0, u16_hi off, u16_lo off, of_nat n] m =
    (stepped (stepped m s) s, Ok (Response
      \<lparr>rsp_body = take (span le) (drop (unat (u16_of_be p1 p2)) file), rsp_sw1 = 0x90, rsp_sw2 = 0x00\<rparr>))"
proof -
  let ?o = "unat (u16_of_be p1 p2)"
  have n: "0 < n" "n < 256" using span_le [of le] long by simp_all
  have spans: "span 0xDF = 223" "span (of_nat n) = n"
    using span_of_nat [of 223] span_of_nat [OF n] by simp_all
  have off: "unat (u16_of_be (u16_hi off) (u16_lo off)) = ?o + 223" "unat (u16_hi off) < 128"
    using long(3) by (simp_all add: off_def unat_u16_hi unat_of_nat_u16 del: of_nat_add)
  have first: "transmit_single A (sm_card A k_enc k_mac pc) [0x00, 0xB0, p1, p2, 0xDF] m =
      (stepped m s, Ok (Response \<lparr>rsp_body = take 223 (drop ?o file), rsp_sw1 = 0x90, rsp_sw2 = 0x00\<rparr>))"
    using read_single [OF aes sync, of pc "file" p1 p2 "0xDF"] served s addr long by (simp add: spans)
  have second: "transmit_single A (sm_card A k_enc k_mac pc) [0x00, 0xB0, u16_hi off, u16_lo off, of_nat n]
      (stepped m s) = (stepped (stepped m s) s,
        Ok (Response \<lparr>rsp_body = take n (drop (?o + 223) file), rsp_sw1 = 0x90, rsp_sw2 = 0x00\<rparr>))"
    using read_single [OF aes in_step_stepped [OF sync] serves_stepped [OF served], of "u16_hi off" "u16_lo off" "of_nat n"]
      addr long off by (simp add: spans stepped_def Let_def)
  have "sw_is_success (sw_from_u16 (u16_of_be 0x90 0x00))" by code_simp
  moreover have "length (take 223 (drop ?o file)) = 223" using addr long by simp
  moreover have "take 223 (drop ?o file) @ take n (drop (?o + 223) file) = take (span le) (drop ?o file)"
    using take_add [of 223 n "drop ?o file"] by (simp add: long(1) add.commute)
  ultimately show ?thesis
    by (simp add: transmit_fragmented_read_def then_do_def first second response_is_ok_def status_word_def
        sw_from_bytes_def done_with_def)
qed


definition file_reader :: "bytes \<Rightarrow> unit plain_card" where
  "file_reader contents w s = (s,
     if length w = 5 \<and> w ! 1 = 0xB0 \<and> unat (w ! 2) < 128
     then \<lparr>rsp_body = take (span (w ! 4)) (drop (unat (u16_of_be (w ! 2) (w ! 3))) contents),
           rsp_sw1 = 0x90, rsp_sw2 = 0x00\<rparr>
     else \<lparr>rsp_body = [], rsp_sw1 = 0x6D, rsp_sw2 = 0x00\<rparr>)"

lemma file_reader_serves: "serves_file (file_reader contents) contents s"
  by (simp add: serves_file_def file_reader_def)


text \<open>
  A command the wrapped form has no room for is refused before anything is sent, yet the counter has
  already moved: the next command of the channel is one step ahead of the card.
\<close>
theorem refused_command_moves_counter:
  assumes "aes_ok A" "240 \<le> length data" "length data < 256"
  shows "transmit_single A tp (short_wire h data le) m =
    (m\<lparr>sm_ssc := ssc_increment (sm_ssc m)\<rparr>, Err CommandTooLong)"
proof -
  define h' where "h' = h\<lparr>hdr_class := SecureMessaging\<rparr>"
  define b where "b = sealed_command A (sm_k_enc m) (sm_k_mac m) (ssc_increment (sm_ssc m)) h' data le"
  define v where "v = cbc_encrypt A (sm_k_enc m) (aes_block A (sm_k_enc m) (ssc_increment (sm_ssc m))) (iso7816_4_pad data)"
  have "length v = 256"
    using assms aes_okD(1) [OF assms(1) pad_blocks] div_nat_eqI [of 16 15 "length data"]
    by (simp add: v_def length_pad)
  moreover from this have "length v \<le> length (object_octets
      (sealed_body A (sm_k_enc m) (ssc_increment (sm_ssc m)) (hdr_instruction h') data))"
    using assms(2) length_tlv_octets_ge [of "0x85" v] length_tlv_octets_ge [of "0x87" "0x01 # v"]
    by (auto simp: sealed_body_def v_def [symmetric] Let_def)
  ultimately have "255 < length b" by (simp add: b_def sealed_command_def Let_def)
  then have long: "map_err (\<lambda>_. CommandTooLong) (case_4 h' b 0) = Err CommandTooLong"
    by (auto simp: case_4_def short_form_lc_def SHORT_APDU_DATA_MAX_def)
  have wrap: "sm_wrap A (short_wire h data le) m = (m\<lparr>sm_ssc := ssc_increment (sm_ssc m)\<rparr>, Ok (h', b))"
    using sm_wrap_eq [OF assms(1,3)] by (simp add: Let_def b_def h'_def)
  show ?thesis by (simp add: transmit_single_def then_do_def done_with_def wrap long)
qed

text \<open>
  Splitting a read by short file identifier. The identifier fills the low five bits of P1 and the
  offset is P2 alone; the split carries the offset into P1, so a span that crosses 255 continues in
  the file with the next identifier.
\<close>
theorem sfi_read_continues_elsewhere:
  "split_protected_read (cmd_bytes (read_binary_into_apdu
      \<lparr>rb_class = Plain, rb_offset = BySfi (Sfi 29) 0x40, rb_le = 0\<rparr>)) =
     Ok (Some ([0x00, 0xB0, offset_as_p1 (BySfi (Sfi 29) 0x40), 0x40, 0xDF],
               [0x00, 0xB0, offset_as_p1 (BySfi (Sfi 30) 0x1F), 0x1F, 33]))"
proof -
  have p1: "sfi_as_p1_short_form (Sfi 29) = 0x9D" "sfi_as_p1_short_form (Sfi 30) = 0x9E"
    by code_simp+
  have parts: "u16_of_be 5 0x40 = 0x540" "u16_hi (0x61F :: u16) = 6" "u16_lo (0x61F :: u16) = 0x1F"
    by (simp_all add: u16_of_be_def u16_hi_def u16_lo_def)
  show ?thesis
    by (simp add: read_binary_into_apdu_def allow_wrong_le_retry_def from_wire_def p1
        split_protected_read_def Let_def parts)
qed

end
