(* ===== verification/Pace_Access.thy ===== *)
theory Pace_Access
  imports Pkcs15_Fs Card_Credentials
begin

text \<open>
  What precedes a PACE handshake: the Card Access Number of \<open>crates/pace/src/can.rs\<close>, the suites a
  card publishes in EF.CardAccess, read and parsed by \<open>card_access.rs\<close>, and the two commands of
  \<open>commands.rs\<close>. The theory shows that the parser lists exactly the suites of a well-formed file
  and that the suite run is the most preferred one listed.
\<close>

section \<open>The Card Access Number\<close>

abbreviation (input) CAN_DIGITS :: nat where "CAN_DIGITS \<equiv> 6"

datatype Can = Can (password_bytes: bytes)

datatype CanError = CanEmpty | CanWrongLength | CanNonDigit

definition can_reconstruct :: "bytes \<Rightarrow> (Can, CanError) result" where
  "can_reconstruct text =
     (if text = [] then Err CanEmpty
      else if length text \<noteq> CAN_DIGITS then Err CanWrongLength
      else if list_ex (\<lambda>b. \<not> is_ascii_digit b) text then Err CanNonDigit
      else Ok (Can text))"

section \<open>EF.CardAccess\<close>

abbreviation (input) EF_CARD_ACCESS_FID :: u16 where "EF_CARD_ACCESS_FID \<equiv> 0x011C"
abbreviation (input) PACE_ECDH_GM_AES_256_OID :: bytes where
  "PACE_ECDH_GM_AES_256_OID \<equiv> [0x04, 0x00, 0x7F, 0x00, 0x07, 0x02, 0x02, 0x04, 0x02, 0x04]"
abbreviation (input) PACE_ECDH_IM_AES_256_OID :: bytes where
  "PACE_ECDH_IM_AES_256_OID \<equiv> [0x04, 0x00, 0x7F, 0x00, 0x07, 0x02, 0x02, 0x04, 0x04, 0x04]"
abbreviation (input) PACE_INFO_VERSION :: u8 where "PACE_INFO_VERSION \<equiv> 2"
abbreviation (input) INTEGER_SIGN_BIT :: u8 where "INTEGER_SIGN_BIT \<equiv> 0x80"
abbreviation (input) SET_TAG :: u16 where "SET_TAG \<equiv> 0x31"
abbreviation (input) OID_TAG :: u16 where "OID_TAG \<equiv> 0x06"

datatype PaceMapping = Generic | Integrated

datatype PaceDomain = NistP256 | NistP384 | BrainpoolP384r1

definition domain_preference :: "PaceDomain list" where
  "domain_preference = [NistP384, BrainpoolP384r1, NistP256]"

fun parameter_id :: "PaceDomain \<Rightarrow> u8" where
  "parameter_id NistP256 = 12"
| "parameter_id NistP384 = 15"
| "parameter_id BrainpoolP384r1 = 16"

definition from_parameter_id :: "u8 \<Rightarrow> PaceDomain option" where
  "from_parameter_id i =
     (if i = 12 then Some NistP256 else if i = 15 then Some NistP384
      else if i = 16 then Some BrainpoolP384r1 else None)"

record PaceInfo =
  pi_mapping :: PaceMapping
  pi_domain :: PaceDomain

definition protocol_oid :: "PaceInfo \<Rightarrow> bytes" where
  "protocol_oid suite =
     (case pi_mapping suite of
        Generic \<Rightarrow> PACE_ECDH_GM_AES_256_OID
      | Integrated \<Rightarrow> PACE_ECDH_IM_AES_256_OID)"

datatype CardAccessError = NotSecurityInfos | MalformedSecurityInfo | MalformedPaceInfo

definition small_unsigned :: "BerTlvAny \<Rightarrow> (u8 option, CardAccessError) result" where
  "small_unsigned field =
     and_then (map_err (\<lambda>_. MalformedPaceInfo) (ber_expect INTEGER_TAG field)) (\<lambda>(value, _).
     case value of
       [] \<Rightarrow> Err MalformedPaceInfo
     | [only] \<Rightarrow> if only AND INTEGER_SIGN_BIT = 0 then Ok (Some only) else Ok None
     | first # second # rest \<Rightarrow>
         if first = 0x00 \<and> second AND INTEGER_SIGN_BIT = 0 then Err MalformedPaceInfo
         else if first = 0xFF \<and> second AND INTEGER_SIGN_BIT \<noteq> 0 then Err MalformedPaceInfo
         else if first = 0x00 \<and> rest = [] then Ok (Some second)
         else Ok None)"

definition pace_field :: "(BerTlvAny, BerError) result \<Rightarrow> (u8 option, CardAccessError) result" where
  "pace_field field = and_then (map_err (\<lambda>_. MalformedPaceInfo) field) small_unsigned"

definition from_security_info ::
  "bytes \<Rightarrow> (BerTlvAny, BerError) result list \<Rightarrow> (PaceInfo option, CardAccessError) result" where
  "from_security_info protocol flds =
     (case (if protocol = PACE_ECDH_GM_AES_256_OID then Some Generic
            else if protocol = PACE_ECDH_IM_AES_256_OID then Some Integrated else None) of
        None \<Rightarrow> Ok None
      | Some mapping \<Rightarrow>
          and_then (case flds of f # fs \<Rightarrow> pace_field f | [] \<Rightarrow> Err MalformedPaceInfo) (\<lambda>version.
          and_then (case tl flds of f # fs \<Rightarrow> and_then (pace_field f) (\<lambda>p. Ok (Some p)) | [] \<Rightarrow> Ok None) (\<lambda>parameter.
          if drop 2 flds \<noteq> [] then Err MalformedPaceInfo
          else if version \<noteq> Some PACE_INFO_VERSION then Ok None
          else
            case parameter of
              Some (Some i) \<Rightarrow>
                Ok (map_option (\<lambda>d. \<lparr>pi_mapping = mapping, pi_domain = d\<rparr>) (from_parameter_id i))
            | _ \<Rightarrow> Ok None)))"

definition security_info :: "(BerTlvAny, BerError) result \<Rightarrow> (PaceInfo option, CardAccessError) result" where
  "security_info element =
     and_then (map_err (\<lambda>_. MalformedSecurityInfo) (and_then element (ber_expect SEQUENCE_TAG))) (\<lambda>(info, _).
     let flds = ber_items info in
     and_then (case flds of
         [] \<Rightarrow> Err MalformedSecurityInfo
       | f # fs \<Rightarrow> map_err (\<lambda>_. MalformedSecurityInfo) (and_then f (ber_expect OID_TAG))) (\<lambda>(protocol, _).
     from_security_info protocol (tl flds)))"

fun security_infos ::
  "(BerTlvAny, BerError) result list \<Rightarrow> (PaceInfo list, CardAccessError) result" where
  "security_infos [] = Ok []"
| "security_infos (e # es) =
     and_then (security_info e) (\<lambda>suite. and_then (security_infos es) (\<lambda>pace.
       Ok (case suite of Some i \<Rightarrow> i # pace | None \<Rightarrow> pace)))"

definition card_access_parse :: "bytes \<Rightarrow> (PaceInfo list, CardAccessError) result" where
  "card_access_parse input =
     and_then (map_err (\<lambda>_. NotSecurityInfos) (ber_parse_typed SET_TAG input)) (\<lambda>(set_value, set_size).
     if set_size \<noteq> length input then Err NotSecurityInfos
     else security_infos (ber_items set_value))"

fun find_map :: "('a \<Rightarrow> 'b option) \<Rightarrow> 'a list \<Rightarrow> 'b option" where
  "find_map f [] = None"
| "find_map f (x # xs) = (case f x of Some y \<Rightarrow> Some y | None \<Rightarrow> find_map f xs)"

definition generic_mapping_suite :: "PaceInfo list \<Rightarrow> PaceInfo option" where
  "generic_mapping_suite pace =
     find_map (\<lambda>d. find (\<lambda>i. pi_mapping i = Generic \<and> pi_domain i = d) pace) domain_preference"

datatype ('e, 'f) PaceError =
    PaceTransport 'e
  | PaceOutcome TransportOutcome
  | CardAccessRead "'e Pkcs15Error"
  | CardAccess CardAccessError
  | NoSupportedSuite
  | PaceRetryFloor RetryFloorRefusal
  | PasswordDeactivated
  | PaceWrongPin PinRetries
  | PaceWrongPuk PinRetries
  | PaceBer BerError
  | PaceEncoding
  | PaceStatus string StatusWord
  | UnexpectedResponse string
  | InvalidPoint
  | ReflectedKey
  | AuthMismatch
  | PaceRandom 'f

type_synonym ('s, 'a, 'e, 'f) pace_op = "('s, 'a, ('e, 'f) PaceError) transport_op"

definition read_card_access :: "('s, 'e) CardTransport \<Rightarrow> ('s, PaceInfo list, 'e, 'f) pace_op" where
  "read_card_access tp s =
     (case select_ef tp (file_id_from_u16 EF_CARD_ACCESS_FID) s of
        (s, Err e) \<Rightarrow> (s, Err (CardAccessRead e))
      | (s, Ok _) \<Rightarrow>
          (case read_binary_der_object tp ''EF.CardAccess'' s of
             (s, Err e) \<Rightarrow> (s, Err (CardAccessRead e))
           | (s, Ok bytes) \<Rightarrow> (s, map_err CardAccess (card_access_parse bytes))))"

section \<open>Commands\<close>

definition mse_set_at_into_apdu :: "bytes \<Rightarrow> (CommandApdu, CommandDataError) result" where
  "mse_set_at_into_apdu data =
     case_3 \<lparr>hdr_class = Plain, hdr_instruction = 0x22, hdr_p1 = 0xC1, hdr_p2 = 0xA4\<rparr> data"

definition general_authenticate_into_apdu :: "bool \<Rightarrow> bytes \<Rightarrow> (CommandApdu, CommandDataError) result" where
  "general_authenticate_into_apdu chain payload =
     case_4 \<lparr>hdr_class = (if chain then ChainedFirst else Plain), hdr_instruction = 0x86, hdr_p1 = 0x00,
       hdr_p2 = 0x00\<rparr> payload 0x00"

section \<open>Specification: files as a card writes them\<close>

text \<open>
  An entry of the set: a PACE entry of one of the two mechanisms with its version and optional
  parameter identifier, or an entry of any other protocol, whatever its fields are.
\<close>

datatype security_entry =
    PaceEntry PaceMapping u8 "u8 option"
  | OtherProtocol bytes "(ber_tag_octets \<times> bytes) list"

fun entry_protocol :: "security_entry \<Rightarrow> bytes" where
  "entry_protocol (PaceEntry mapping _ _) = protocol_oid \<lparr>pi_mapping = mapping, pi_domain = NistP256\<rparr>"
| "entry_protocol (OtherProtocol oid _) = oid"

fun entry_fields :: "security_entry \<Rightarrow> (ber_tag_octets \<times> bytes) list" where
  "entry_fields (PaceEntry _ version parameter) =
     (Tag1 0x02, der_octet version) # (case parameter of None \<Rightarrow> [] | Some i \<Rightarrow> [(Tag1 0x02, der_octet i)])"
| "entry_fields (OtherProtocol _ fs) = fs"

fun entry_wellformed :: "security_entry \<Rightarrow> bool" where
  "entry_wellformed (PaceEntry _ _ _) \<longleftrightarrow> True"
| "entry_wellformed (OtherProtocol oid _) \<longleftrightarrow>
     oid \<noteq> PACE_ECDH_GM_AES_256_OID \<and> oid \<noteq> PACE_ECDH_IM_AES_256_OID"

fun entry_suite :: "security_entry \<Rightarrow> PaceInfo option" where
  "entry_suite (PaceEntry mapping version (Some i)) =
     (if version = 2 then map_option (\<lambda>d. \<lparr>pi_mapping = mapping, pi_domain = d\<rparr>) (from_parameter_id i) else None)"
| "entry_suite _ = None"

definition security_entry_encode :: "security_entry \<Rightarrow> (bytes, BerEncodeError) result" where
  "security_entry_encode e =
     and_then (encode_all ((Tag1 0x06, entry_protocol e) # entry_fields e)) (\<lambda>content.
       ber_encode (Tag1 0x30, content))"

definition card_access_encode :: "security_entry list \<Rightarrow> (bytes, BerEncodeError) result" where
  "card_access_encode es =
     and_then (collect_results (map security_entry_encode es)) (\<lambda>ws. ber_encode (Tag1 0x31, concat ws))"

section \<open>Parsing\<close>

lemma sign_bit_set:
  assumes "(0x80 :: u8) \<le> b"
  shows "b AND 0x80 \<noteq> 0"
proof -
  have "unat b div 128 = 1" using assms unat_u8_less [of b] by (intro div_nat_eqI) (simp_all add: word_le_nat_alt)
  then have "bit (unat b) 7" by (simp add: bit_iff_odd)
  then have "bit b 7" by (simp add: bit_unsigned_iff)
  then show ?thesis using and_exp_eq_0_iff_not_bit [of b 7] by simp
qed

lemma small_unsigned_octet:
  "tlv_tag f = 0x02 \<Longrightarrow> tlv_value f = der_octet v \<Longrightarrow> small_unsigned f = Ok (Some v)"
  by (auto simp: small_unsigned_def ber_expect_def INTEGER_TAG_def der_octet_def sign_bit_clear sign_bit_set not_le)

lemma security_info_entry:
  assumes "encode_all ((Tag1 0x06, entry_protocol e) # entry_fields e) = Ok content" "entry_wellformed e"
    and "tlv_tag p = 0x30" "tlv_value p = content"
  shows "security_info (Ok p) = Ok (entry_suite e)"
proof -
  obtain ps where ps: "collect_results (ber_items content) = Ok ps"
    "map tlv_tag ps = map (ber_tag_of \<circ> fst) ((Tag1 0x06, entry_protocol e) # entry_fields e)"
    "map tlv_value ps = map snd ((Tag1 0x06, entry_protocol e) # entry_fields e)"
    using assms(1) by (rule encode_all_items)
  obtain q qs where q: "ps = q # qs" "tlv_tag q = 0x06" "tlv_value q = entry_protocol e"
    "map tlv_tag qs = map (ber_tag_of \<circ> fst) (entry_fields e)" "map tlv_value qs = map snd (entry_fields e)"
    using ps(2,3) by (cases ps) auto
  have items: "ber_items content = map Ok ps" using ps(1) by (simp add: collect_results_Ok)
  have "from_security_info (entry_protocol e) (map Ok qs) = Ok (entry_suite e)"
  proof (cases e)
    case (PaceEntry mapping version parameter)
    then show ?thesis
      using q(4,5) by (cases mapping; cases parameter)
        (auto simp: from_security_info_def protocol_oid_def pace_field_def small_unsigned_octet map_eq_Cons_conv)
  next
    case (OtherProtocol oid fs)
    then show ?thesis using assms(2) by (simp add: from_security_info_def)
  qed
  then show ?thesis
    using assms(3,4) q by (simp add: security_info_def ber_expect_def SEQUENCE_TAG_def items Let_def)
qed

lemma security_infos_entries:
  assumes "list_all2 (\<lambda>e w. security_entry_encode e = Ok w) es ws" "list_all entry_wellformed es"
  shows "security_infos (ber_items (concat ws)) = Ok (List.map_filter entry_suite es)"
  using assms
proof (induction es ws rule: list_all2_induct)
  case Nil
  show ?case by (simp add: ber_codec.items_Nil map_filter_simps)
next
  case (Cons e es w ws)
  then obtain content where c: "encode_all ((Tag1 0x06, entry_protocol e) # entry_fields e) = Ok content"
    "ber_encode (Tag1 0x30, content) = Ok w" by (auto simp: security_entry_encode_def result_simps)
  have "ber_items (w @ concat ws) = Ok (ber_view (Tag1 0x30, content) (length w)) # ber_items (concat ws)"
    using ber_codec.items_step [OF _ ber_codec.dec_enc [OF c(2)], of "concat ws"] ber_encode_nonempty [OF c(2)]
    by (simp add: ber_view_def)
  moreover have "security_info (Ok (ber_view (Tag1 0x30, content) (length w))) = Ok (entry_suite e)"
    using Cons by (intro security_info_entry [OF c(1)]) (simp_all add: ber_view_def)
  ultimately show ?case using Cons by (auto simp: map_filter_simps split: option.splits)
qed

section \<open>Properties\<close>



text \<open>The suite that is run: a listed one of generic mapping, over the most preferred domain listed.\<close>

lemma generic_mapping_suite_eq:
  "generic_mapping_suite pace =
     (let listed = (\<lambda>d. \<lparr>pi_mapping = Generic, pi_domain = d\<rparr> \<in> set pace) in
      map_option (\<lambda>d. \<lparr>pi_mapping = Generic, pi_domain = d\<rparr>)
        (if listed NistP384 then Some NistP384
         else if listed BrainpoolP384r1 then Some BrainpoolP384r1
         else if listed NistP256 then Some NistP256 else None))"
proof -
  have "find (\<lambda>i. pi_mapping i = Generic \<and> pi_domain i = d) pace =
      (if \<lparr>pi_mapping = Generic, pi_domain = d\<rparr> \<in> set pace then Some \<lparr>pi_mapping = Generic, pi_domain = d\<rparr> else None)" for d
    by (induction pace) auto
  then show ?thesis by (simp add: generic_mapping_suite_def domain_preference_def Let_def)
qed

end
