(* ===== verification/Pace_Handshake.thy ===== *)
theory Pace_Handshake
  imports Pace_Sm Pace_Access Card_Manage
begin

text \<open>
  The handshake of \<open>crates/pace/src/handshake.rs\<close>, with the key derivation of \<open>crypto/symmetric.rs\<close>
  and \<open>crates/auth/src/pace_password.rs\<close> and the points of \<open>crypto/curve.rs\<close>. The curve, hash and
  cipher libraries are parameters, and so is the random source; its sampling loop may run forever,
  so an operation that draws returns an option, none standing for not returning. The theory shows
  that with a card that holds the same password key the handshake ends and both sides hold the same
  session keys, that a session exists only if the card proved the keys, and that no attempt is made
  on a credential the retry floor refuses.
\<close>

section \<open>Keys\<close>

datatype KdfParam = KdfEncryption | KdfMac | KdfPassword

fun kdf_counter :: "KdfParam \<Rightarrow> u8" where
  "kdf_counter KdfEncryption = 1"
| "kdf_counter KdfMac = 2"
| "kdf_counter KdfPassword = 3"

definition kdf_aes256 :: "(bytes \<Rightarrow> bytes) \<Rightarrow> bytes \<Rightarrow> KdfParam \<Rightarrow> bytes" where
  "kdf_aes256 sha256 key_material param =
     sha256 (key_material @ be_bytes 4 (unat (ucast (kdf_counter param) :: u32)))"

definition pace_password_key :: "(bytes \<Rightarrow> bytes) \<Rightarrow> bytes \<Rightarrow> bytes" where
  "pace_password_key sha256 digits = sha256 (digits @ be_bytes 4 3)"

section \<open>Points\<close>

record ('p, 'k) curve_library =
  cv_generator :: 'p
  cv_add :: "'p \<Rightarrow> 'p \<Rightarrow> 'p"
  cv_mul :: "'p \<Rightarrow> 'k \<Rightarrow> 'p"
  cv_is_identity :: "'p \<Rightarrow> bool"
  cv_sec1 :: "'p \<Rightarrow> bytes"
  cv_uncompressed_len :: nat
  cv_is_uncompressed :: "bytes \<Rightarrow> bool"
  cv_affine :: "bytes \<Rightarrow> 'p option"
  cv_affine_x :: "'p \<Rightarrow> bytes"
  cv_field_len :: nat
  cv_nonzero_scalar :: "bytes \<Rightarrow> 'k option"
  cv_scalar_zero :: 'k
  cv_scalar_of :: "u64 \<Rightarrow> 'k"
  cv_scalar_add :: "'k \<Rightarrow> 'k \<Rightarrow> 'k"
  cv_scalar_mul :: "'k \<Rightarrow> 'k \<Rightarrow> 'k"

definition encode_uncompressed :: "('p, 'k) curve_library \<Rightarrow> 'p \<Rightarrow> bytes option" where
  "encode_uncompressed C p = (if cv_is_identity C p then None else Some (cv_sec1 C p))"

definition decode_uncompressed :: "('p, 'k) curve_library \<Rightarrow> bytes \<Rightarrow> 'p option" where
  "decode_uncompressed C bytes =
     (if length bytes \<noteq> cv_uncompressed_len C then None
      else if \<not> cv_is_uncompressed C bytes then None
      else cv_affine C bytes)"

definition x_coordinate :: "('p, 'k) curve_library \<Rightarrow> 'p \<Rightarrow> bytes option" where
  "x_coordinate C p = (if cv_is_identity C p then None else Some (cv_affine_x C p))"

definition scalar_from_nonce :: "('p, 'k) curve_library \<Rightarrow> bytes \<Rightarrow> 'k" where
  "scalar_from_nonce C nonce =
     foldl (\<lambda>scalar octet. cv_scalar_add C (cv_scalar_mul C scalar (cv_scalar_of C 256))
       (cv_scalar_of C (ucast octet))) (cv_scalar_zero C) nonce"

record ('p, 'k) pace_library =
  pl_aes :: aes_library
  pl_sha256 :: "bytes \<Rightarrow> bytes"
  pl_curve :: "PaceDomain \<Rightarrow> ('p, 'k) curve_library"

section \<open>Passwords\<close>

abbreviation (input) PASSWORD_REF_CAN :: u8 where "PASSWORD_REF_CAN \<equiv> 0x02"
abbreviation (input) SW_PASSWORD_DEACTIVATED :: u16 where "SW_PASSWORD_DEACTIVATED \<equiv> 0x6283"
abbreviation (input) NONCE_MAX_LEN :: nat where "NONCE_MAX_LEN \<equiv> 64"
abbreviation (input) AUTH_TOKEN_LEN :: nat where "AUTH_TOKEN_LEN \<equiv> 8"

datatype Password = PasswordCan Can | PasswordPin1 Pin1 | PasswordPin2 Pin2 | PasswordPuk Puk

datatype OpenedByCan = OpenedByCan
datatype OpenedByPin1 = OpenedByPin1 (pin1_counter_held: PinStatus)
datatype OpenedByPuk = OpenedByPuk (puk_counter_held: PinStatus)
datatype OpenedByPin2 = OpenedByPin2 (unspent: bool)

datatype Pin2PresentationSpent = Pin2PresentationSpent

definition spend :: "OpenedByPin2 \<Rightarrow> OpenedByPin2 \<times> (unit, Pin2PresentationSpent) result" where
  "spend opened =
     (if unspent opened then (OpenedByPin2 False, Ok ()) else (opened, Err Pin2PresentationSpent))"

text \<open>The trait of the four passwords: how the handshake drives it, and the proof a session carries.\<close>

record 'o PacePassword =
  pp_password :: Password
  pp_opened_by :: "PinStatus option \<Rightarrow> 'o"

definition can_pace_password :: "Can \<Rightarrow> OpenedByCan PacePassword" where
  "can_pace_password c = \<lparr>pp_password = PasswordCan c, pp_opened_by = (\<lambda>_. OpenedByCan)\<rparr>"

definition pin1_pace_password :: "Pin1 \<Rightarrow> OpenedByPin1 PacePassword" where
  "pin1_pace_password p =
     \<lparr>pp_password = PasswordPin1 p,
      pp_opened_by = (\<lambda>counter. OpenedByPin1 (case counter of Some c \<Rightarrow> c | None \<Rightarrow> NoInfo))\<rparr>"

definition pin2_pace_password :: "Pin2 \<Rightarrow> OpenedByPin2 PacePassword" where
  "pin2_pace_password p = \<lparr>pp_password = PasswordPin2 p, pp_opened_by = (\<lambda>_. OpenedByPin2 True)\<rparr>"

definition puk_pace_password :: "Puk \<Rightarrow> OpenedByPuk PacePassword" where
  "puk_pace_password p =
     \<lparr>pp_password = PasswordPuk p,
      pp_opened_by = (\<lambda>counter. OpenedByPuk (case counter of Some c \<Rightarrow> c | None \<Rightarrow> NoInfo))\<rparr>"

fun password_reference :: "Password \<Rightarrow> u8" where
  "password_reference (PasswordCan _) = PASSWORD_REF_CAN"
| "password_reference (PasswordPin1 _) = scheme_reference Organizational SlotPin1"
| "password_reference (PasswordPin2 _) = scheme_reference Organizational SlotPin2"
| "password_reference (PasswordPuk _) = puk_reference Organizational"

fun floored_credential :: "Password \<Rightarrow> FlooredCredential option" where
  "floored_credential (PasswordCan _) = None"
| "floored_credential (PasswordPin1 _) = Some FlooredPin1"
| "floored_credential (PasswordPin2 _) = Some FlooredPin2"
| "floored_credential (PasswordPuk _) = Some FlooredPuk"

fun password_key :: "(bytes \<Rightarrow> bytes) \<Rightarrow> Password \<Rightarrow> bytes" where
  "password_key sha256 (PasswordCan c) = kdf_aes256 sha256 (password_bytes c) KdfPassword"
| "password_key sha256 (PasswordPin1 p) = pace_password_key sha256 (pin1_digits p)"
| "password_key sha256 (PasswordPin2 p) = pace_password_key sha256 (pin2_digits p)"
| "password_key sha256 (PasswordPuk p) = pace_password_key sha256 (puk_digits p)"

fun initial_tries :: "FlooredCredential \<Rightarrow> u8" where
  "initial_tries FlooredPin1 = 5"
| "initial_tries FlooredPin2 = 5"
| "initial_tries FlooredPuk = 5"

record SessionKeys =
  sk_enc :: bytes
  sk_mac :: bytes
  sk_ssc :: bytes

record 'o PaceSession =
  ps_keys :: SessionKeys
  ps_opened_by :: 'o

definition sm_new :: "'s \<Rightarrow> 'o PaceSession \<Rightarrow> ('s, 'o) SmTransport" where
  "sm_new inner session =
     \<lparr>sm_inner = inner, sm_k_enc = sk_enc (ps_keys session), sm_k_mac = sk_mac (ps_keys session),
      sm_ssc = sk_ssc (ps_keys session), sm_opened_by = ps_opened_by session\<rparr>"

definition sm_into_parts :: "('s, 'o) SmTransport \<Rightarrow> 's \<times> 'o PaceSession" where
  "sm_into_parts m =
     (sm_inner m, \<lparr>ps_keys = \<lparr>sk_enc = sm_k_enc m, sk_mac = sm_k_mac m, sk_ssc = sm_ssc m\<rparr>,
       ps_opened_by = sm_opened_by m\<rparr>)"

section \<open>Rounds\<close>

definition pace_transmit :: "('s, 'e) CardTransport \<Rightarrow> CommandApdu \<Rightarrow> ('s, ResponseApdu, 'e, 'f) pace_op" where
  "pace_transmit tp command s =
     (case transmit tp command s of
        (s, r) \<Rightarrow> (s, and_then (map_err PaceTransport r) (\<lambda>outcome. map_err PaceOutcome (into_response outcome))))"

definition exchange_round ::
  "('s, 'e) CardTransport \<Rightarrow> Password \<Rightarrow> CommandApdu \<Rightarrow> string \<Rightarrow> ('s, ResponseApdu, 'e, 'f) pace_op" where
  "exchange_round tp password command stage =
     then_do (pace_transmit tp command) (\<lambda>response.
       if response_is_ok response then done_with (Ok response)
       else done_with (Err
         (case (floored_credential password, status_word response) of
            (Some FlooredPuk, PinIncorrect retries) \<Rightarrow> PaceWrongPuk retries
          | (Some _, PinIncorrect retries) \<Rightarrow> PaceWrongPin retries
          | (_, status) \<Rightarrow> PaceStatus stage status)))"

definition mse_data :: "PaceInfo \<Rightarrow> Password \<Rightarrow> (bytes, BerEncodeError) result" where
  "mse_data suite password =
     and_then (tlv 0x80 (protocol_oid suite)) (\<lambda>mechanism.
     and_then (tlv 0x83 [password_reference password]) (\<lambda>reference.
     and_then (tlv 0x84 [parameter_id (pi_domain suite)]) (\<lambda>domain.
       Ok (mechanism @ reference @ domain))))"

fun mse_pin_status ::
  "FlooredCredential \<Rightarrow> StatusWord \<Rightarrow> (PinStatus, ('e, 'f) PaceError) result" where
  "mse_pin_status credential Success =
     Ok (case retries_from_nibble (initial_tries credential) of Some n \<Rightarrow> Remaining n | None \<Rightarrow> NoInfo)"
| "mse_pin_status credential (PinIncorrect retries) =
     Ok (if retries_is_exhausted retries then PinLocked else Remaining retries)"
| "mse_pin_status credential (OtherSw sw) =
     (if sw = SW_PASSWORD_DEACTIVATED then Err PasswordDeactivated
      else Err (PaceStatus ''MSE:Set AT'' (OtherSw sw)))"
| "mse_pin_status credential other = Err (PaceStatus ''MSE:Set AT'' other)"

definition set_authentication_template ::
  "('s, 'e) CardTransport \<Rightarrow> PaceInfo \<Rightarrow> Password \<Rightarrow> ('s, PinStatus option, 'e, 'f) pace_op" where
  "set_authentication_template tp suite password =
     then_do (done_with (map_err (\<lambda>_. PaceEncoding) (mse_data suite password))) (\<lambda>data.
     then_do (done_with (map_err (\<lambda>_. PaceEncoding) (mse_set_at_into_apdu data))) (\<lambda>command.
     then_do (pace_transmit tp command) (\<lambda>response.
       let status = status_word response in
       case floored_credential password of
         None \<Rightarrow>
           if response_is_ok response then done_with (Ok None)
           else done_with (Err (PaceStatus ''MSE:Set AT'' status))
       | Some credential \<Rightarrow>
           then_do (done_with (mse_pin_status credential status)) (\<lambda>pin_status.
           then_do (done_with (map_err PaceRetryFloor (check_retry_floor credential pin_status))) (\<lambda>_.
             done_with (Ok (Some pin_status)))))))"

text \<open>
  One round: the payload wrapped in the dynamic-authentication template, and the object the answer's
  template starts with, which carries the expected tag.
\<close>

definition ga_round ::
  "('s, 'e) CardTransport \<Rightarrow> Password \<Rightarrow> bool \<Rightarrow> bytes \<Rightarrow> string \<Rightarrow> u16 \<Rightarrow> ('s, bytes, 'e, 'f) pace_op" where
  "ga_round tp password chain payload stage tag =
     then_do (done_with (map_err (\<lambda>_. PaceEncoding) (general_authenticate_into_apdu chain payload))) (\<lambda>command.
     then_do (exchange_round tp password command stage) (\<lambda>response.
     then_do (done_with (map_err PaceBer (ber_parse_typed 0x7C (rsp_body response)))) (\<lambda>(outer, _).
     then_do (done_with (map_err PaceBer (ber_parse_typed tag outer))) (\<lambda>(inner, _).
       done_with (Ok inner)))))"

definition get_encrypted_nonce ::
  "('p, 'k) pace_library \<Rightarrow> ('s, 'e) CardTransport \<Rightarrow> Password \<Rightarrow> ('s, bytes, 'e, 'f) pace_op" where
  "get_encrypted_nonce L tp password =
     then_do (done_with (map_err (\<lambda>_. PaceEncoding) (tlv 0x7C []))) (\<lambda>request.
     then_do (ga_round tp password True request ''GA-1 encrypted nonce'' 0x80) (\<lambda>inner.
       let len = length inner in
       if len = 0 \<or> len mod AES_BLOCK \<noteq> 0 \<or> len > NONCE_MAX_LEN
       then done_with (Err (UnexpectedResponse ''encrypted nonce wrong length''))
       else
         let k_pi = password_key (pl_sha256 L) password in
         then_do (done_with (map_err (\<lambda>_. UnexpectedResponse ''encrypted nonce not block-aligned'')
           (aes256_cbc_decrypt_no_padding (pl_aes L) k_pi (replicate AES_BLOCK 0) inner))) (\<lambda>nonce.
         if length nonce \<noteq> len then done_with (Err (UnexpectedResponse ''decrypted nonce wrong length''))
         else done_with (Ok nonce))))"

definition reject_reflection :: "'p \<Rightarrow> 'p \<Rightarrow> (unit, ('e, 'f) PaceError) result" where
  "reject_reflection ours theirs = (if ours = theirs then Err ReflectedKey else Ok ())"

text \<open>
  An exchange of ephemeral points, the terminal's being \<open>ours\<close>: its encoding is sent, and the card's
  point is decoded and compared.
\<close>

definition point_round ::
  "('p, 'k) curve_library \<Rightarrow> ('s, 'e) CardTransport \<Rightarrow> Password \<Rightarrow> u8 \<Rightarrow> 'p \<Rightarrow> string \<Rightarrow> u16 \<Rightarrow>
   ('s, 'p, 'e, 'f) pace_op" where
  "point_round C tp password request_tag ours stage answer_tag =
     then_do (done_with (ok_or (encode_uncompressed C ours) InvalidPoint)) (\<lambda>point_bytes.
     then_do (done_with (map_err (\<lambda>_. PaceEncoding)
       (and_then (tlv request_tag point_bytes) (tlv 0x7C)))) (\<lambda>payload.
     then_do (ga_round tp password True payload stage answer_tag) (\<lambda>inner.
     then_do (done_with (ok_or (decode_uncompressed C inner) InvalidPoint)) (\<lambda>theirs.
     then_do (done_with (reject_reflection ours theirs)) (\<lambda>_. done_with (Ok theirs))))))"

record ('p, 'k) PaceMidwayState =
  mid_v_picc :: 'p
  mid_u_pcd :: 'k
  mid_u_pcd_public :: 'p

definition encode_auth_token :: "('p, 'k) curve_library \<Rightarrow> PaceInfo \<Rightarrow> 'p \<Rightarrow> bytes option" where
  "encode_auth_token C suite point =
     (case encode_uncompressed C point of
        None \<Rightarrow> None
      | Some point_bytes \<Rightarrow>
          (case and_then (tlv 0x06 (protocol_oid suite)) (\<lambda>oid.
             and_then (tlv 0x86 point_bytes) (\<lambda>encoded. tlv2 0x7F49 (oid @ encoded))) of
             Ok token \<Rightarrow> Some token
           | Err _ \<Rightarrow> None))"

definition run_mutual_authentication ::
  "('p, 'k) pace_library \<Rightarrow> ('s, 'e) CardTransport \<Rightarrow> PaceInfo \<Rightarrow> Password \<Rightarrow> ('p, 'k) PaceMidwayState \<Rightarrow>
   ('s, SessionKeys, 'e, 'f) pace_op" where
  "run_mutual_authentication L tp suite password state =
     (let C = pl_curve L (pi_domain suite);
          shared = cv_mul C (mid_v_picc state) (mid_u_pcd state)
      in then_do (done_with (ok_or (x_coordinate C shared) InvalidPoint)) (\<lambda>shared_x.
         let k_enc = kdf_aes256 (pl_sha256 L) shared_x KdfEncryption;
             k_mac = kdf_aes256 (pl_sha256 L) shared_x KdfMac
         in then_do (done_with (ok_or (encode_auth_token C suite (mid_v_picc state)) InvalidPoint)) (\<lambda>token_for_card.
            then_do (done_with (map_err (\<lambda>_. PaceEncoding)
              (and_then (tlv 0x85 (aes256_cmac_truncated (pl_aes L) k_mac token_for_card)) (tlv 0x7C)))) (\<lambda>payload.
            then_do (ga_round tp password False payload ''GA-4 mutual authentication'' 0x86) (\<lambda>card_tag.
            if length card_tag \<noteq> AUTH_TOKEN_LEN
            then done_with (Err (UnexpectedResponse ''card token wrong length''))
            else
              then_do (done_with (ok_or (encode_auth_token C suite (mid_u_pcd_public state)) InvalidPoint)) (\<lambda>token_for_us.
              if aes256_cmac_truncated (pl_aes L) k_mac token_for_us \<noteq> card_tag
              then done_with (Err AuthMismatch)
              else done_with (Ok \<lparr>sk_enc = k_enc, sk_mac = k_mac, sk_ssc = SSC_INITIAL\<rparr>)))))))"

section \<open>Drawing scalars\<close>

type_synonym ('r, 'f) scalar_source = "nat \<Rightarrow> 'r \<Rightarrow> 'r \<times> (bytes, 'f) result"

partial_function (option) random_scalar_mod_n ::
  "('p, 'k) curve_library \<Rightarrow> ('r, 'f) scalar_source \<Rightarrow> 'r \<Rightarrow> ('r \<times> ('k, ('e, 'f) PaceError) result) option" where
  "random_scalar_mod_n C draw r =
     (case draw (cv_field_len C) r of
        (r', Err failure) \<Rightarrow> Some (r', Err (PaceRandom failure))
      | (r', Ok buffer) \<Rightarrow>
          (case cv_nonzero_scalar C buffer of
             Some scalar \<Rightarrow> Some (r', Ok scalar)
           | None \<Rightarrow> random_scalar_mod_n C draw r'))"

text \<open>
  Operations that draw: on the card and the source together, none when the sampling never ends.
  \<open>then_may\<close> sequences them as \<open>then_do\<close> does, \<open>on_card\<close> and \<open>on_source\<close> lift the two kinds of step.
\<close>

type_synonym ('s, 'r, 'a, 'e, 'f) drawing_op =
  "'s \<times> 'r \<Rightarrow> (('s \<times> 'r) \<times> ('a, ('e, 'f) PaceError) result) option"

definition then_may ::
  "('s, 'r, 'a, 'e, 'f) drawing_op \<Rightarrow> ('a \<Rightarrow> ('s, 'r, 'b, 'e, 'f) drawing_op) \<Rightarrow> ('s, 'r, 'b, 'e, 'f) drawing_op" where
  "then_may m f sr =
     (case m sr of
        None \<Rightarrow> None
      | Some (sr', Ok x) \<Rightarrow> f x sr'
      | Some (sr', Err e) \<Rightarrow> Some (sr', Err e))"

definition on_card :: "('s, 'a, 'e, 'f) pace_op \<Rightarrow> ('s, 'r, 'a, 'e, 'f) drawing_op" where
  "on_card m sr = (case m (fst sr) of (s, x) \<Rightarrow> Some ((s, snd sr), x))"

definition on_source ::
  "('r \<Rightarrow> ('r \<times> ('a, ('e, 'f) PaceError) result) option) \<Rightarrow> ('s, 'r, 'a, 'e, 'f) drawing_op" where
  "on_source m sr = map_option (\<lambda>(r, x). ((fst sr, r), x)) (m (snd sr))"

definition map_nonce_and_key_agreement ::
  "('p, 'k) curve_library \<Rightarrow> ('s, 'e) CardTransport \<Rightarrow> ('r, 'f) scalar_source \<Rightarrow> Password \<Rightarrow> bytes \<Rightarrow>
   ('s, 'r, ('p, 'k) PaceMidwayState, 'e, 'f) drawing_op" where
  "map_nonce_and_key_agreement C tp draw password nonce =
     then_may (on_source (random_scalar_mod_n C draw)) (\<lambda>x_pcd.
     let x_pcd_public = cv_mul C (cv_generator C) x_pcd in
     then_may (on_card (point_round C tp password 0x81 x_pcd_public ''GA-2 map nonce'' 0x82)) (\<lambda>y_picc.
     let h = cv_mul C y_picc x_pcd;
         s_g = cv_mul C (cv_generator C) (scalar_from_nonce C nonce);
         mapped_g = cv_add C s_g h
     in then_may (on_source (random_scalar_mod_n C draw)) (\<lambda>u_pcd.
        let u_pcd_public = cv_mul C mapped_g u_pcd in
        then_may (on_card (point_round C tp password 0x83 u_pcd_public ''GA-3 key agreement'' 0x84)) (\<lambda>v_picc.
        on_card (done_with (Ok \<lparr>mid_v_picc = v_picc, mid_u_pcd = u_pcd, mid_u_pcd_public = u_pcd_public\<rparr>))))))"

record Completed =
  done_keys :: SessionKeys
  done_counter :: "PinStatus option"

definition handshake ::
  "('p, 'k) pace_library \<Rightarrow> ('s, 'e) CardTransport \<Rightarrow> ('r, 'f) scalar_source \<Rightarrow> PaceInfo \<Rightarrow> Password \<Rightarrow>
   ('s, 'r, Completed, 'e, 'f) drawing_op" where
  "handshake L tp draw suite password =
     then_may (on_card (set_authentication_template tp suite password)) (\<lambda>counter.
     then_may (on_card (get_encrypted_nonce L tp password)) (\<lambda>nonce.
     then_may (map_nonce_and_key_agreement (pl_curve L (pi_domain suite)) tp draw password nonce) (\<lambda>state.
     then_may (on_card (run_mutual_authentication L tp suite password state)) (\<lambda>keys.
       on_card (done_with (Ok \<lparr>done_keys = keys, done_counter = counter\<rparr>))))))"

definition run_pace_drawing ::
  "('p, 'k) pace_library \<Rightarrow> ('s, 'e) CardTransport \<Rightarrow> ('r, 'f) scalar_source \<Rightarrow> PaceInfo list \<Rightarrow> Password \<Rightarrow>
   ('s, 'r, Completed, 'e, 'f) drawing_op" where
  "run_pace_drawing L tp draw card_access password =
     then_may (on_card (done_with (ok_or (generic_mapping_suite card_access) NoSupportedSuite))) (\<lambda>suite.
       handshake L tp draw suite password)"

definition run_pace ::
  "('p, 'k) pace_library \<Rightarrow> ('s, 'e) CardTransport \<Rightarrow> ('r, 'f) scalar_source \<Rightarrow> PaceInfo list \<Rightarrow>
   'o PacePassword \<Rightarrow> ('s, 'r, 'o PaceSession, 'e, 'f) drawing_op" where
  "run_pace L tp draw card_access password =
     then_may (run_pace_drawing L tp draw card_access (pp_password password)) (\<lambda>completed.
       on_card (done_with (Ok \<lparr>ps_keys = done_keys completed,
         ps_opened_by = pp_opened_by password (done_counter completed)\<rparr>)))"

section \<open>A card that runs the protocol\<close>

text \<open>
  The documented behaviour of the curve library: multiplying by two scalars is the same in either
  order, and a finite point has an encoding of the curve's fixed length, of at most 97 octets for the
  curves in use, that decodes to it.
\<close>

definition curve_ok :: "('p, 'k) curve_library \<Rightarrow> bool" where
  "curve_ok C \<longleftrightarrow>
     (\<forall>p a b. cv_mul C (cv_mul C p a) b = cv_mul C (cv_mul C p b) a) \<and>
     (\<forall>p. \<not> cv_is_identity C p \<longrightarrow>
        length (cv_sec1 C p) = cv_uncompressed_len C \<and> cv_is_uncompressed C (cv_sec1 C p) \<and>
        cv_affine C (cv_sec1 C p) = Some p) \<and>
     cv_uncompressed_len C \<le> 97"

record ('p, 'k) card_secrets =
  cs_suite :: PaceInfo
  cs_reference :: u8
  cs_key :: bytes
  cs_status :: "u8 \<times> u8"
  cs_nonce :: bytes
  cs_y :: 'k
  cs_v :: 'k

datatype 'p card_stage =
    Idle
  | TemplateSet
  | NonceSent
  | Mapped 'p
  | Agreed 'p 'p bytes bytes
  | Secured bytes bytes

definition template_answer :: "u8 \<Rightarrow> bytes \<Rightarrow> ResponseApdu" where
  "template_answer tag v = \<lparr>rsp_body = tlv_octets 0x7C (tlv_octets tag v), rsp_sw1 = 0x90, rsp_sw2 = 0x00\<rparr>"

definition refused :: ResponseApdu where
  "refused = \<lparr>rsp_body = [], rsp_sw1 = 0x69, rsp_sw2 = 0x85\<rparr>"

definition template_value :: "u16 \<Rightarrow> bytes \<Rightarrow> bytes option" where
  "template_value tag data =
     (case ber_parse_typed 0x7C data of
        Err _ \<Rightarrow> None
      | Ok (outer, _) \<Rightarrow> (case ber_parse_typed tag outer of Ok (v, _) \<Rightarrow> Some v | Err _ \<Rightarrow> None))"

definition template_point :: "('p, 'k) curve_library \<Rightarrow> u16 \<Rightarrow> bytes \<Rightarrow> 'p option" where
  "template_point C tag data =
     (case template_value tag data of Some v \<Rightarrow> decode_uncompressed C v | None \<Rightarrow> None)"

definition token_tag :: "('p, 'k) pace_library \<Rightarrow> PaceInfo \<Rightarrow> bytes \<Rightarrow> 'p \<Rightarrow> bytes" where
  "token_tag L suite k_mac p =
     take 8 (cmac_tag (pl_aes L) k_mac
       (case encode_auth_token (pl_curve L (pi_domain suite)) suite p of Some t \<Rightarrow> t | None \<Rightarrow> []))"

fun card_step ::
  "('p, 'k) pace_library \<Rightarrow> ('p, 'k) card_secrets \<Rightarrow> bytes \<Rightarrow> bytes \<Rightarrow> 'p card_stage \<Rightarrow>
   'p card_stage \<times> ResponseApdu" where
  "card_step L K header data Idle =
     (if header = [0x00, 0x22, 0xC1, 0xA4] \<and>
         data = tlv_octets 0x80 (protocol_oid (cs_suite K)) @ tlv_octets 0x83 [cs_reference K] @
           tlv_octets 0x84 [parameter_id (pi_domain (cs_suite K))]
      then (TemplateSet, \<lparr>rsp_body = [], rsp_sw1 = fst (cs_status K), rsp_sw2 = snd (cs_status K)\<rparr>)
      else (Idle, refused))"
| "card_step L K header data TemplateSet =
     (if header = [0x10, 0x86, 0x00, 0x00] \<and> data = [0x7C, 0x00]
      then (NonceSent, template_answer 0x80
        (cbc_encrypt (pl_aes L) (cs_key K) (replicate 16 0) (cs_nonce K)))
      else (Idle, refused))"
| "card_step L K header data NonceSent =
     (let C = pl_curve L (pi_domain (cs_suite K)); G = cv_generator C in
      case (if header = [0x10, 0x86, 0x00, 0x00] then template_point C 0x81 data else None) of
        None \<Rightarrow> (Idle, refused)
      | Some X \<Rightarrow>
          (Mapped (cv_add C (cv_mul C G (scalar_from_nonce C (cs_nonce K))) (cv_mul C X (cs_y K))),
           template_answer 0x82 (cv_sec1 C (cv_mul C G (cs_y K)))))"
| "card_step L K header data (Mapped G') =
     (let C = pl_curve L (pi_domain (cs_suite K)) in
      case (if header = [0x10, 0x86, 0x00, 0x00] then template_point C 0x83 data else None) of
        None \<Rightarrow> (Idle, refused)
      | Some U \<Rightarrow>
          let V = cv_mul C G' (cs_v K); x = cv_affine_x C (cv_mul C U (cs_v K)) in
          (Agreed U V (kdf_aes256 (pl_sha256 L) x KdfEncryption) (kdf_aes256 (pl_sha256 L) x KdfMac),
           template_answer 0x84 (cv_sec1 C V)))"
| "card_step L K header data (Agreed U V k_enc k_mac) =
     (if header = [0x00, 0x86, 0x00, 0x00] \<and> template_value 0x85 data = Some (token_tag L (cs_suite K) k_mac V)
      then (Secured k_enc k_mac, template_answer 0x86 (token_tag L (cs_suite K) k_mac U))
      else (Idle, refused))"
| "card_step L K header data (Secured k_enc k_mac) = (Secured k_enc k_mac, refused)"

definition pace_card ::
  "('p, 'k) pace_library \<Rightarrow> ('p, 'k) card_secrets \<Rightarrow> ('p card_stage, 'e) CardTransport" where
  "pace_card L K =
     \<lparr>transmit = (\<lambda>c s. case decode_short (cmd_bytes c) of
         None \<Rightarrow> (s, Ok (Response refused))
       | Some a \<Rightarrow> (case card_step L K (sa_header a) (sa_data a) s of (s, r) \<Rightarrow> (s, Ok (Response r)))),
      transmit_credential = (\<lambda>c s. (s, Ok (Response refused)))\<rparr>"

fun template_tries :: "StatusWord \<Rightarrow> PinStatus option" where
  "template_tries Success = Some (Remaining (PinRetries 5))"
| "template_tries (PinIncorrect n) = Some (if retries_is_exhausted n then PinLocked else Remaining n)"
| "template_tries _ = None"

definition template_served :: "Password \<Rightarrow> StatusWord \<Rightarrow> PinStatus option \<Rightarrow> bool" where
  "template_served password status counter \<longleftrightarrow>
     (case floored_credential password of
        None \<Rightarrow> sw_is_success status \<and> counter = None
      | Some credential \<Rightarrow> counter \<noteq> None \<and> template_tries status = counter \<and>
          check_retry_floor credential (the counter) = Ok ())"

section \<open>Rounds with that card\<close>

declare ber_tag_ok.simps [simp del]

lemma mse_pin_status_Ok: "mse_pin_status c sw = Ok st \<longleftrightarrow> template_tries sw = Some st"
  by (cases "(c, sw)" rule: mse_pin_status.cases; cases c)
    (auto simp: retries_from_nibble_def PinRetries_MAX_def)

lemma typed_read:
  assumes "ber_tag_ok (Tag1 t)" "length v < 2 ^ 32"
  shows "\<exists>n. ber_parse_typed (ucast t) (tlv_octets t v) = Ok (v, n)"
  using ber_parse_encode [of "(Tag1 t, v)" "tlv_octets t v" "[]"] tlv_eq [OF assms]
  by (simp add: ber_parse_typed_def ber_expect_def ber_view_def)

lemma template_tags [simp]:
  "ber_tag_ok (Tag1 0x7C)" "ber_tag_ok (Tag1 0x80)" "ber_tag_ok (Tag1 0x81)" "ber_tag_ok (Tag1 0x82)"
  "ber_tag_ok (Tag1 0x83)" "ber_tag_ok (Tag1 0x84)" "ber_tag_ok (Tag1 0x85)" "ber_tag_ok (Tag1 0x86)"
  "ber_tag_ok (Tag1 0x06)"
  by (simp_all add: ber_tag_ok.simps MULTI_BYTE_TAG_MASK_def)

lemma template_value_tlv:
  assumes "ber_tag_ok (Tag1 t)" "length v < 126"
  shows "template_value (ucast t) (tlv_octets 0x7C (tlv_octets t v)) = Some v"
proof -
  have "length (tlv_octets t v) < 2 ^ 32" using assms by (simp add: tlv_octets_short)
  then obtain n where "ber_parse_typed 0x7C (tlv_octets 0x7C (tlv_octets t v)) = Ok (tlv_octets t v, n)"
    using typed_read [of "0x7C" "tlv_octets t v"] by auto
  moreover obtain k where "ber_parse_typed (ucast t) (tlv_octets t v) = Ok (v, k)"
    using typed_read [OF assms(1), of v] assms(2) by auto
  ultimately show ?thesis by (simp add: template_value_def)
qed

lemma general_authenticate_wire:
  assumes "payload \<noteq> []" "length payload < 256"
  shows "\<exists>c. general_authenticate_into_apdu chain payload = Ok c \<and>
    decode_short (cmd_bytes c) = Some \<lparr>sa_header = [if chain then 0x10 else 0x00, 0x86, 0x00, 0x00],
      sa_data = payload, sa_le = Some 0\<rparr>"
proof -
  let ?h = "\<lparr>hdr_class = (if chain then ChainedFirst else Plain), hdr_instruction = 0x86, hdr_p1 = 0x00, hdr_p2 = 0x00\<rparr>"
  have "case_4 ?h payload 0 = Ok (from_wire (header_to_bytes ?h @ [of_nat (length payload)] @ payload @ [0]))"
    using assms by (intro case_4_eq) auto
  moreover have "decode_short (header_to_bytes ?h @ [of_nat (length payload)] @ payload @ [0]) =
      Some \<lparr>sa_header = header_to_bytes ?h, sa_data = payload, sa_le = Some 0\<rparr>"
    using assms by (intro decode_case_4) auto
  ultimately show ?thesis
    by (simp add: general_authenticate_into_apdu_def from_wire_def header_to_bytes_def)
qed

lemma ga_round_card:
  assumes "card_step L K [if chain then 0x10 else 0x00, 0x86, 0x00, 0x00] payload s = (s', template_answer t v)"
    and "payload \<noteq> []" "length payload < 256" "ber_tag_ok (Tag1 t)" "length v < 126"
  shows "ga_round (pace_card L K) password chain payload stage (ucast t) s = (s', Ok v)"
proof -
  obtain c where c: "general_authenticate_into_apdu chain payload = Ok c"
    "decode_short (cmd_bytes c) = Some \<lparr>sa_header = [if chain then 0x10 else 0x00, 0x86, 0x00, 0x00],
      sa_data = payload, sa_le = Some 0\<rparr>"
    using general_authenticate_wire [OF assms(2,3)] by blast
  have sent: "pace_transmit (pace_card L K) c s = (s', Ok (template_answer t v))"
    using assms(1) c(2) by (simp add: pace_transmit_def pace_card_def)
  have "sw_is_success (sw_from_u16 (u16_of_be 0x90 0x00))" by code_simp
  then have ok: "response_is_ok (template_answer t v)"
    by (simp add: response_is_ok_def status_word_def sw_from_bytes_def template_answer_def)
  have "length (tlv_octets t v) < 2 ^ 32" using assms by (simp add: tlv_octets_short)
  then obtain n where outer: "ber_parse_typed 0x7C (rsp_body (template_answer t v)) = Ok (tlv_octets t v, n)"
    using typed_read [of "0x7C" "tlv_octets t v"] by (auto simp: template_answer_def)
  obtain k where inner: "ber_parse_typed (ucast t) (tlv_octets t v) = Ok (v, k)"
    using typed_read [OF assms(4), of v] assms(5) by auto
  show ?thesis
    by (simp add: ga_round_def exchange_round_def then_do_def done_with_def c(1) sent ok outer inner)
qed

lemma curve_okD:
  assumes "curve_ok C"
  shows "cv_mul C (cv_mul C p a) b = cv_mul C (cv_mul C p b) a"
    and "\<not> cv_is_identity C p \<Longrightarrow> length (cv_sec1 C p) \<le> 97"
    and "\<not> cv_is_identity C p \<Longrightarrow> decode_uncompressed C (cv_sec1 C p) = Some p"
  using assms unfolding curve_ok_def decode_uncompressed_def by metis+

lemma template_point_tlv:
  assumes "curve_ok C" "\<not> cv_is_identity C p" "ber_tag_ok (Tag1 t)"
  shows "template_point C (ucast t) (tlv_octets 0x7C (tlv_octets t (cv_sec1 C p))) = Some p"
proof -
  have "length (cv_sec1 C p) < 126" using curve_okD(2) [OF assms(1,2)] by simp
  then show ?thesis
    using template_value_tlv [OF assms(3)] curve_okD(3) [OF assms(1,2)] by (simp add: template_point_def)
qed

lemma point_round_card:
  assumes "curve_ok C" "\<not> cv_is_identity C ours" "\<not> cv_is_identity C theirs" "ours \<noteq> theirs"
    and "card_step L K [0x10, 0x86, 0x00, 0x00] (tlv_octets 0x7C (tlv_octets rt (cv_sec1 C ours))) s =
      (s', template_answer at (cv_sec1 C theirs))"
    and "ber_tag_ok (Tag1 rt)" "ber_tag_ok (Tag1 at)"
  shows "point_round C (pace_card L K) password rt ours stage (ucast at) s = (s', Ok theirs)"
proof -
  have len: "length (cv_sec1 C ours) \<le> 97" "length (cv_sec1 C theirs) \<le> 97"
    using curve_okD(2) [OF assms(1)] assms(2,3) by blast+
  have payload: "and_then (tlv rt (cv_sec1 C ours)) (tlv 0x7C) =
      Ok (tlv_octets 0x7C (tlv_octets rt (cv_sec1 C ours)))"
    using len assms(6) by (simp add: tlv_eq tlv_octets_short)
  have "tlv_octets 0x7C (tlv_octets rt (cv_sec1 C ours)) \<noteq> []"
    "length (tlv_octets 0x7C (tlv_octets rt (cv_sec1 C ours))) < 256" "length (cv_sec1 C theirs) < 126"
    using len assms(6) by (simp_all add: tlv_octets_short)
  note round = ga_round_card [where chain = True, simplified, OF assms(5) this(1,2) assms(7) this(3)]
  show ?thesis
    using assms(2,4) by (simp add: point_round_def encode_uncompressed_def then_do_def done_with_def payload
        round curve_okD(3) [OF assms(1,3)] reject_reflection_def)
qed

lemma set_template_card:
  assumes "cs_suite K = suite" "cs_reference K = password_reference password"
    and "template_served password (sw_from_bytes (fst (cs_status K)) (snd (cs_status K))) counter"
  shows "set_authentication_template (pace_card L K) suite password Idle = (TemplateSet, Ok counter)"
proof -
  define data where "data = tlv_octets 0x80 (protocol_oid suite) @ tlv_octets 0x83 [password_reference password] @
    tlv_octets 0x84 [parameter_id (pi_domain suite)]"
  define h where "h = \<lparr>hdr_class = Plain, hdr_instruction = 0x22, hdr_p1 = 0xC1, hdr_p2 = 0xA4\<rparr>"
  define command where "command = from_wire (header_to_bytes h @ [of_nat (length data)] @ data)"
  define r where "r = \<lparr>rsp_body = [], rsp_sw1 = fst (cs_status K), rsp_sw2 = snd (cs_status K)\<rparr>"
  have oid: "length (protocol_oid suite) = 10" by (simp add: protocol_oid_def split: PaceMapping.splits)
  have data: "mse_data suite password = Ok data"
    by (simp add: mse_data_def tlv_eq oid data_def)
  have small: "data \<noteq> []" "length data < 256" by (simp_all add: data_def tlv_octets_short oid)
  have apdu: "mse_set_at_into_apdu data = Ok command"
    unfolding mse_set_at_into_apdu_def command_def h_def by (rule case_3_eq) (use small in auto)
  have decode: "decode_short (cmd_bytes command) = Some \<lparr>sa_header = header_to_bytes h, sa_data = data, sa_le = None\<rparr>"
    using decode_case_3 [OF small] by (simp add: command_def from_wire_def)
  have "card_step L K (header_to_bytes h) data Idle = (TemplateSet, r)"
    by (simp add: assms(1,2) data_def h_def r_def header_to_bytes_def)
  then have sent: "pace_transmit (pace_card L K) command Idle = (TemplateSet, Ok r)"
    by (simp add: pace_transmit_def pace_card_def decode)
  have status: "status_word r = sw_from_bytes (fst (cs_status K)) (snd (cs_status K))"
    by (simp add: r_def status_word_def)
  show ?thesis
    using assms(3) unfolding status [symmetric]
    by (auto simp: set_authentication_template_def then_do_def done_with_def data apdu sent
        template_served_def response_is_ok_def Let_def mse_pin_status_Ok [THEN iffD2] split: option.splits)
qed

lemma get_nonce_card:
  assumes "aes_ok (pl_aes L)" "cs_key K = password_key (pl_sha256 L) password"
    and "length (cs_nonce K) \<in> {16, 32, 48, 64}"
  shows "get_encrypted_nonce L (pace_card L K) password TemplateSet = (NonceSent, Ok (cs_nonce K))"
proof -
  define cipher where "cipher = cbc_encrypt (pl_aes L) (cs_key K) (replicate 16 0) (cs_nonce K)"
  have cipher: "length cipher = length (cs_nonce K)"
    "cbc_decrypt (pl_aes L) (cs_key K) (replicate 16 0) cipher = cs_nonce K"
    using assms(3) aes_okD(1,2) [OF assms(1), of "cs_nonce K"] by (auto simp: cipher_def)
  have step: "card_step L K [0x10, 0x86, 0x00, 0x00] [0x7C, 0x00] TemplateSet = (NonceSent, template_answer 0x80 cipher)"
    by (simp add: cipher_def)
  have len: "length cipher < 126" using assms(3) cipher(1) by auto
  have small: "[0x7C, 0x00] \<noteq> ([] :: bytes)" "length [0x7C, 0x00 :: u8] < 256" by simp_all
  have round: "ga_round (pace_card L K) password True [0x7C, 0x00] stage 0x80 TemplateSet = (NonceSent, Ok cipher)" for stage
    by (rule ga_round_card [where chain = True and t = "0x80", simplified, OF step small len])
  have "tlv 0x7C [] = Ok [0x7C, 0x00]" by (simp add: tlv_eq tlv_octets_short)
  then show ?thesis
    using assms(3) cipher
    by (auto simp: get_encrypted_nonce_def then_do_def done_with_def round Let_def
        aes256_cbc_decrypt_no_padding_def assms(2) [symmetric])
qed

text \<open>
  The points of a run in which the terminal draws \<open>x\<close> and \<open>u\<close>, and the runs in which none of them is
  the point at infinity and neither side's point is the other's.
\<close>

definition mapped_generator :: "('p, 'k) curve_library \<Rightarrow> ('p, 'k) card_secrets \<Rightarrow> 'k \<Rightarrow> 'p" where
  "mapped_generator C K x =
     cv_add C (cv_mul C (cv_generator C) (scalar_from_nonce C (cs_nonce K)))
       (cv_mul C (cv_mul C (cv_generator C) x) (cs_y K))"

definition sound_run :: "('p, 'k) curve_library \<Rightarrow> ('p, 'k) card_secrets \<Rightarrow> 'k \<Rightarrow> 'k \<Rightarrow> bool" where
  "sound_run C K x u \<longleftrightarrow>
     (let X = cv_mul C (cv_generator C) x; Y = cv_mul C (cv_generator C) (cs_y K);
          G' = mapped_generator C K x; U = cv_mul C G' u; V = cv_mul C G' (cs_v K)
      in X \<noteq> Y \<and> U \<noteq> V \<and> list_all (\<lambda>p. \<not> cv_is_identity C p) [X, Y, U, V, cv_mul C V u])"

definition shared_x :: "('p, 'k) curve_library \<Rightarrow> ('p, 'k) card_secrets \<Rightarrow> 'k \<Rightarrow> 'k \<Rightarrow> bytes" where
  "shared_x C K x u = cv_affine_x C (cv_mul C (cv_mul C (mapped_generator C K x) (cs_v K)) u)"

text \<open>What the source yields: buffers that are no scalar are passed over until one is.\<close>

inductive sampled :: "('p, 'k) curve_library \<Rightarrow> ('r, 'f) scalar_source \<Rightarrow> 'r \<Rightarrow> 'k \<Rightarrow> 'r \<Rightarrow> bool"
  for C draw where
  sampled_now: "draw (cv_field_len C) r = (r', Ok buffer) \<Longrightarrow> cv_nonzero_scalar C buffer = Some k \<Longrightarrow>
    sampled C draw r k r'"
| sampled_later: "draw (cv_field_len C) r = (r', Ok buffer) \<Longrightarrow> cv_nonzero_scalar C buffer = None \<Longrightarrow>
    sampled C draw r' k r'' \<Longrightarrow> sampled C draw r k r''"

lemma random_scalar_sampled: "sampled C draw r k r' \<Longrightarrow> random_scalar_mod_n C draw r = Some (r', Ok k)"
  by (induction rule: sampled.induct) (simp_all add: random_scalar_mod_n.simps)

lemma key_agreement_card:
  assumes C: "C = pl_curve L (pi_domain (cs_suite K))" "curve_ok C" and run: "sound_run C K x u"
    and draws: "sampled C draw r x r1" "sampled C draw r1 u r2"
  defines "U \<equiv> cv_mul C (mapped_generator C K x) u" and "V \<equiv> cv_mul C (mapped_generator C K x) (cs_v K)"
  shows "map_nonce_and_key_agreement C (pace_card L K) draw password (cs_nonce K) (NonceSent, r) =
    Some ((Agreed U V (kdf_aes256 (pl_sha256 L) (shared_x C K x u) KdfEncryption)
        (kdf_aes256 (pl_sha256 L) (shared_x C K x u) KdfMac), r2),
      Ok \<lparr>mid_v_picc = V, mid_u_pcd = u, mid_u_pcd_public = U\<rparr>)"
proof -
  define X Y G' where "X = cv_mul C (cv_generator C) x" and "Y = cv_mul C (cv_generator C) (cs_y K)"
    and "G' = mapped_generator C K x"
  have sound: "X \<noteq> Y" "U \<noteq> V" "\<not> cv_is_identity C X" "\<not> cv_is_identity C Y" "\<not> cv_is_identity C U" "\<not> cv_is_identity C V"
    using run by (simp_all add: sound_run_def Let_def X_def Y_def U_def V_def)
  have comm: "cv_mul C (cv_mul C p a) b = cv_mul C (cv_mul C p b) a" for p a b by (rule curve_okD(1) [OF C(2)])
  have G': "G' = cv_add C (cv_mul C (cv_generator C) (scalar_from_nonce C (cs_nonce K))) (cv_mul C Y x)"
    by (simp add: G'_def mapped_generator_def Y_def comm [of _ x "cs_y K"])
  have map_step: "card_step L K [0x10, 0x86, 0x00, 0x00] (tlv_octets 0x7C (tlv_octets 0x81 (cv_sec1 C X))) NonceSent =
      (Mapped G', template_answer 0x82 (cv_sec1 C Y))"
    using template_point_tlv [OF C(2) sound(3), of "0x81"]
    by (simp add: C(1) [symmetric] G'_def mapped_generator_def X_def Y_def Let_def)
  note map_round = point_round_card [OF C(2) sound(3,4,1) map_step, simplified]
  have agree_step: "card_step L K [0x10, 0x86, 0x00, 0x00] (tlv_octets 0x7C (tlv_octets 0x83 (cv_sec1 C U))) (Mapped G') =
      (Agreed U V (kdf_aes256 (pl_sha256 L) (shared_x C K x u) KdfEncryption)
        (kdf_aes256 (pl_sha256 L) (shared_x C K x u) KdfMac), template_answer 0x84 (cv_sec1 C V))"
    using template_point_tlv [OF C(2) sound(5), of "0x83"]
    by (simp add: C(1) [symmetric] G'_def U_def V_def shared_x_def Let_def comm [of _ u "cs_v K"])
  note agree_round = point_round_card [OF C(2) sound(5,6,2) agree_step, simplified]
  have U: "cv_mul C G' u = U" by (simp add: U_def G'_def)
  show ?thesis
    unfolding map_nonce_and_key_agreement_def Let_def
    by (simp add: then_may_def on_source_def on_card_def draws [THEN random_scalar_sampled] X_def [symmetric] map_round G' [symmetric] U agree_round
        done_with_def)
qed

lemma auth_token_exists:
  assumes "curve_ok C" "\<not> cv_is_identity C p"
  shows "\<exists>token. encode_auth_token C suite p = Some token"
proof -
  let ?inner = "tlv_octets 0x06 (protocol_oid suite) @ tlv_octets 0x86 (cv_sec1 C p)"
  have oid: "length (protocol_oid suite) = 10" by (simp add: protocol_oid_def split: PaceMapping.splits)
  have len: "length (cv_sec1 C p) \<le> 97" by (rule curve_okD(2) [OF assms])
  then have "length ?inner < 2 ^ 32" by (simp add: tlv_octets_short oid)
  then obtain lb where "push_length [] (length ?inner) = (lb, Ok ())"
    using push_length_Ok_iff [of "length ?inner"] by auto
  moreover have "ber_tag_ok (Tag2 0x7F49)" by (simp add: ber_tag_ok.simps ber_consts u16_hi_def u16_lo_def)
  ultimately have "\<exists>w. ber_encode (Tag2 0x7F49, ?inner) = Ok w" unfolding ber_encode_Ok by blast
  then show ?thesis
    using assms(2) len by (auto simp: encode_auth_token_def encode_uncompressed_def tlv_eq oid)
qed

lemma mutual_authentication_card:
  assumes C: "C = pl_curve L (pi_domain suite)" "curve_ok C" and aes: "aes_ok (pl_aes L)" and K: "cs_suite K = suite"
    and points: "\<not> cv_is_identity C U" "\<not> cv_is_identity C V" "\<not> cv_is_identity C (cv_mul C V u)"
  defines "k_enc \<equiv> kdf_aes256 (pl_sha256 L) (cv_affine_x C (cv_mul C V u)) KdfEncryption"
    and "k_mac \<equiv> kdf_aes256 (pl_sha256 L) (cv_affine_x C (cv_mul C V u)) KdfMac"
  shows "run_mutual_authentication L (pace_card L K) suite password
      \<lparr>mid_v_picc = V, mid_u_pcd = u, mid_u_pcd_public = U\<rparr> (Agreed U V k_enc k_mac) =
    (Secured k_enc k_mac, Ok \<lparr>sk_enc = k_enc, sk_mac = k_mac, sk_ssc = SSC_INITIAL\<rparr>)"
proof -
  obtain tv tu where tokens: "encode_auth_token C suite V = Some tv" "encode_auth_token C suite U = Some tu"
    using auth_token_exists [OF C(2)] points by metis
  have tags: "token_tag L suite k_mac V = take 8 (cmac_tag (pl_aes L) k_mac tv)"
    "token_tag L suite k_mac U = take 8 (cmac_tag (pl_aes L) k_mac tu)"
    using tokens by (simp_all add: token_tag_def C(1) [symmetric])
  have len: "length (token_tag L suite k_mac p) = 8" for p
    using aes_okD(3) [OF aes] by (simp add: token_tag_def)
  define payload where "payload = tlv_octets 0x7C (tlv_octets 0x85 (token_tag L suite k_mac V))"
  have payload: "and_then (tlv 0x85 (take 8 (cmac_tag (pl_aes L) k_mac tv))) (tlv 0x7C) = Ok payload"
    using len [of V] by (simp add: payload_def tlv_eq tlv_octets_short tags(1))
  have small: "payload \<noteq> []" "length payload < 256" "length (token_tag L suite k_mac U) < 126"
    using len by (simp_all add: payload_def tlv_octets_short)
  have "template_value 0x85 payload = Some (token_tag L suite k_mac V)"
    using template_value_tlv [of "0x85" "token_tag L suite k_mac V"] len by (simp add: payload_def)
  then have step: "card_step L K [0x00, 0x86, 0x00, 0x00] payload (Agreed U V k_enc k_mac) =
      (Secured k_enc k_mac, template_answer 0x86 (token_tag L suite k_mac U))"
    by (simp add: K)
  note round = ga_round_card [where chain = False and t = "0x86", simplified, OF step small]
  show ?thesis
    unfolding run_mutual_authentication_def C(1) [symmetric] Let_def
    using points(3) len [of U]
    by (simp add: then_do_def done_with_def x_coordinate_def k_enc_def [symmetric] k_mac_def [symmetric] tokens
        aes256_cmac_truncated_def payload round tags)
qed

lemma pace_run_agrees:
  assumes "generic_mapping_suite card_access = Some suite" "C = pl_curve L (pi_domain suite)"
    and "curve_ok C" "aes_ok (pl_aes L)"
    and "cs_suite K = suite" "cs_reference K = password_reference (pp_password password)"
    and "cs_key K = password_key (pl_sha256 L) (pp_password password)"
    and "length (cs_nonce K) \<in> {16, 32, 48, 64}"
    and "template_served (pp_password password) (sw_from_bytes (fst (cs_status K)) (snd (cs_status K))) counter"
    and "sampled C draw r x r1" "sampled C draw r1 u r2" "sound_run C K x u"
  shows "\<exists>k_enc k_mac session.
    run_pace L (pace_card L K) draw card_access password (Idle, r) = Some ((Secured k_enc k_mac, r2), Ok session) \<and>
    ps_opened_by session = pp_opened_by password counter \<and>
    in_step k_enc k_mac (sm_new \<lparr>sc_card = s, sc_ssc = SSC_INITIAL\<rparr> session)"
proof -
  define U V where "U = cv_mul C (mapped_generator C K x) u" and "V = cv_mul C (mapped_generator C K x) (cs_v K)"
  define k_enc k_mac where "k_enc = kdf_aes256 (pl_sha256 L) (shared_x C K x u) KdfEncryption"
    and "k_mac = kdf_aes256 (pl_sha256 L) (shared_x C K x u) KdfMac"
  define keys where "keys = \<lparr>sk_enc = k_enc, sk_mac = k_mac, sk_ssc = SSC_INITIAL\<rparr>"
  have points: "\<not> cv_is_identity C U" "\<not> cv_is_identity C V" "\<not> cv_is_identity C (cv_mul C V u)"
    using assms(12) by (simp_all add: sound_run_def Let_def U_def V_def)
  note template = set_template_card [OF assms(5,6,9)]
  note nonce = get_nonce_card [OF assms(4,7,8)]
  have C: "C = pl_curve L (pi_domain (cs_suite K))" by (simp add: assms(2,5))
  note agreement = key_agreement_card [OF C assms(3,12,10,11), folded U_def V_def k_enc_def k_mac_def]
  have shared: "shared_x C K x u = cv_affine_x C (cv_mul C V u)" by (simp add: shared_x_def V_def)
  note mutual = mutual_authentication_card [OF assms(2,3,4,5) points, folded shared, folded k_enc_def k_mac_def, folded keys_def]
  have "run_pace L (pace_card L K) draw card_access password (Idle, r) =
      Some ((Secured k_enc k_mac, r2), Ok \<lparr>ps_keys = keys, ps_opened_by = pp_opened_by password counter\<rparr>)"
    by (simp add: run_pace_def run_pace_drawing_def handshake_def then_may_def on_card_def done_with_def
        assms(1) assms(2) [symmetric] template nonce agreement mutual)
  then show ?thesis
    by (intro exI [of _ k_enc] exI [of _ k_mac] exI [of _ "\<lparr>ps_keys = keys, ps_opened_by = pp_opened_by password counter\<rparr>"])
      (simp add: in_step_def sm_new_def keys_def)
qed

text \<open>A small group, a source and a card for the concrete instance.\<close>

definition octet_curve :: "(u8, u8) curve_library" where
  "octet_curve =
     \<lparr>cv_generator = 1, cv_add = (+), cv_mul = (*), cv_is_identity = (\<lambda>p. p = 0), cv_sec1 = (\<lambda>p. [4, p]),
      cv_uncompressed_len = 2, cv_is_uncompressed = (\<lambda>bs. hd bs = 4), cv_affine = (\<lambda>bs. Some (bs ! 1)),
      cv_affine_x = (\<lambda>p. [p]), cv_field_len = 1,
      cv_nonzero_scalar = (\<lambda>bs. if hd bs = 0 then None else Some (hd bs)),
      cv_scalar_zero = 0, cv_scalar_of = ucast, cv_scalar_add = (+), cv_scalar_mul = (*)\<rparr>"

definition octet_library :: "(u8, u8) pace_library" where
  "octet_library = \<lparr>pl_aes = xor_library, pl_sha256 = (\<lambda>bs. take 32 (bs @ replicate 32 0)), pl_curve = (\<lambda>_. octet_curve)\<rparr>"

fun listed_draws :: "(bytes list, unit) scalar_source" where
  "listed_draws n [] = ([], Err ())"
| "listed_draws n (b # bs) = (bs, Ok b)"

definition sample_secrets :: "(u8, u8) card_secrets" where
  "sample_secrets =
     \<lparr>cs_suite = \<lparr>pi_mapping = Generic, pi_domain = NistP384\<rparr>, cs_reference = 0x02,
      cs_key = password_key (pl_sha256 octet_library) (PasswordCan (Can [0x31, 0x32, 0x33, 0x34, 0x35, 0x36])),
      cs_status = (0x90, 0x00), cs_nonce = replicate 15 1 @ [7], cs_y = 9, cs_v = 11\<rparr>"

lemma octet_curve_ok: "curve_ok octet_curve"
  by (simp add: curve_ok_def octet_curve_def mult.assoc mult.commute [of "_ :: u8"])

lemma sample_nonce: "scalar_from_nonce octet_curve (replicate 15 1 @ [7]) = 7"
  by code_simp

lemma sample_facts:
  fixes password
  defines "password \<equiv> can_pace_password (Can [0x31, 0x32, 0x33, 0x34, 0x35, 0x36])"
    and "suite \<equiv> \<lparr>pi_mapping = Generic, pi_domain = NistP384\<rparr>"
  shows "generic_mapping_suite [suite] = Some suite" "octet_curve = pl_curve octet_library (pi_domain suite)"
    "curve_ok octet_curve" "aes_ok (pl_aes octet_library)" "cs_suite sample_secrets = suite"
    "cs_reference sample_secrets = password_reference (pp_password password)"
    "cs_key sample_secrets = password_key (pl_sha256 octet_library) (pp_password password)"
    "length (cs_nonce sample_secrets) \<in> {16, 32, 48, 64}"
    "template_served (pp_password password)
      (sw_from_bytes (fst (cs_status sample_secrets)) (snd (cs_status sample_secrets))) None"
    "sampled octet_curve listed_draws [[0], [3], [5]] 3 [[5]]" "sampled octet_curve listed_draws [[5]] 5 []"
    "sound_run octet_curve sample_secrets 3 5"
proof -
  show "generic_mapping_suite [suite] = Some suite" by (simp add: generic_mapping_suite_eq suite_def)
  show "octet_curve = pl_curve octet_library (pi_domain suite)" by (simp add: octet_library_def)
  show "curve_ok octet_curve" by (rule octet_curve_ok)
  show "aes_ok (pl_aes octet_library)" by (simp add: octet_library_def xor_library_ok)
  show "cs_suite sample_secrets = suite" "cs_reference sample_secrets = password_reference (pp_password password)"
    "cs_key sample_secrets = password_key (pl_sha256 octet_library) (pp_password password)"
    "length (cs_nonce sample_secrets) \<in> {16, 32, 48, 64}"
    by (simp_all add: sample_secrets_def suite_def password_def can_pace_password_def)
  have "sw_is_success (sw_from_u16 (u16_of_be 0x90 0x00))" by code_simp
  then show "template_served (pp_password password)
      (sw_from_bytes (fst (cs_status sample_secrets)) (snd (cs_status sample_secrets))) None"
    by (simp add: template_served_def sample_secrets_def password_def can_pace_password_def sw_from_bytes_def)
  show "sampled octet_curve listed_draws [[0], [3], [5]] 3 [[5]]" "sampled octet_curve listed_draws [[5]] 5 []"
    by (rule sampled_later [where r' = "[[3], [5]]" and buffer = "[0]"]; (rule sampled_now [where buffer = "[3]"])?)
      (simp_all add: octet_curve_def sampled_now [where buffer = "[5]"])
  have "mapped_generator octet_curve sample_secrets 3 = 34"
    by (simp add: mapped_generator_def sample_secrets_def sample_nonce) (simp add: octet_curve_def)
  then show "sound_run octet_curve sample_secrets 3 5"
    by (simp add: sound_run_def Let_def) (simp add: octet_curve_def sample_secrets_def)
qed

section \<open>Properties\<close>



lemma then_may_Ok:
  "then_may m f sr = Some (sr', Ok y) \<longleftrightarrow> (\<exists>x sr1. m sr = Some (sr1, Ok x) \<and> f x sr1 = Some (sr', Ok y))"
  by (auto simp: then_may_def split: option.splits prod.splits result.splits)

lemma on_card_Ok: "on_card m sr = Some (sr', Ok x) \<longleftrightarrow> m (fst sr) = (fst sr', Ok x) \<and> snd sr' = snd sr"
  by (cases sr; cases sr') (auto simp: on_card_def split: prod.splits)

lemma pace_transmit_Ok: "pace_transmit tp c s = (s', Ok raw) \<longleftrightarrow> transmit tp c s = (s', Ok (Response raw))"
  by (auto simp: pace_transmit_def result_simps split: prod.splits elim!: into_response.elims)

lemma ga_round_Ok:
  assumes "ga_round tp password chain payload stage tag s = (s', Ok inner)"
  shows "\<exists>command raw. transmit tp command s = (s', Ok (Response raw)) \<and> template_value tag (rsp_body raw) = Some inner"
proof -
  from assms obtain command raw outer n k where "transmit tp command s = (s', Ok (Response raw))"
    "ber_parse_typed 0x7C (rsp_body raw) = Ok (outer, n)" "ber_parse_typed tag outer = Ok (inner, k)"
    by (auto simp: ga_round_def exchange_round_def done_with_def result_simps pace_transmit_Ok
        elim!: then_do_OkE split: if_splits)
  then show ?thesis by (intro exI [of _ command] exI [of _ raw]) (simp add: template_value_def)
qed

lemma mutual_authentication_Ok:
  assumes "run_mutual_authentication L tp suite password state s = (s', Ok keys)"
  defines "C \<equiv> pl_curve L (pi_domain suite)"
  shows "\<exists>command raw x token. transmit tp command s = (s', Ok (Response raw)) \<and>
    x_coordinate C (cv_mul C (mid_v_picc state) (mid_u_pcd state)) = Some x \<and>
    keys = \<lparr>sk_enc = kdf_aes256 (pl_sha256 L) x KdfEncryption, sk_mac = kdf_aes256 (pl_sha256 L) x KdfMac,
      sk_ssc = SSC_INITIAL\<rparr> \<and>
    encode_auth_token C suite (mid_u_pcd_public state) = Some token \<and>
    template_value 0x86 (rsp_body raw) = Some (take 8 (cmac_tag (pl_aes L) (sk_mac keys) token))"
  using assms(1) unfolding run_mutual_authentication_def C_def [symmetric] Let_def
  by (auto simp: done_with_def result_simps aes256_cmac_truncated_def elim!: then_do_OkE dest!: ga_round_Ok split: if_splits)
    blast



text \<open>How many commands an operation sends, seen on a recording transport.\<close>

definition sends_at_most :: "nat \<Rightarrow> ('s \<times> sent list, 'a, 'x) transport_op \<Rightarrow> bool" where
  "sends_at_most n m \<longleftrightarrow> (\<forall>sl. \<exists>new. snd (fst (m sl)) = snd sl @ new \<and> length new \<le> n)"

lemma sends_done [intro]: "sends_at_most n (done_with r)"
  by (simp add: sends_at_most_def done_with_def)

lemma sends_then_do:
  assumes "sends_at_most n m" "\<And>x. sends_at_most k (f x)"
  shows "sends_at_most (n + k) (then_do m f)"
  unfolding sends_at_most_def
proof
  fix sl
  obtain sl' x where m: "m sl = (sl', x)" by fastforce
  obtain new where new: "snd sl' = snd sl @ new" "length new \<le> n" using assms(1) m unfolding sends_at_most_def by (metis fst_conv)
  show "\<exists>new. snd (fst (then_do m f sl)) = snd sl @ new \<and> length new \<le> n + k"
  proof (cases x)
    case (Ok y)
    obtain more where "snd (fst (f y sl')) = snd sl' @ more" "length more \<le> k"
      using assms(2) [of y] unfolding sends_at_most_def by blast
    with new show ?thesis by (intro exI [of _ "new @ more"]) (simp add: then_do_def m Ok)
  next
    case (Err e)
    with new show ?thesis by (intro exI [of _ new]) (simp add: then_do_def m)
  qed
qed

lemma sends_after_check: "(\<And>x. sends_at_most k (f x)) \<Longrightarrow> sends_at_most k (then_do (done_with r) f)"
  using sends_then_do [of 0 "done_with r" k f] by auto

lemma sends_one_then: "sends_at_most 1 m \<Longrightarrow> (\<And>x. sends_at_most 0 (f x)) \<Longrightarrow> sends_at_most 1 (then_do m f)"
  using sends_then_do [of 1 m 0 f] by simp

lemma sends_transmit: "sends_at_most 1 (pace_transmit (recording tp) c)"
  by (auto simp: sends_at_most_def pace_transmit_def recording_def split: prod.splits)

lemma sends_exchange: "sends_at_most 1 (exchange_round (recording tp) password c stage)"
  unfolding exchange_round_def
  by (rule sends_one_then [OF sends_transmit]) auto

lemma sends_round: "sends_at_most 1 (ga_round (recording tp) password chain payload stage tag)"
  unfolding ga_round_def
  by (rule sends_after_check, rule sends_one_then [OF sends_exchange])
    (auto simp: split_beta intro!: sends_after_check)

lemma sends_template: "sends_at_most 1 (set_authentication_template (recording tp) suite password)"
  unfolding set_authentication_template_def
  by (rule sends_after_check, rule sends_after_check, rule sends_one_then [OF sends_transmit])
    (auto simp: Let_def split: option.splits intro!: sends_after_check)

lemma sends_nonce: "sends_at_most 1 (get_encrypted_nonce L (recording tp) password)"
  unfolding get_encrypted_nonce_def
  by (rule sends_after_check, rule sends_one_then [OF sends_round])
    (auto simp: Let_def intro!: sends_after_check)

lemma sends_point: "sends_at_most 1 (point_round C (recording tp) password rt ours stage at)"
  unfolding point_round_def
  by (rule sends_after_check, rule sends_after_check, rule sends_one_then [OF sends_round])
    (auto intro!: sends_after_check)

lemma sends_mutual: "sends_at_most 1 (run_mutual_authentication L (recording tp) suite password state)"
  unfolding run_mutual_authentication_def Let_def
  by (rule sends_after_check, rule sends_after_check, rule sends_after_check, rule sends_one_then [OF sends_round])
    (auto intro!: sends_after_check)

definition may_send :: "nat \<Rightarrow> ('s \<times> sent list, 'r, 'a, 'e, 'f) drawing_op \<Rightarrow> bool" where
  "may_send n m \<longleftrightarrow>
     (\<forall>sl r sl' r' x. m (sl, r) = Some ((sl', r'), x) \<longrightarrow> (\<exists>new. snd sl' = snd sl @ new \<and> length new \<le> n))"

lemma may_send_on_card: "sends_at_most n m \<Longrightarrow> may_send n (on_card m)"
  unfolding may_send_def sends_at_most_def on_card_def by (auto split: prod.splits) (metis fst_conv snd_conv)

lemma may_send_on_source: "may_send 0 (on_source m)"
  by (auto simp: may_send_def on_source_def)

lemma may_send_then:
  assumes "may_send n m" "\<And>x. may_send k (f x)"
  shows "may_send (n + k) (then_may m f)"
  unfolding may_send_def
proof (intro allI impI)
  fix sl r sl' r' x
  assume run: "then_may m f (sl, r) = Some ((sl', r'), x)"
  then obtain sl1 r1 y where m: "m (sl, r) = Some ((sl1, r1), y)"
    by (auto simp: then_may_def split: option.splits prod.splits)
  obtain new where new: "snd sl1 = snd sl @ new" "length new \<le> n" using assms(1) m unfolding may_send_def by blast
  show "\<exists>new. snd sl' = snd sl @ new \<and> length new \<le> n + k"
  proof (cases y)
    case (Ok z)
    then have "f z (sl1, r1) = Some ((sl', r'), x)" using run m by (simp add: then_may_def)
    then obtain more where "snd sl' = snd sl1 @ more" "length more \<le> k" using assms(2) [of z] unfolding may_send_def by blast
    with new show ?thesis by (intro exI [of _ "new @ more"]) simp
  next
    case (Err e)
    with run m new show ?thesis by (intro exI [of _ new]) (simp add: then_may_def)
  qed
qed

lemma may_send_rest:
  "may_send 4 (then_may (on_card (get_encrypted_nonce L (recording tp) password)) (\<lambda>nonce.
     then_may (map_nonce_and_key_agreement C (recording tp) draw password nonce) (\<lambda>state.
     then_may (on_card (run_mutual_authentication L (recording tp) suite password state)) (\<lambda>keys.
       on_card (done_with (g keys))))))"
proof -
  have agree: "may_send (0 + (1 + (0 + (1 + 0)))) (map_nonce_and_key_agreement C (recording tp) draw password nonce)" for nonce
    unfolding map_nonce_and_key_agreement_def Let_def
    by (intro may_send_then may_send_on_source may_send_on_card sends_point sends_done)
  have "may_send (1 + ((0 + (1 + (0 + (1 + 0)))) + (1 + 0))) (then_may (on_card (get_encrypted_nonce L (recording tp) password)) (\<lambda>nonce.
     then_may (map_nonce_and_key_agreement C (recording tp) draw password nonce) (\<lambda>state.
     then_may (on_card (run_mutual_authentication L (recording tp) suite password state)) (\<lambda>keys.
       on_card (done_with (g keys))))))"
    by (intro may_send_then agree may_send_on_card sends_nonce sends_mutual sends_done)
  then show ?thesis by (simp add: eval_nat_numeral)
qed

lemma template_floored:
  assumes "set_authentication_template (recording tp) suite password (s, []) = ((s1, log), Ok counter)"
    "floored_credential password = Some credential"
  shows "\<exists>c raw st. log = [SentPlain (cmd_bytes c)] \<and> take 4 (cmd_bytes c) = [0x00, 0x22, 0xC1, 0xA4] \<and>
    transmit tp c s = (s1, Ok (Response raw)) \<and> template_tries (status_word raw) = Some st \<and>
    check_retry_floor credential st = Ok ()"
proof -
  from assms obtain data c raw st where "mse_set_at_into_apdu data = Ok c"
    "transmit (recording tp) c (s, []) = ((s1, log), Ok (Response raw))"
    "template_tries (status_word raw) = Some st" "check_retry_floor credential st = Ok ()"
    by (auto simp: set_authentication_template_def done_with_def Let_def result_simps pace_transmit_Ok
        mse_pin_status_Ok elim!: then_do_OkE) metis
  moreover from this(1) have "take 4 (cmd_bytes c) = [0x00, 0x22, 0xC1, 0xA4]"
    by (auto simp: mse_set_at_into_apdu_def case_3_def result_simps from_wire_def header_to_bytes_def)
  moreover from calculation(2) have "transmit tp c s = (s1, Ok (Response raw))" "log = [SentPlain (cmd_bytes c)]"
    by (auto simp: recording_def split: prod.splits)
  ultimately show ?thesis by blast
qed


definition weary_card :: "(unit, string) CardTransport" where
  "weary_card =
     \<lparr>transmit = (\<lambda>c s. (s, Ok (Response \<lparr>rsp_body = [], rsp_sw1 = 0x63, rsp_sw2 = 0xC2\<rparr>))),
      transmit_credential = (\<lambda>c s. (s, Ok (Response \<lparr>rsp_body = [], rsp_sw1 = 0x63, rsp_sw2 = 0xC2\<rparr>)))\<rparr>"


end
