(* ===== verification/Pace_Channel.thy ===== *)
theory Pace_Channel
  imports Pace_Handshake
begin

text \<open>
  PIN management on a channel PACE opened: \<open>crates/auth/src/pace_channel.rs\<close>, the channels of
  \<open>crates/pace/src/secure_messaging.rs\<close> that implement its traits, and the counter records of
  \<open>handshake.rs\<close>. A channel keeps the tries of its credential as the card last reported them; the
  locale \<open>counter_channel\<close> states what the operations rely on and its lemmas show that the record
  never rises. Against a card that counts its tries, no sequence of resets on the channel spends one
  of the last two tries of the PUK.
\<close>

section \<open>The channels\<close>

abbreviation (input) CHANNEL_NUMBERING :: PinReferenceScheme where "CHANNEL_NUMBERING \<equiv> Organizational"

datatype 'c ChannelProof = PaceHandshake | PresentAgain 'c

record ('s, 'e) PukPaceChannel =
  puk_transport :: "('s, 'e) CardTransport"
  puk_counter :: "'s \<Rightarrow> PinStatus"
  lower_puk_counter :: "ManageOutcome \<Rightarrow> 's \<Rightarrow> 's"

record ('s, 'e) Pin1PaceChannel =
  pin1_transport :: "('s, 'e) CardTransport"
  pin1_counter :: "'s \<Rightarrow> PinStatus"
  lower_pin1_counter :: "ManageOutcome \<Rightarrow> 's \<Rightarrow> 's"

fun lowered_counter :: "PinStatus \<Rightarrow> ManageOutcome \<Rightarrow> PinStatus" where
  "lowered_counter record ManageOk = record"
| "lowered_counter PinLocked _ = PinLocked"
| "lowered_counter NoInfo _ = NoInfo"
| "lowered_counter (StatusOther sw) _ = StatusOther sw"
| "lowered_counter _ ManageLocked = PinLocked"
| "lowered_counter _ (ManageOther _) = NoInfo"
| "lowered_counter (Remaining held) (WrongCredential retries_left) =
     (if retries_get held < retries_get retries_left then Remaining held
      else if retries_is_exhausted retries_left then PinLocked
      else Remaining retries_left)"
| "lowered_counter PinVerified (WrongCredential retries_left) =
     (if retries_is_exhausted retries_left then PinLocked else Remaining retries_left)"

definition lower_pin1 :: "ManageOutcome \<Rightarrow> OpenedByPin1 \<Rightarrow> OpenedByPin1" where
  "lower_pin1 answer opened = OpenedByPin1 (lowered_counter (pin1_counter_held opened) answer)"

definition lower_puk :: "ManageOutcome \<Rightarrow> OpenedByPuk \<Rightarrow> OpenedByPuk" where
  "lower_puk answer opened = OpenedByPuk (lowered_counter (puk_counter_held opened) answer)"

definition spend_pin2_presentation ::
  "('s, OpenedByPin2) SmTransport \<Rightarrow> ('s, OpenedByPin2) SmTransport \<times> (unit, Pin2PresentationSpent) result"
where
  "spend_pin2_presentation m =
     (case spend (sm_opened_by m) of (opened, r) \<Rightarrow> (m\<lparr>sm_opened_by := opened\<rparr>, r))"

definition sm_puk_channel ::
  "aes_library \<Rightarrow> ('s, 'e) CardTransport \<Rightarrow> (('s, OpenedByPuk) SmTransport, 'e SmError) PukPaceChannel"
where
  "sm_puk_channel A tp =
     \<lparr>puk_transport = sm_transport A tp,
      puk_counter = (\<lambda>m. puk_counter_held (sm_opened_by m)),
      lower_puk_counter = (\<lambda>answer m. m\<lparr>sm_opened_by := lower_puk answer (sm_opened_by m)\<rparr>)\<rparr>"

definition sm_pin1_channel ::
  "aes_library \<Rightarrow> ('s, 'e) CardTransport \<Rightarrow> (('s, OpenedByPin1) SmTransport, 'e SmError) Pin1PaceChannel"
where
  "sm_pin1_channel A tp =
     \<lparr>pin1_transport = sm_transport A tp,
      pin1_counter = (\<lambda>m. pin1_counter_held (sm_opened_by m)),
      lower_pin1_counter = (\<lambda>answer m. m\<lparr>sm_opened_by := lower_pin1 answer (sm_opened_by m)\<rparr>)\<rparr>"

section \<open>The operations\<close>

definition reset_after_puk_pace ::
  "('s, 'e) PukPaceChannel \<Rightarrow> CardPinLengths \<Rightarrow> PinSlot \<Rightarrow> bytes \<Rightarrow> Puk ChannelProof \<Rightarrow>
   ('s, ManageOutcome, 'e) card_op" where
  "reset_after_puk_pace channel lengths slot fresh proof =
     (let tp = puk_transport channel; reset = reset_new_only tp CHANNEL_NUMBERING slot fresh in
      case proof of
        PaceHandshake \<Rightarrow> reset
      | PresentAgain puk \<Rightarrow>
          then_do (check_length (check_puk lengths puk)) (\<lambda>_.
          then_do (\<lambda>s. (s, map_err AuthRetryFloor (check_retry_floor FlooredPuk (puk_counter channel s)))) (\<lambda>_.
          then_do (verify_puk tp CHANNEL_NUMBERING (puk_digits puk)) (\<lambda>verified.
          then_do (\<lambda>s. (lower_puk_counter channel verified s, Ok ())) (\<lambda>_.
            if verified \<noteq> ManageOk then done_with (Ok verified) else reset)))))"

definition reset_pin1_after_puk_pace ::
  "('s, 'e) PukPaceChannel \<Rightarrow> CardPinLengths \<Rightarrow> Pin1 \<Rightarrow> Puk ChannelProof \<Rightarrow>
   ('s, ManageOutcome, 'e) card_op" where
  "reset_pin1_after_puk_pace channel lengths fresh proof =
     then_do (check_length (check_pin1 lengths fresh)) (\<lambda>_.
       reset_after_puk_pace channel lengths SlotPin1 (pin1_digits fresh) proof)"

definition reset_pin2_after_puk_pace ::
  "('s, 'e) PukPaceChannel \<Rightarrow> CardPinLengths \<Rightarrow> Pin2 \<Rightarrow> Puk ChannelProof \<Rightarrow>
   ('s, ManageOutcome, 'e) card_op" where
  "reset_pin2_after_puk_pace channel lengths fresh proof =
     then_do (check_length (check_pin2 lengths fresh)) (\<lambda>_.
       reset_after_puk_pace channel lengths SlotPin2 (pin2_digits fresh) proof)"

definition change_pin1_after_pin1_pace ::
  "('s, 'e) Pin1PaceChannel \<Rightarrow> CardPinLengths \<Rightarrow> Pin1 \<Rightarrow> Pin1 ChannelProof \<Rightarrow>
   ('s, ManageOutcome, 'e) card_op" where
  "change_pin1_after_pin1_pace channel lengths fresh proof =
     (let tp = pin1_transport channel in
      then_do (check_length (check_pin1 lengths fresh)) (\<lambda>_.
      case proof of
        PaceHandshake \<Rightarrow> reset_new_only tp CHANNEL_NUMBERING SlotPin1 (pin1_digits fresh)
      | PresentAgain current \<Rightarrow>
          then_do (check_length (check_pin1 lengths current)) (\<lambda>_.
          then_do (\<lambda>s. (s, map_err AuthRetryFloor (check_retry_floor FlooredPin1 (pin1_counter channel s)))) (\<lambda>_.
          then_do (change_pin tp CHANNEL_NUMBERING SlotPin1 (pin1_digits current) (pin1_digits fresh)) (\<lambda>outcome.
          then_do (\<lambda>s. (lower_pin1_counter channel outcome s, Ok ())) (\<lambda>_.
            done_with (Ok outcome)))))))"

section \<open>Sequences of calls\<close>

text \<open>The calls on a PUK channel and on a PIN 1 channel, and runs of them in any order.\<close>

datatype puk_channel_call =
    CallResetPin1 CardPinLengths Pin1 "Puk ChannelProof"
  | CallResetPin2 CardPinLengths Pin2 "Puk ChannelProof"

fun puk_channel_perform :: "('s, 'e) PukPaceChannel \<Rightarrow> puk_channel_call \<Rightarrow> 's \<Rightarrow> 's" where
  "puk_channel_perform ch (CallResetPin1 l fresh proof) = outcome_only (reset_pin1_after_puk_pace ch l fresh proof)"
| "puk_channel_perform ch (CallResetPin2 l fresh proof) = outcome_only (reset_pin2_after_puk_pace ch l fresh proof)"

definition puk_channel_run :: "('s, 'e) PukPaceChannel \<Rightarrow> puk_channel_call list \<Rightarrow> 's \<Rightarrow> 's" where
  "puk_channel_run ch calls s = fold (puk_channel_perform ch) calls s"

definition pin1_channel_run ::
  "('s, 'e) Pin1PaceChannel \<Rightarrow> (CardPinLengths \<times> Pin1 \<times> Pin1 ChannelProof) list \<Rightarrow> 's \<Rightarrow> 's" where
  "pin1_channel_run ch calls s =
     fold (\<lambda>(l, fresh, proof). outcome_only (change_pin1_after_pin1_pace ch l fresh proof)) calls s"

text \<open>What can happen to a channel PIN 2 opened.\<close>

datatype 's pin2_event = SpendPresentation | SendOn CredentialCommand | Rebuild 's

fun pin2_step :: "aes_library \<Rightarrow> ('s, 'e) CardTransport \<Rightarrow> 's pin2_event \<Rightarrow>
  ('s, OpenedByPin2) SmTransport \<times> nat \<Rightarrow> ('s, OpenedByPin2) SmTransport \<times> nat" where
  "pin2_step A tp SpendPresentation (m, n) =
     (case spend_pin2_presentation m of (m', r) \<Rightarrow> (m', if is_ok r then n + 1 else n))"
| "pin2_step A tp (SendOn c) (m, n) = (fst (transmit_credential (sm_transport A tp) c m), n)"
| "pin2_step A tp (Rebuild inner) (m, n) = (sm_new inner (snd (sm_into_parts m)), n)"

section \<open>The record\<close>

text \<open>How a counter record orders: a count below a count, and blocked or unknown below everything.\<close>

fun not_higher :: "PinStatus \<Rightarrow> PinStatus \<Rightarrow> bool" where
  "not_higher (Remaining m) (Remaining n) \<longleftrightarrow> retries_get m \<le> retries_get n"
| "not_higher (Remaining m) st \<longleftrightarrow> st = PinVerified"
| "not_higher PinVerified st \<longleftrightarrow> st = PinVerified"
| "not_higher (StatusOther sw) st \<longleftrightarrow> st = StatusOther sw"
| "not_higher PinLocked st \<longleftrightarrow> st \<noteq> NoInfo \<and> (\<forall>sw. st \<noteq> StatusOther sw)"
| "not_higher NoInfo st \<longleftrightarrow> st \<noteq> PinLocked \<and> (\<forall>sw. st \<noteq> StatusOther sw)"

lemma not_higher_refl [simp]: "not_higher st st"
  by (cases st) simp_all

lemma not_higher_trans: "not_higher a b \<Longrightarrow> not_higher b c \<Longrightarrow> not_higher a c"
  by (cases a; cases b; cases c) auto

lemma lowered_not_higher: "not_higher (lowered_counter st answer) st"
  by (cases "(st, answer)" rule: lowered_counter.cases) (auto simp: not_less)

text \<open>
  What the operations rely on: commands leave the record alone, and lowering it is
  \<open>lowered_counter\<close>.
\<close>

locale counter_channel =
  fixes tp :: "('s, 'e) CardTransport" and held :: "'s \<Rightarrow> PinStatus"
    and lower :: "ManageOutcome \<Rightarrow> 's \<Rightarrow> 's"
  assumes credential_keeps: "held (fst (transmit_credential tp c s)) = held s"
    and lower_lowers: "held (lower answer s) = lowered_counter (held s) answer"
begin

lemma exchange_keeps_record: "held (fst (manage_exchange tp scheme header groups s)) = held s"
  unfolding manage_exchange_state
  by (rule credential_exchange_shape [of tp scheme header groups s]) (simp_all add: credential_keeps)

lemma lowered_record: "not_higher (held (lower answer s)) (held s)"
  by (simp add: lower_lowers lowered_not_higher)

lemma present_record:
  assumes "\<And>verified s. not_higher (held (fst (k verified s))) (held s)"
  shows "not_higher (held (fst (then_do (manage_exchange tp scheme header groups) (\<lambda>verified.
     then_do (\<lambda>s. (lower verified s, Ok ())) (\<lambda>_. k verified)) s))) (held s)"
proof -
  obtain s1 r where run: "manage_exchange tp scheme header groups s = (s1, r)" by fastforce
  have same: "held s1 = held s" using exchange_keeps_record [of scheme header groups s] run by simp
  have "not_higher (held (fst (k v (lower v s1)))) (held s1)" for v
    by (rule not_higher_trans [OF assms lowered_record])
  then show ?thesis using same by (cases r) (simp_all add: then_do_def run)
qed

lemma reset_record:
  "not_higher (held (fst (reset_after_puk_pace
     \<lparr>puk_transport = tp, puk_counter = held, lower_puk_counter = lower\<rparr> lengths slot fresh proof s))) (held s)"
proof (cases "proof")
  case (PresentAgain puk)
  have "not_higher (held (fst (if verified \<noteq> ManageOk then done_with (Ok verified) s
      else reset_new_only tp CHANNEL_NUMBERING slot fresh s))) (held s)" for verified s
    by (simp add: reset_new_only_def exchange_keeps_record done_with_def)
  then show ?thesis
    using present_record [of "\<lambda>verified. if verified \<noteq> ManageOk then done_with (Ok verified)
        else reset_new_only tp CHANNEL_NUMBERING slot fresh"]
    by (auto simp: reset_after_puk_pace_def PresentAgain verify_puk_def check_length_def done_with_def
        Let_def if_distribR then_do_def split: result.splits)
qed (simp add: reset_after_puk_pace_def reset_new_only_def exchange_keeps_record)

lemma change_record:
  "not_higher (held (fst (change_pin1_after_pin1_pace
     \<lparr>pin1_transport = tp, pin1_counter = held, lower_pin1_counter = lower\<rparr> lengths fresh proof s))) (held s)"
proof (cases "proof")
  case (PresentAgain current)
  show ?thesis
    using present_record [of "\<lambda>outcome. done_with (Ok outcome)"]
    by (auto simp: change_pin1_after_pin1_pace_def PresentAgain change_pin_def check_length_def done_with_def
        Let_def then_do_def split: result.splits)
qed (auto simp: change_pin1_after_pin1_pace_def reset_new_only_def exchange_keeps_record check_length_def
      done_with_def Let_def then_do_def split: result.splits)

end

text \<open>Nothing a secured exchange does touches the proof of the password that opened the channel.\<close>

lemma wrap_opened [simp]: "sm_opened_by (fst (sm_wrap A plain m)) = sm_opened_by m"
  by (auto simp: sm_wrap_def sm_step_def then_do_def done_with_def Let_def
      split: result.splits option.splits prod.splits if_splits)

lemma finish_opened [simp]: "sm_opened_by (fst (sm_finish A out m)) = sm_opened_by m"
  by (cases out) (auto simp: sm_unwrap_def sm_step_def then_do_def done_with_def split: result.splits prod.splits)

lemma on_inner_opened [simp]: "sm_opened_by (fst (on_inner f m)) = sm_opened_by m"
  by (simp add: on_inner_def split: prod.splits)

lemma then_do_opened:
  assumes "\<And>m. sm_opened_by (fst (f m)) = sm_opened_by m" "\<And>x m. sm_opened_by (fst (g x m)) = sm_opened_by m"
  shows "sm_opened_by (fst (then_do f g m)) = sm_opened_by m"
  using assms(1) [of m] assms(2) by (auto simp: then_do_def split: prod.splits result.splits)

lemma credential_opened:
  "sm_opened_by (fst (transmit_credential (sm_transport A tp) c m)) = sm_opened_by m"
  by (auto simp: sm_transport_def expose_wire_def done_with_def split: prod.splits intro!: then_do_opened)

interpretation sm_puk: counter_channel "sm_transport A tp"
    "\<lambda>m. puk_counter_held (sm_opened_by m)"
    "\<lambda>answer m. m\<lparr>sm_opened_by := lower_puk answer (sm_opened_by m)\<rparr>"
  by unfold_locales (simp_all add: credential_opened lower_puk_def)

interpretation sm_pin1: counter_channel "sm_transport A tp"
    "\<lambda>m. pin1_counter_held (sm_opened_by m)"
    "\<lambda>answer m. m\<lparr>sm_opened_by := lower_pin1 answer (sm_opened_by m)\<rparr>"
  by unfold_locales (simp_all add: credential_opened lower_pin1_def)

section \<open>The card behind the channel\<close>

text \<open>
  A card that counts the tries of the PUK: one presentation spends at most one try, no other command
  spends any, an exhausted PUK stays exhausted, and the answer to a presentation tells the tries
  that are left.
\<close>

definition counts_puk :: "'s plain_card \<Rightarrow> ('s \<Rightarrow> nat) \<Rightarrow> bool" where
  "counts_puk pc tries \<longleftrightarrow>
     (\<forall>w s. let (s', r) = pc w s in
        length (rsp_body r) < 2 ^ 31 \<and> tries s - 1 \<le> tries s' \<and> (tries s = 0 \<longrightarrow> tries s' = 0) \<and>
        (if presents_puk (take 4 w) then
           (case classify_manage_sw (status_word r) of
              ManageOk \<Rightarrow> tries s \<le> tries s'
            | WrongCredential n \<Rightarrow> unat (retries_get n) = tries s'
            | ManageLocked \<Rightarrow> tries s' = 0
            | ManageOther _ \<Rightarrow> True)
         else tries s \<le> tries s'))"

text \<open>A record never promises more tries than the card has.\<close>

fun record_tells :: "PinStatus \<Rightarrow> nat \<Rightarrow> bool" where
  "record_tells (Remaining n) t \<longleftrightarrow> unat (retries_get n) \<le> t \<and> (retries_is_exhausted n \<longrightarrow> t = 0)"
| "record_tells PinLocked t \<longleftrightarrow> t = 0"
| "record_tells _ t \<longleftrightarrow> True"

definition puk_known ::
  "bytes \<Rightarrow> bytes \<Rightarrow> ('s \<Rightarrow> nat) \<Rightarrow> ('s sm_card_state, OpenedByPuk) SmTransport \<Rightarrow> bool" where
  "puk_known k_enc k_mac tries m \<longleftrightarrow> in_step k_enc k_mac m \<and>
     record_tells (puk_counter_held (sm_opened_by m)) (tries (sc_card (sm_inner m)))"

abbreviation (input) tries_left :: "('s \<Rightarrow> nat) \<Rightarrow> ('s sm_card_state, 'o) SmTransport \<Rightarrow> nat" where
  "tries_left tries m \<equiv> tries (sc_card (sm_inner m))"

lemma exhausted_iff: "retries_is_exhausted n \<longleftrightarrow> unat (retries_get n) = 0"
  by (cases n) (simp add: retries_is_exhausted_def unat_eq_0)

lemma floor_record:
  assumes "check_retry_floor FlooredPuk st = Ok ()" "record_tells st t"
  shows "t = 0 \<or> 3 \<le> t"
  using assms by (auto simp: retry_floor_Ok retries_is_exhausted_def)

lemma record_tells_other:
  assumes "record_tells st t" "t \<le> t'" "t = 0 \<longrightarrow> t' = 0"
  shows "record_tells st t'"
  using assms by (cases st) auto

lemma lowered_tells:
  assumes "record_tells st t" "t = 0 \<longrightarrow> t' = 0"
    and "case answer of ManageOk \<Rightarrow> t \<le> t' | WrongCredential n \<Rightarrow> unat (retries_get n) = t'
      | ManageLocked \<Rightarrow> t' = 0 | ManageOther _ \<Rightarrow> True"
    and "st = PinLocked \<longrightarrow> t' = 0"
  shows "record_tells (lowered_counter st answer) t'"
proof (cases answer)
  case ManageOk
  with assms show ?thesis using record_tells_other by simp
next
  case (WrongCredential n)
  with assms show ?thesis
    by (cases st) (auto simp: exhausted_iff word_less_nat_alt)
qed (use assms in \<open>cases st; auto\<close>)+

lemma assembled_short:
  assumes "body_from_block b = Ok body"
  obtains data where "length data \<le> 24" "credential_wire (credential_assemble h body) = short_wire h data None"
proof -
  have body: "length (body_bytes body) = 24" "unat (body_length body) \<le> 24" "0 < unat (body_length body)"
    using assms by (auto simp: body_from_block_def Let_def credential_consts unat_of_nat split: if_splits)
  define data where "data = take (unat (body_length body)) (body_bytes body)"
  have "length data = unat (body_length body)" using body by (simp add: data_def)
  then have "credential_wire (credential_assemble h body) = short_wire h data None" "length data \<le> 24"
    using credential_assemble_wire [OF body(1,2), of h] body
    by (auto simp: short_wire_def data_def [symmetric])
  then show ?thesis by (rule that [rotated])
qed

text \<open>A management exchange over the channel is one with the plain card, or nothing is sent.\<close>

lemma channel_exchange:
  fixes inner :: "('s sm_card_state, 'e) CardTransport"
  assumes inner: "inner = sm_card A k_enc k_mac pc"
    and "aes_ok A" "in_step k_enc k_mac m" "hdr_class header = Plain" "counts_puk pc tries"
  shows "(\<exists>e. manage_exchange (sm_transport A inner) scheme header groups m = (m, Err e)) \<or>
    (\<exists>w s r. take 4 w = header_to_bytes header \<and> pc w (sc_card (sm_inner m)) = (s, r) \<and>
       manage_exchange (sm_transport A inner) scheme header groups m =
         (stepped m s, Ok (classify_manage_sw (status_word r))))"
proof -
  obtain out tot where w: "write_credential_blocks scheme groups
      (replicate (length (block_bytes block_zeroed)) PIN_PAD_BYTE) = (out, tot)" by force
  show ?thesis
  proof (cases "body_from_block (block_set_filled tot (block_zeroed\<lparr>block_bytes := out\<rparr>))")
    case (Ok body)
    then obtain data where data: "length data \<le> 24"
      "credential_wire (credential_assemble header body) = short_wire header data None"
      by (rule assembled_short)
    obtain s r where pc: "pc (short_wire header data None) (sc_card (sm_inner m)) = (s, r)" by force
    have small: "length (rsp_body r) < 2 ^ 31"
      using assms(5) [unfolded counts_puk_def, rule_format, of "short_wire header data None" "sc_card (sm_inner m)"] pc
      by (simp add: Let_def)
    have sent: "transmit_credential (sm_transport A inner) (credential_assemble header body) m =
        (stepped m s, Ok (Response r))"
      unfolding inner by (rule transmit_credential_sealed [where pc = pc, OF assms(2-4) data pc small])
    have "take 4 (short_wire header data None) = header_to_bytes header"
      by (simp add: short_wire_def header_to_bytes_def)
    moreover have "manage_exchange (sm_transport A inner) scheme header groups m =
        (stepped m s, Ok (classify_manage_sw (status_word r)))"
      using w by (simp add: manage_exchange_def credential_exchange_def Let_def Ok exchange_credential_def
          sent then_do_def done_with_def response_of_def)
    ultimately show ?thesis using pc by blast
  next
    case (Err e)
    then show ?thesis
      using w by (simp add: manage_exchange_def credential_exchange_def Let_def then_do_def done_with_def)
  qed
qed

lemma puk_verify_header: "presents_puk (header_to_bytes (pin_header VERIFY_INS VERIFY_P1 (puk_reference CHANNEL_NUMBERING)))"
  by (simp add: presents_puk_def header_to_bytes_def pin_header_def verify_consts reference_consts)

text \<open>The two steps of a reset: a command that does not present the PUK, and the presentation.\<close>

lemma other_command_kept:
  fixes inner :: "('s sm_card_state, 'e) CardTransport" and scheme :: PinReferenceScheme
    and groups :: "bytes list"
  assumes inner: "inner = sm_card A k_enc k_mac pc"
    and "aes_ok A" "counts_puk pc tries" "puk_known k_enc k_mac tries m"
    and "\<not> presents_puk (header_to_bytes header)" "hdr_class header = Plain"
  defines "m' \<equiv> fst (manage_exchange (sm_transport A inner) scheme header groups m)"
  shows "puk_known k_enc k_mac tries m' \<and> tries_left tries m \<le> tries_left tries m'"
proof -
  have step: "in_step k_enc k_mac m" using assms(4) by (simp add: puk_known_def)
  consider "m' = m" | w s r where "take 4 w = header_to_bytes header"
    "pc w (sc_card (sm_inner m)) = (s, r)" "m' = stepped m s"
    using channel_exchange [OF inner assms(2) step assms(6,3), of scheme groups] by (auto simp: m'_def)
  then show ?thesis
  proof cases
    case (2 w s r)
    have "tries_left tries m \<le> tries s" "tries_left tries m = 0 \<longrightarrow> tries s = 0"
      using assms(3) [unfolded counts_puk_def, rule_format, of w "sc_card (sm_inner m)"] 2(1,2) assms(5)
      by (simp_all add: Let_def)
    then show ?thesis
      using assms(4) record_tells_other in_step_stepped
      by (auto simp: puk_known_def 2(3) stepped_def Let_def in_step_def)
  qed (use assms(4) in simp)
qed

lemma presentation_kept:
  fixes inner :: "('s sm_card_state, 'e) CardTransport"
  assumes inner: "inner = sm_card A k_enc k_mac pc"
    and "aes_ok A" "counts_puk pc tries" "puk_known k_enc k_mac tries m"
    and "presents_puk (header_to_bytes header)" "hdr_class header = Plain"
    and "manage_exchange (sm_transport A inner) scheme header groups m = (m', r)"
  shows "case r of Err _ \<Rightarrow> m' = m
    | Ok answer \<Rightarrow> tries_left tries m - 1 \<le> tries_left tries m' \<and>
        puk_known k_enc k_mac tries (m'\<lparr>sm_opened_by := lower_puk answer (sm_opened_by m')\<rparr>)"
proof -
  have step: "in_step k_enc k_mac m" using assms(4) by (simp add: puk_known_def)
  consider e where "m' = m" "r = Err e" | w s a where "take 4 w = header_to_bytes header"
    "pc w (sc_card (sm_inner m)) = (s, a)" "m' = stepped m s" "r = Ok (classify_manage_sw (status_word a))"
    using channel_exchange [OF inner assms(2) step assms(6,3), of scheme groups] assms(7) by auto
  then show ?thesis
  proof cases
    case (2 w s a)
    let ?st = "puk_counter_held (sm_opened_by m)" and ?answer = "classify_manage_sw (status_word a)"
    have card: "tries_left tries m - 1 \<le> tries s" "tries_left tries m = 0 \<longrightarrow> tries s = 0"
      "case ?answer of ManageOk \<Rightarrow> tries_left tries m \<le> tries s
        | WrongCredential n \<Rightarrow> unat (retries_get n) = tries s | ManageLocked \<Rightarrow> tries s = 0 | ManageOther _ \<Rightarrow> True"
      using assms(3) [unfolded counts_puk_def, rule_format, of w "sc_card (sm_inner m)"] 2(1,2) assms(5)
      by (simp_all add: Let_def)
    have tells: "record_tells ?st (tries_left tries m)" using assms(4) by (simp add: puk_known_def)
    have "record_tells (lowered_counter ?st ?answer) (tries s)"
      using tells card(2) by (intro lowered_tells [OF tells card(2,3)]) auto
    then show ?thesis
      using card(1) step by (simp add: 2(3,4) puk_known_def lower_puk_def stepped_def Let_def in_step_def)
  qed simp
qed

lemma reset_kept:
  fixes inner :: "('s sm_card_state, 'e) CardTransport" and l :: CardPinLengths
    and slot :: PinSlot and fresh :: bytes and "proof" :: "Puk ChannelProof"
  assumes inner: "inner = sm_card A k_enc k_mac pc"
    and "aes_ok A" "counts_puk pc tries" "puk_known k_enc k_mac tries m"
  defines "m' \<equiv> fst (reset_after_puk_pace (sm_puk_channel A inner) l slot fresh proof m)"
  shows "puk_known k_enc k_mac tries m' \<and> min (tries_left tries m) 2 \<le> tries_left tries m'"
proof -
  let ?tp = "sm_transport A inner"
  have reset: "puk_known k_enc k_mac tries (fst (reset_new_only ?tp CHANNEL_NUMBERING slot fresh n)) \<and>
      tries_left tries n \<le> tries_left tries (fst (reset_new_only ?tp CHANNEL_NUMBERING slot fresh n))"
    if "puk_known k_enc k_mac tries n" for n
    unfolding reset_new_only_def
    by (rule other_command_kept [OF inner assms(2,3) that pin_commands_no_puk(3)]) (simp add: pin_header_def)
  show ?thesis
  proof (cases "\<exists>puk. proof = PresentAgain puk \<and> check_puk l puk = Ok () \<and>
      check_retry_floor FlooredPuk (puk_counter_held (sm_opened_by m)) = Ok ()")
    case False
    then have "m' = m \<or> m' = fst (reset_new_only ?tp CHANNEL_NUMBERING slot fresh m)"
      by (cases "proof") (auto simp: m'_def reset_after_puk_pace_def sm_puk_channel_def check_length_def
          then_do_def done_with_def Let_def map_err_Ok_iff split: result.splits)
    then show ?thesis using reset [OF assms(4)] assms(4) by auto
  next
    case True
    then obtain puk where puk: "proof = PresentAgain puk" "check_puk l puk = Ok ()"
      "check_retry_floor FlooredPuk (puk_counter_held (sm_opened_by m)) = Ok ()" by blast
    obtain m1 r where v: "verify_puk ?tp CHANNEL_NUMBERING (puk_digits puk) m = (m1, r)" by force
    have plain: "hdr_class (pin_header VERIFY_INS VERIFY_P1 (puk_reference CHANNEL_NUMBERING)) = Plain"
      by (simp add: pin_header_def)
    note shown = presentation_kept [OF inner assms(2-4) puk_verify_header plain v [unfolded verify_puk_def]]
    have floor: "tries_left tries m = 0 \<or> 3 \<le> tries_left tries m"
      using floor_record [OF puk(3)] assms(4) by (simp add: puk_known_def)
    show ?thesis
    proof (cases r)
      case (Ok answer)
      let ?n = "m1\<lparr>sm_opened_by := lower_puk answer (sm_opened_by m1)\<rparr>"
      have n: "puk_known k_enc k_mac tries ?n" "min (tries_left tries m) 2 \<le> tries_left tries ?n"
        using shown Ok floor by auto
      have "m' = (if answer \<noteq> ManageOk then ?n else fst (reset_new_only ?tp CHANNEL_NUMBERING slot fresh ?n))"
        using v Ok by (simp add: m'_def reset_after_puk_pace_def sm_puk_channel_def puk check_length_def
            then_do_def done_with_def Let_def)
      then show ?thesis using reset [OF n(1)] n by auto
    next
      case (Err e)
      then have "m' = m"
        using v shown by (simp add: m'_def reset_after_puk_pace_def sm_puk_channel_def puk check_length_def
            then_do_def done_with_def Let_def)
      then show ?thesis using assms(4) by simp
    qed
  qed
qed

lemma perform_reset:
  "\<exists>slot digits. puk_channel_perform ch call m = m \<or>
     puk_channel_perform ch call m = fst (reset_after_puk_pace ch
       (case call of CallResetPin1 l _ _ \<Rightarrow> l | CallResetPin2 l _ _ \<Rightarrow> l) slot digits
       (case call of CallResetPin1 _ _ p \<Rightarrow> p | CallResetPin2 _ _ p \<Rightarrow> p) m)"
  by (cases call) (auto simp: outcome_only_def reset_pin1_after_puk_pace_def reset_pin2_after_puk_pace_def
      check_length_def then_do_def done_with_def split: result.splits)

lemma run_invariant:
  assumes "\<And>call m. P (f call m) m" "\<And>m. P m m" "\<And>a b c. P a b \<Longrightarrow> P b c \<Longrightarrow> P a c"
  shows "P (fold f calls m) m"
proof (induction calls arbitrary: m)
  case (Cons call calls)
  show ?case using assms(3) [OF Cons.IH assms(1)] by simp
qed (simp add: assms(2))

lemma run_kept:
  fixes inner :: "('s sm_card_state, 'e) CardTransport"
  assumes "inner = sm_card A k_enc k_mac pc" "aes_ok A" "counts_puk pc tries" "puk_known k_enc k_mac tries m"
  shows "let m' = puk_channel_run (sm_puk_channel A inner) calls m in
    puk_known k_enc k_mac tries m' \<and> min (tries_left tries m) 2 \<le> tries_left tries m'"
  using assms(4)
proof (induction calls arbitrary: m)
  case (Cons call calls)
  let ?ch = "sm_puk_channel A inner"
  let ?n = "puk_channel_perform ?ch call m"
  obtain slot digits where n: "?n = m \<or> ?n = fst (reset_after_puk_pace ?ch
       (case call of CallResetPin1 l _ _ \<Rightarrow> l | CallResetPin2 l _ _ \<Rightarrow> l) slot digits
       (case call of CallResetPin1 _ _ p \<Rightarrow> p | CallResetPin2 _ _ p \<Rightarrow> p) m)"
    using perform_reset [of ?ch call m] by blast
  then have one: "puk_known k_enc k_mac tries ?n" "min (tries_left tries m) 2 \<le> tries_left tries ?n"
    using reset_kept [OF assms(1-3) Cons.prems] Cons.prems by auto
  show ?case using Cons.IH [OF one(1)] one(2) by (auto simp: puk_channel_run_def Let_def)
qed (simp add: puk_channel_run_def)

text \<open>A card that refuses every PUK and tells the tries that are left, behind a channel the PUK opened.\<close>

definition refusing_card :: "nat plain_card" where
  "refusing_card w t =
     (let t' = if presents_puk (take 4 w) then min t 15 - 1 else t in
      (t', \<lparr>rsp_body = [], rsp_sw1 = 0x63, rsp_sw2 = 0xC0 + of_nat (min t' 15)\<rparr>))"

definition puk_opened :: "nat \<Rightarrow> (nat sm_card_state, OpenedByPuk) SmTransport" where
  "puk_opened t = \<lparr>sm_inner = \<lparr>sc_card = t, sc_ssc = SSC_INITIAL\<rparr>, sm_k_enc = [1], sm_k_mac = [2],
     sm_ssc = SSC_INITIAL, sm_opened_by = OpenedByPuk (Remaining (PinRetries (of_nat t)))\<rparr>"

lemma refusing_card_counts: "counts_puk refusing_card (\<lambda>t. min t 15)"
proof -
  have small: "min (min t 15 - 1) 15 = min t 15 - (1 :: nat)" for t by simp
  have "sw_from_bytes 0x63 (0xC0 + of_nat (min t 15 - 1)) = PinIncorrect (PinRetries (of_nat (min t 15 - 1)))" for t
    using counter_answer [of "min t 15 - 1"] unfolding small .
  moreover have "unat (of_nat (min t 15 - 1) :: u8) = min t 15 - 1" for t
    by (simp add: unat_of_nat)
  ultimately show ?thesis
    by (auto simp: counts_puk_def refusing_card_def Let_def status_word_def simp del: One_nat_def)
qed

section \<open>Properties\<close>

text \<open>
  Property C14. No sequence of PIN resets on a channel the PUK opened spends one of the last two tries
  of the PUK. The card behind the channel counts its tries and answers a presentation with what is
  left. Whatever PINs and PUKs the calls carry and in whatever order they come, the card keeps
  two tries or as many as it had, the channel's record never promises more than the card has, and
  the two ends of the channel stay in step.
\<close>
theorem puk_channel_kept:
  assumes "aes_ok A" "counts_puk pc tries" "puk_known k_enc k_mac tries m"
  shows "let m' = puk_channel_run (sm_puk_channel A (sm_card A k_enc k_mac pc)) calls m in
    puk_known k_enc k_mac tries m' \<and> min (tries_left tries m) 2 \<le> tries_left tries m'"
  by (rule run_kept [OF refl assms])

theorem puk_channel_kept_witness:
  "let m' = puk_channel_run (sm_puk_channel xor_library (sm_card xor_library [1] [2] refusing_card :: (_, string) CardTransport))
      (replicate 9 (CallResetPin1 (not_listed Organizational) (Pin1 \<lparr>sd_bytes = replicate 12 0x32, sd_length = 4\<rparr>)
         (PresentAgain (Puk \<lparr>sd_bytes = replicate 12 0x31, sd_length = 8\<rparr>)))) (puk_opened 5)
   in in_step [1] [2] m' \<and> 2 \<le> sc_card (sm_inner m')"
  (is "let m' = ?run in _")
proof -
  have known: "puk_known [1] [2] (\<lambda>t. min t 15) (puk_opened 5)"
    by (simp add: puk_known_def puk_opened_def in_step_def retries_is_exhausted_def)
  have "puk_known [1] [2] (\<lambda>t. min t 15) ?run \<and>
      min (min (sc_card (sm_inner (puk_opened 5))) 15) 2 \<le> min (sc_card (sm_inner ?run)) 15"
    by (rule puk_channel_kept [OF xor_library_ok refusing_card_counts known, unfolded Let_def])
  then show ?thesis unfolding Let_def by (simp add: puk_known_def puk_opened_def)
qed

text \<open>
  The counter record of a channel only ever falls. Over any transport, whatever it
  answers, no run of resets on a PUK channel and no run of changes on a PIN 1 channel raises the
  tries its record holds, and a record that is blocked or unknown stays so.
\<close>
theorem channel_record_falls:
  fixes tp :: "('s, 'e) CardTransport"
  shows "not_higher (puk_counter_held (sm_opened_by (puk_channel_run (sm_puk_channel A tp) calls m)))
      (puk_counter_held (sm_opened_by m)) \<and>
    not_higher (pin1_counter_held (sm_opened_by (pin1_channel_run (sm_pin1_channel A tp) changes n)))
      (pin1_counter_held (sm_opened_by n))"
proof
  have "not_higher (puk_counter_held (sm_opened_by (puk_channel_perform (sm_puk_channel A tp) call m)))
      (puk_counter_held (sm_opened_by m))" for call m
    using perform_reset [of "sm_puk_channel A tp" call m] sm_puk.reset_record
    by (auto simp: sm_puk_channel_def)
  then show "not_higher (puk_counter_held (sm_opened_by (puk_channel_run (sm_puk_channel A tp) calls m)))
      (puk_counter_held (sm_opened_by m))"
    unfolding puk_channel_run_def
    by (rule run_invariant [where P = "\<lambda>m n. not_higher (puk_counter_held (sm_opened_by m))
        (puk_counter_held (sm_opened_by n))"]) (auto intro: not_higher_trans)
  show "not_higher (pin1_counter_held (sm_opened_by (pin1_channel_run (sm_pin1_channel A tp) changes n)))
      (pin1_counter_held (sm_opened_by n))"
    unfolding pin1_channel_run_def
    by (rule run_invariant [where P = "\<lambda>m n. not_higher (pin1_counter_held (sm_opened_by m))
        (pin1_counter_held (sm_opened_by n))"])
      (auto intro: not_higher_trans simp: outcome_only_def sm_pin1_channel_def sm_pin1.change_record)
qed

text \<open>
  Property C15. The one presentation of PIN 2 that opened a channel is spent at most once, however the
  channel is used, split into its parts and rebuilt: a spent presentation stays spent.
\<close>
theorem pin2_presentation_once:
  "snd (fold (pin2_step A tp) events (m, 0)) \<le> 1"
proof -
  have "snd (fold (pin2_step A tp) events (m, n)) \<le> n + (if unspent (sm_opened_by m) then 1 else 0)" for n
  proof (induction events arbitrary: m n)
    case (Cons event events)
    obtain m' n' where step: "pin2_step A tp event (m, n) = (m', n')" by fastforce
    have "n' + (if unspent (sm_opened_by m') then 1 else 0) \<le> n + (if unspent (sm_opened_by m) then 1 else 0)"
    proof (cases event)
      case SpendPresentation
      then show ?thesis
        using step by (cases "sm_opened_by m") (auto simp: spend_pin2_presentation_def spend_def)
    next
      case (SendOn c)
      then show ?thesis using step credential_opened [of A tp c m] by simp
    next
      case (Rebuild inner)
      then show ?thesis using step by (auto simp: sm_new_def sm_into_parts_def)
    qed
    from order_trans [OF Cons.IH this] show ?case by (simp add: step)
  qed simp
  from this [of 0] show ?thesis by (auto split: if_splits)
qed

end
