(* ===== verification/Atr.thy ===== *)
theory Atr
  imports Prelude
begin

text \<open>
  The answer to reset of a card: \<open>crates/atr/src/lib.rs\<close>. The parser accepts exactly the byte strings
  the typed structure prints: every well-formed answer is read back field by field, and every
  accepted string is printed again unchanged. The historical bytes are read as the compact objects
  they hold. The walk over these objects interprets the record locales of \<open>Prelude\<close>.
\<close>

section \<open>Interface bytes\<close>

abbreviation (input) NIBBLE_MASK :: u8 where "NIBBLE_MASK \<equiv> 0x0F"
abbreviation (input) NIBBLE_BITS :: nat where "NIBBLE_BITS \<equiv> 4"
abbreviation (input) ATR_MIN_LEN :: nat where "ATR_MIN_LEN \<equiv> 2"
abbreviation (input) ATR_MAX_LEN :: nat where "ATR_MAX_LEN \<equiv> 33"

datatype Convention = Direct | Inverse

definition from_ts :: "u8 \<Rightarrow> Convention option" where
  "from_ts ts = (if ts = 0x3B then Some Direct else if ts = 0x3F then Some Inverse else None)"

fun as_ts :: "Convention \<Rightarrow> u8" where
  "as_ts Direct = 0x3B"
| "as_ts Inverse = 0x3F"

datatype Yi = Yi (as_nibble: u8)

definition yi_from_nibble :: "u8 \<Rightarrow> Yi" where
  "yi_from_nibble nibble = Yi (nibble AND NIBBLE_MASK)"

definition ta_present :: "Yi \<Rightarrow> bool" where "ta_present y \<longleftrightarrow> as_nibble y AND 1 \<noteq> 0"
definition tb_present :: "Yi \<Rightarrow> bool" where "tb_present y \<longleftrightarrow> as_nibble y AND 2 \<noteq> 0"
definition tc_present :: "Yi \<Rightarrow> bool" where "tc_present y \<longleftrightarrow> as_nibble y AND 4 \<noteq> 0"
definition td_present :: "Yi \<Rightarrow> bool" where "td_present y \<longleftrightarrow> as_nibble y AND 8 \<noteq> 0"
definition any_present :: "Yi \<Rightarrow> bool" where "any_present y \<longleftrightarrow> as_nibble y \<noteq> 0"

record T0 =
  y1 :: Yi
  historical_byte_count :: u8

definition t0_from_byte :: "u8 \<Rightarrow> T0" where
  "t0_from_byte b =
     \<lparr>y1 = yi_from_nibble (drop_bit NIBBLE_BITS b), historical_byte_count = b AND NIBBLE_MASK\<rparr>"

definition t0_as_byte :: "T0 \<Rightarrow> u8" where
  "t0_as_byte t = push_bit NIBBLE_BITS (as_nibble (y1 t)) OR (historical_byte_count t AND NIBBLE_MASK)"

definition TA1_FI_TABLE :: "(u8 \<times> u16 \<times> u32) list" where
  "TA1_FI_TABLE =
     [(0, 372, 4000), (1, 372, 5000), (2, 558, 6000), (3, 744, 8000), (4, 1116, 12000), (5, 1488, 16000),
      (6, 1860, 20000), (9, 512, 5000), (10, 768, 7500), (11, 1024, 10000), (12, 1536, 15000), (13, 2048, 20000)]"

definition TA1_DI_TABLE :: "(u8 \<times> u16) list" where
  "TA1_DI_TABLE = [(1, 1), (2, 2), (3, 4), (4, 8), (5, 16), (6, 32), (7, 64), (8, 12), (9, 20)]"

definition ta1_clock_rate_conversion_for :: "u8 \<Rightarrow> u16 option" where
  "ta1_clock_rate_conversion_for fi_index = map_option fst (map_of TA1_FI_TABLE fi_index)"

definition ta1_max_frequency_khz_for :: "u8 \<Rightarrow> u32 option" where
  "ta1_max_frequency_khz_for fi_index = map_option snd (map_of TA1_FI_TABLE fi_index)"

definition ta1_bit_rate_adjustment_for :: "u8 \<Rightarrow> u16 option" where
  "ta1_bit_rate_adjustment_for di_index = map_of TA1_DI_TABLE di_index"

datatype TaByte = TaByte (ta_as_byte: u8)
datatype TbByte = TbByte (tb_as_byte: u8)
datatype TcByte = TcByte (tc_as_byte: u8)
datatype TdByte = TdByte (td_as_byte: u8)

definition fi_index :: "TaByte \<Rightarrow> u8" where
  "fi_index b = drop_bit NIBBLE_BITS (ta_as_byte b) AND NIBBLE_MASK"

definition di_index :: "TaByte \<Rightarrow> u8" where
  "di_index b = ta_as_byte b AND NIBBLE_MASK"

definition protocol_indicator :: "TdByte \<Rightarrow> u8" where
  "protocol_indicator b = td_as_byte b AND NIBBLE_MASK"

definition next_yi :: "TdByte \<Rightarrow> Yi" where
  "next_yi b = yi_from_nibble (drop_bit NIBBLE_BITS (td_as_byte b))"

record InterfaceByteGroup =
  ig_ta :: "TaByte option"
  ig_tb :: "TbByte option"
  ig_tc :: "TcByte option"
  ig_td :: "TdByte option"

section \<open>Historical bytes\<close>

record CompactTlv =
  ctlv_tag :: u8
  ctlv_value :: bytes

definition is_compact_tlv :: "bytes \<Rightarrow> bool" where
  "is_compact_tlv historical \<longleftrightarrow> (case historical of [] \<Rightarrow> False | c # _ \<Rightarrow> c = 0x80)"

text \<open>The walk behind the category indicator; a value past the end stops it.\<close>

fun compact_walk :: "bytes \<Rightarrow> CompactTlv list" where
  "compact_walk [] = []"
| "compact_walk (header # rest) =
     (let len = unat (header AND NIBBLE_MASK) in
      if len \<le> length rest
      then \<lparr>ctlv_tag = drop_bit NIBBLE_BITS header, ctlv_value = take len rest\<rparr> # compact_walk (drop len rest)
      else [])"

definition compact_tlv_entries :: "bytes \<Rightarrow> CompactTlv list" where
  "compact_tlv_entries historical = (if is_compact_tlv historical then compact_walk (tl historical) else [])"

datatype StatusIndicator = LifeCycle u8 | StatusWordIndicator u8 u8 | FullIndicator u8 u8 u8

datatype CardServiceData = CardServiceData (csd_as_byte: u8)
datatype CountryIndicator = CountryIndicator (country_bytes: bytes)
datatype CardCapabilities = CardCapabilities (capability_bytes: bytes)

datatype HistoricalDataObject =
    CountryCode CountryIndicator
  | IssuerIdNumber bytes
  | ServiceData CardServiceData
  | InitialAccessData bytes
  | CardIssuerData bytes
  | PreIssuingData bytes
  | Capabilities CardCapabilities
  | HistoricalStatus StatusIndicator
  | OtherObject u8 bytes

fun status_indicator :: "bytes \<Rightarrow> StatusIndicator option" where
  "status_indicator [lcs] = Some (LifeCycle lcs)"
| "status_indicator [sw1, sw2] = Some (StatusWordIndicator sw1 sw2)"
| "status_indicator [lcs, sw1, sw2] = Some (FullIndicator lcs sw1 sw2)"
| "status_indicator _ = None"

definition interpret_entry :: "CompactTlv \<Rightarrow> HistoricalDataObject" where
  "interpret_entry e =
     (let v = ctlv_value e; proprietary = OtherObject (ctlv_tag e) v; t = ctlv_tag e in
      if t = 1 then CountryCode (CountryIndicator v)
      else if t = 2 then IssuerIdNumber v
      else if t = 3 then (case v of [b] \<Rightarrow> ServiceData (CardServiceData b) | _ \<Rightarrow> proprietary)
      else if t = 4 then InitialAccessData v
      else if t = 5 then CardIssuerData v
      else if t = 6 then PreIssuingData v
      else if t = 7 then Capabilities (CardCapabilities v)
      else if t = 8 then (case status_indicator v of Some s \<Rightarrow> HistoricalStatus s | None \<Rightarrow> proprietary)
      else proprietary)"

definition data_objects :: "bytes \<Rightarrow> HistoricalDataObject list" where
  "data_objects historical = map interpret_entry (compact_tlv_entries historical)"

definition country_code :: "CountryIndicator \<Rightarrow> u16 option" where
  "country_code c =
     (case country_bytes c of
        first # second # _ \<Rightarrow>
          (let d0 = drop_bit NIBBLE_BITS first; d1 = first AND NIBBLE_MASK; d2 = drop_bit NIBBLE_BITS second in
           if d0 > 9 \<or> d1 > 9 \<or> d2 > 9 then None
           else Some (of_nat (min (min (min (unat d0 * 100) 65535 + min (unat d1 * 10) 65535) 65535 + unat d2) 65535)))
      | _ \<Rightarrow> None)"

definition ef_access_services :: "CardServiceData \<Rightarrow> u8" where
  "ef_access_services c = drop_bit 1 (csd_as_byte c) AND 0x07"

definition has_master_file :: "CardServiceData \<Rightarrow> bool" where
  "has_master_file c \<longleftrightarrow> csd_as_byte c AND 1 = 0"

definition command_chaining :: "CardCapabilities \<Rightarrow> u8 option" where
  "command_chaining c = (if 2 < length (capability_bytes c) then Some (capability_bytes c ! 2) else None)"

definition supports_command_chaining :: "CardCapabilities \<Rightarrow> bool option" where
  "supports_command_chaining c = map_option (\<lambda>b. b AND 0x80 \<noteq> 0) (command_chaining c)"

definition supports_extended_length :: "CardCapabilities \<Rightarrow> bool option" where
  "supports_extended_length c = map_option (\<lambda>b. b AND 0x40 \<noteq> 0) (command_chaining c)"

section \<open>The answer to reset\<close>

record Atr =
  convention :: Convention
  atr_t0 :: T0
  interface_groups :: "InterfaceByteGroup list"
  historical :: bytes
  tck :: "u8 option"

datatype AtrError =
    AtrTooShort nat
  | AtrTooLong nat
  | InvalidConvention u8
  | TruncatedAtInterfaceBytes
  | TruncatedAtHistoricalBytes
  | MissingTck
  | TckMismatch u8 u8
  | AtrTrailingBytes nat nat

text \<open>
  The parser keeps what is left of the input in place of an index: the index is the length of the
  input less that of the rest. A byte that the presence nibble announces is taken off the front.
\<close>

definition take_byte :: "bool \<Rightarrow> (u8 \<Rightarrow> 'a) \<Rightarrow> bytes \<Rightarrow> ('a option \<times> bytes, AtrError) result" where
  "take_byte present wrap rest =
     (if \<not> present then Ok (None, rest)
      else case rest of [] \<Rightarrow> Err TruncatedAtInterfaceBytes | b # rest' \<Rightarrow> Ok (Some (wrap b), rest'))"

definition interface_group :: "Yi \<Rightarrow> bytes \<Rightarrow> (InterfaceByteGroup \<times> bytes, AtrError) result" where
  "interface_group yi rest =
     and_then (take_byte (ta_present yi) TaByte rest) (\<lambda>(ta, rest).
     and_then (take_byte (tb_present yi) TbByte rest) (\<lambda>(tb, rest).
     and_then (take_byte (tc_present yi) TcByte rest) (\<lambda>(tc, rest).
     and_then (take_byte (td_present yi) TdByte rest) (\<lambda>(td, rest).
       Ok (\<lparr>ig_ta = ta, ig_tb = tb, ig_tc = tc, ig_td = td\<rparr>, rest)))))"

lemma take_byte_Ok:
  "take_byte present wrap rest = Ok (x, rest') \<longleftrightarrow>
     (if present then \<exists>b. rest = b # rest' \<and> x = Some (wrap b) else x = None \<and> rest' = rest)"
  by (auto simp: take_byte_def split: list.splits)

lemma interface_group_shorter:
  "interface_group yi rest = Ok (g, rest') \<Longrightarrow> ig_td g = Some td \<Longrightarrow> length rest' < length rest"
  by (auto simp: interface_group_def result_simps take_byte_Ok split: if_splits)

function interface_chain :: "Yi \<Rightarrow> bytes \<Rightarrow> (InterfaceByteGroup list \<times> bool \<times> bytes, AtrError) result" where
  "interface_chain yi rest =
     (if \<not> any_present yi then Ok ([], False, rest)
      else case interface_group yi rest of
        Err e \<Rightarrow> Err e
      | Ok (g, rest) \<Rightarrow>
          (case ig_td g of
             None \<Rightarrow> Ok ([g], False, rest)
           | Some td \<Rightarrow>
               and_then (interface_chain (next_yi td) rest) (\<lambda>(groups, non_t0, rest).
                 Ok (g # groups, protocol_indicator td \<noteq> 0 \<or> non_t0, rest))))"
  by pat_completeness auto
termination
  by (relation "measure (\<lambda>(yi, rest). length rest)") (auto dest: interface_group_shorter)

declare interface_chain.simps [simp del]

text \<open>The check byte, \<open>rest\<close> being what follows the historical bytes of \<open>bs\<close>.\<close>

definition check_character :: "bytes \<Rightarrow> bool \<Rightarrow> bytes \<Rightarrow> (u8 option \<times> bytes, AtrError) result" where
  "check_character bs any_non_t0_protocol rest =
     (if \<not> any_non_t0_protocol then Ok (None, rest)
      else case rest of
        [] \<Rightarrow> Err MissingTck
      | tck_byte # rest' \<Rightarrow>
          (let idx = length bs - length rest; residue = foldl (XOR) 0 (take idx (tl bs)) in
           if residue \<noteq> 0 then Err (TckMismatch (residue XOR tck_byte) tck_byte)
           else Ok (Some tck_byte, rest')))"

definition atr_new :: "bytes \<Rightarrow> (Atr, AtrError) result" where
  "atr_new bs =
     (if length bs < ATR_MIN_LEN then Err (AtrTooShort (length bs))
      else if length bs > ATR_MAX_LEN then Err (AtrTooLong (length bs))
      else
        let ts = bs ! 0 in
        and_then (ok_or (from_ts ts) (InvalidConvention ts)) (\<lambda>conv.
        let t0 = t0_from_byte (bs ! 1) in
        and_then (interface_chain (y1 t0) (drop 2 bs)) (\<lambda>(groups, any_non_t0_protocol, rest).
        let k = unat (historical_byte_count t0) in
        if length rest < k then Err TruncatedAtHistoricalBytes
        else
          and_then (check_character bs any_non_t0_protocol (drop k rest)) (\<lambda>(check, remainder).
          if remainder \<noteq> [] then Err (AtrTrailingBytes (length bs - length remainder) (length bs))
          else Ok \<lparr>convention = conv, atr_t0 = t0, interface_groups = groups, historical = take k rest, tck = check\<rparr>))))"

definition option_bytes :: "('a \<Rightarrow> u8) \<Rightarrow> 'a option \<Rightarrow> bytes" where
  "option_bytes f x = (case x of None \<Rightarrow> [] | Some b \<Rightarrow> [f b])"

definition group_bytes :: "InterfaceByteGroup \<Rightarrow> bytes" where
  "group_bytes g =
     option_bytes ta_as_byte (ig_ta g) @ option_bytes tb_as_byte (ig_tb g) @
     option_bytes tc_as_byte (ig_tc g) @ option_bytes td_as_byte (ig_td g)"

definition to_wire_bytes :: "Atr \<Rightarrow> bytes" where
  "to_wire_bytes a =
     as_ts (convention a) # t0_as_byte (atr_t0 a) # concat (map group_bytes (interface_groups a)) @
     historical a @ option_bytes id (tck a)"

definition supports_non_t0_protocol :: "Atr \<Rightarrow> bool" where
  "supports_non_t0_protocol a \<longleftrightarrow>
     list_ex (\<lambda>g. case ig_td g of None \<Rightarrow> False | Some td \<Rightarrow> protocol_indicator td \<noteq> 0) (interface_groups a)"

section \<open>Well-formed answers\<close>

definition is_nibble :: "u8 \<Rightarrow> bool" where "is_nibble b \<longleftrightarrow> b AND NIBBLE_MASK = b"

text \<open>Each group holds what the nibble before it announces, and the chain ends where none is announced.\<close>

fun chain_ok :: "Yi \<Rightarrow> InterfaceByteGroup list \<Rightarrow> bool" where
  "chain_ok y [] \<longleftrightarrow> \<not> any_present y"
| "chain_ok y (g # gs) \<longleftrightarrow> any_present y \<and>
     (ig_ta g \<noteq> None \<longleftrightarrow> ta_present y) \<and> (ig_tb g \<noteq> None \<longleftrightarrow> tb_present y) \<and>
     (ig_tc g \<noteq> None \<longleftrightarrow> tc_present y) \<and> (ig_td g \<noteq> None \<longleftrightarrow> td_present y) \<and>
     (case ig_td g of None \<Rightarrow> gs = [] | Some td \<Rightarrow> chain_ok (next_yi td) gs)"

definition atr_ok :: "Atr \<Rightarrow> bool" where
  "atr_ok a \<longleftrightarrow>
     is_nibble (as_nibble (y1 (atr_t0 a))) \<and> is_nibble (historical_byte_count (atr_t0 a)) \<and>
     chain_ok (y1 (atr_t0 a)) (interface_groups a) \<and>
     length (historical a) = unat (historical_byte_count (atr_t0 a)) \<and>
     (tck a \<noteq> None \<longleftrightarrow> supports_non_t0_protocol a) \<and>
     (tck a \<noteq> None \<longrightarrow> foldl (XOR) 0 (tl (to_wire_bytes a)) = 0) \<and>
     length (to_wire_bytes a) \<le> ATR_MAX_LEN"

lemma nibble_mask: "(0x0F :: u8) = mask 4"
  by (simp add: mask_eq_exp_minus_1)

lemma t0_as_from: "t0_as_byte (t0_from_byte b) = b"
  unfolding t0_as_byte_def t0_from_byte_def yi_from_nibble_def nibble_mask
  by (rule bit_word_eqI) (auto simp: bit_simps)

lemma nibble_bit: "is_nibble t \<Longrightarrow> bit t i \<Longrightarrow> i < 4"
  unfolding is_nibble_def nibble_mask by (metis bit_and_iff bit_mask_iff)

lemma t0_from_as:
  assumes "is_nibble (as_nibble (y1 t))" "is_nibble (historical_byte_count t)"
  shows "t0_from_byte (t0_as_byte t) = t"
proof -
  let ?y = "as_nibble (y1 t)" and ?k = "historical_byte_count t"
  note y = nibble_bit [OF assms(1)]
  have "drop_bit 4 (push_bit 4 ?y OR (?k AND mask 4)) AND mask 4 = ?y"
    by (rule bit_word_eqI) (auto simp: bit_simps dest: y)
  moreover have "(push_bit 4 ?y OR (?k AND mask 4)) AND mask 4 = ?k AND mask 4"
    by (rule bit_word_eqI) (auto simp: bit_simps)
  ultimately show ?thesis
    using assms(2) by (cases t; cases "y1 t") (simp add: t0_from_byte_def t0_as_byte_def yi_from_nibble_def
        is_nibble_def nibble_mask)
qed

lemma t0_from_byte_nibbles:
  "is_nibble (as_nibble (y1 (t0_from_byte b)))" "is_nibble (historical_byte_count (t0_from_byte b))"
  by (simp_all add: t0_from_byte_def yi_from_nibble_def is_nibble_def and.assoc)

lemma from_ts_Some: "from_ts ts = Some c \<longleftrightarrow> ts = as_ts c"
  by (cases c) (auto simp: from_ts_def)

lemma take_byte_option:
  "(x \<noteq> None \<longleftrightarrow> present) \<Longrightarrow> \<forall>b. wrap (f b) = b \<Longrightarrow>
   take_byte present wrap (option_bytes f x @ rest) = Ok (x, rest)"
  by (cases x) (auto simp: take_byte_def option_bytes_def)

lemma take_byte_OkD:
  "take_byte present wrap bs = Ok (x, rest) \<Longrightarrow> \<forall>b. f (wrap b) = b \<Longrightarrow>
   (x \<noteq> None \<longleftrightarrow> present) \<and> bs = option_bytes f x @ rest"
  by (auto simp: take_byte_Ok option_bytes_def split: if_splits)

text \<open>The chain is read exactly.\<close>

abbreviation (input) non_t0 :: "InterfaceByteGroup list \<Rightarrow> bool" where
  "non_t0 \<equiv> list_ex (\<lambda>g. case ig_td g of None \<Rightarrow> False | Some td \<Rightarrow> protocol_indicator td \<noteq> 0)"

lemma interface_group_iff:
  "interface_group y bs = Ok (g, rest) \<longleftrightarrow>
     (ig_ta g \<noteq> None \<longleftrightarrow> ta_present y) \<and> (ig_tb g \<noteq> None \<longleftrightarrow> tb_present y) \<and>
     (ig_tc g \<noteq> None \<longleftrightarrow> tc_present y) \<and> (ig_td g \<noteq> None \<longleftrightarrow> td_present y) \<and> bs = group_bytes g @ rest"
proof
  assume "interface_group y bs = Ok (g, rest)"
  then obtain ta tb tc td r1 r2 r3 where taken: "take_byte (ta_present y) TaByte bs = Ok (ta, r1)"
    "take_byte (tb_present y) TbByte r1 = Ok (tb, r2)" "take_byte (tc_present y) TcByte r2 = Ok (tc, r3)"
    "take_byte (td_present y) TdByte r3 = Ok (td, rest)" "g = \<lparr>ig_ta = ta, ig_tb = tb, ig_tc = tc, ig_td = td\<rparr>"
    by (auto simp: interface_group_def result_simps)
  show "(ig_ta g \<noteq> None \<longleftrightarrow> ta_present y) \<and> (ig_tb g \<noteq> None \<longleftrightarrow> tb_present y) \<and>
     (ig_tc g \<noteq> None \<longleftrightarrow> tc_present y) \<and> (ig_td g \<noteq> None \<longleftrightarrow> td_present y) \<and> bs = group_bytes g @ rest"
    using take_byte_OkD [OF taken(1), of ta_as_byte] take_byte_OkD [OF taken(2), of tb_as_byte]
      take_byte_OkD [OF taken(3), of tc_as_byte] take_byte_OkD [OF taken(4), of td_as_byte]
    by (auto simp: taken(5) group_bytes_def)
qed (cases g; simp add: interface_group_def group_bytes_def take_byte_option)

lemma interface_chain_emit:
  "chain_ok y gs \<Longrightarrow> interface_chain y (concat (map group_bytes gs) @ rest) = Ok (gs, non_t0 gs, rest)"
proof (induction gs arbitrary: y)
  case (Cons g gs)
  have "interface_group y (group_bytes g @ concat (map group_bytes gs) @ rest) =
      Ok (g, concat (map group_bytes gs) @ rest)"
    using Cons.prems by (simp add: interface_group_iff)
  then show ?case
    using Cons by (subst interface_chain.simps) (auto split: option.splits)
qed (simp add: interface_chain.simps)

lemma interface_chain_Ok:
  "interface_chain y bs = Ok (gs, f, rest) \<Longrightarrow>
   chain_ok y gs \<and> f = non_t0 gs \<and> bs = concat (map group_bytes gs) @ rest"
proof (induction y bs arbitrary: gs f rest rule: interface_chain.induct)
  case (1 y bs)
  show ?case
  proof (cases "any_present y")
    case True
    with 1(2) obtain g r where g: "interface_group y bs = Ok (g, r)"
      by (subst (asm) interface_chain.simps) (auto split: result.splits)
    show ?thesis
    proof (cases "ig_td g")
      case None
      then show ?thesis
        using 1(2) g True by (subst (asm) interface_chain.simps) (auto simp: interface_group_iff)
    next
      case (Some td)
      then obtain gs' f' where rest: "interface_chain (next_yi td) r = Ok (gs', f', rest)"
        "gs = g # gs'" "f \<longleftrightarrow> protocol_indicator td \<noteq> 0 \<or> f'"
        using 1(2) g True by (subst (asm) interface_chain.simps) (auto simp: result_simps)
      have "chain_ok (next_yi td) gs' \<and> f' = non_t0 gs' \<and> r = concat (map group_bytes gs') @ rest"
        using 1(1) [OF _ g refl Some rest(1)] True by blast
      then show ?thesis using g True Some rest by (auto simp: interface_group_iff)
    qed
  qed (use 1(2) in \<open>simp add: interface_chain.simps\<close>)
qed

section \<open>Compact objects\<close>

text \<open>An entry as a card writes it, and the reader of one entry.\<close>

definition compact_encode :: "CompactTlv \<Rightarrow> (bytes, unit) result" where
  "compact_encode e =
     (if is_nibble (ctlv_tag e) \<and> length (ctlv_value e) < 16
      then Ok ((push_bit NIBBLE_BITS (ctlv_tag e) OR of_nat (length (ctlv_value e))) # ctlv_value e)
      else Err ())"

definition sized :: "CompactTlv \<Rightarrow> CompactTlv \<times> nat" where
  "sized e = (e, Suc (length (ctlv_value e)))"

definition compact_first :: "bytes \<Rightarrow> (CompactTlv \<times> nat, unit) result" where
  "compact_first bs = (case compact_walk bs of [] \<Rightarrow> Err () | e # _ \<Rightarrow> Ok (sized e))"

lemma compact_header:
  assumes "is_nibble t" "n < 16"
  defines "h \<equiv> push_bit 4 t OR (of_nat n :: u8)"
  shows "drop_bit 4 h = t" and "unat (h AND NIBBLE_MASK) = n"
proof -
  define k :: u8 where "k = of_nat n"
  have "is_nibble k"
    using take_bit_word_self [of k 4] assms(2) by (simp add: is_nibble_def nibble_mask take_bit_eq_mask k_def)
  note bits = nibble_bit [OF this] nibble_bit [OF assms(1)]
  show "drop_bit 4 h = t"
    unfolding h_def k_def [symmetric] by (rule bit_word_eqI) (auto simp: bit_simps dest: bits)
  have "h AND NIBBLE_MASK = k"
    unfolding h_def k_def [symmetric] nibble_mask by (rule bit_word_eqI) (auto simp: bit_simps dest: bits)
  then show "unat (h AND NIBBLE_MASK) = n" using assms(2) by (simp add: k_def)
qed

lemma compact_walk_encoded:
  assumes "compact_encode e = Ok w"
  shows "compact_walk (w @ rest) = e # compact_walk rest" and "length w = Suc (length (ctlv_value e))"
proof -
  define h :: u8 where "h = push_bit 4 (ctlv_tag e) OR of_nat (length (ctlv_value e))"
  have e: "is_nibble (ctlv_tag e)" "length (ctlv_value e) < 16" "w = h # ctlv_value e"
    using assms by (auto simp: compact_encode_def h_def split: if_splits)
  show "compact_walk (w @ rest) = e # compact_walk rest"
    by (simp add: e(3) compact_header [OF e(1,2), folded h_def] Let_def)
  show "length w = Suc (length (ctlv_value e))" by (simp add: e(3))
qed

lemma compact_walk_step: "compact_walk bs = e # es \<Longrightarrow> es = compact_walk (drop (snd (sized e)) bs)"
  by (cases bs) (auto simp: Let_def sized_def split: if_splits)

interpretation compact_codec: record_reader compact_encode compact_first Pair snd
    "\<lambda>bs. map (\<lambda>e. Ok (sized e)) (compact_walk bs)"
proof unfold_locales
  show "compact_first (w @ rest) = Ok (e, length w)" if "compact_encode e = Ok w" for e w rest
    using compact_walk_encoded [OF that] by (simp add: compact_first_def sized_def)
  show "w \<noteq> []" if "compact_encode e = Ok w" for e w
    using compact_walk_encoded(2) [OF that] by auto
  show "map (\<lambda>e. Ok (sized e)) (compact_walk bs) =
      Ok p # map (\<lambda>e. Ok (sized e)) (compact_walk (drop (snd p) bs))"
    if "bs \<noteq> []" "compact_first bs = Ok p" for bs p
    using that(2) compact_walk_step [of bs]
    by (auto simp: compact_first_def split: list.splits)
qed simp_all

lemma compact_entries_read:
  assumes "list_all2 (\<lambda>e w. compact_encode e = Ok w) es ws"
  shows "compact_tlv_entries (0x80 # concat ws) = es"
proof -
  have "map (fst \<circ> unwrap) (map (\<lambda>e. Ok (sized e) :: (_, unit) result) (compact_walk (concat ws))) =
      map (fst \<circ> unwrap) (map2 (\<lambda>e w. Ok (e, length w) :: (_, unit) result) es ws)"
    by (simp only: compact_codec.items_concat [OF assms])
  then show ?thesis
    using list_all2_lengthD [OF assms]
    by (simp add: compact_tlv_entries_def is_compact_tlv_def sized_def o_def case_prod_unfold)
qed

text \<open>The parse of a string, in terms of its chain.\<close>

lemma check_character_iff:
  "check_character bs f rest = Ok (c, []) \<longleftrightarrow>
     (if f then \<exists>b. rest = [b] \<and> c = Some b \<and> foldl (XOR) 0 (take (length bs - 1) (tl bs)) = 0
      else rest = [] \<and> c = None)"
  by (auto simp: check_character_def Let_def split: list.splits)

lemma atr_new_iff:
  "atr_new (ts # tb # body) = Ok a \<longleftrightarrow>
     length body \<le> 31 \<and> ts = as_ts (convention a) \<and> atr_t0 a = t0_from_byte tb \<and>
     (\<exists>f rest. interface_chain (y1 (t0_from_byte tb)) body = Ok (interface_groups a, f, historical a @ rest) \<and>
        length (historical a) = unat (historical_byte_count (t0_from_byte tb)) \<and>
        check_character (ts # tb # body) f rest = Ok (tck a, []))"
  (is "_ \<longleftrightarrow> ?parts")
proof
  assume "atr_new (ts # tb # body) = Ok a"
  then show ?parts
    by (cases a) (auto simp: atr_new_def Let_def result_simps from_ts_Some split: if_splits
        intro!: exI [of _ "drop (unat (historical_byte_count (t0_from_byte tb))) _"])
next
  assume ?parts
  then obtain f rest where
    "interface_chain (y1 (t0_from_byte tb)) body = Ok (interface_groups a, f, historical a @ rest)"
    "length (historical a) = unat (historical_byte_count (t0_from_byte tb))"
    "check_character (ts # tb # body) f rest = Ok (tck a, [])" by blast
  with \<open>?parts\<close> show "atr_new (ts # tb # body) = Ok a"
    using from_ts_Some [of ts "convention a"] by (cases a) (simp add: atr_new_def Let_def)
qed

section \<open>Properties\<close>

text \<open>
  Property C26. The parser of an answer to reset and its printer are exact. A byte string is accepted
  with some result exactly when the result is well formed and prints to that string: the
  interface groups follow their presence nibbles, the historical bytes are as many as announced, the
  check byte is there exactly when another protocol than the first is offered and makes the sum
  zero, and nothing follows.
\<close>
theorem atr_exact: "atr_new bs = Ok a \<longleftrightarrow> atr_ok a \<and> to_wire_bytes a = bs"
proof (cases "\<exists>ts tb body. bs = ts # tb # body")
  case False
  then have "length bs < 2" by (metis Suc_le_length_iff not_less numeral_2_eq_2)
  moreover have "2 \<le> length (to_wire_bytes a)" by (simp add: to_wire_bytes_def)
  ultimately show ?thesis by (auto simp: atr_new_def)
next
  case True
  then obtain ts tb body where bs: "bs = ts # tb # body" by blast
  show ?thesis
  proof
    assume "atr_new bs = Ok a"
    then obtain f rest where parts: "length body \<le> 31" "ts = as_ts (convention a)" "atr_t0 a = t0_from_byte tb"
      "interface_chain (y1 (t0_from_byte tb)) body = Ok (interface_groups a, f, historical a @ rest)"
      "length (historical a) = unat (historical_byte_count (t0_from_byte tb))"
      "check_character (ts # tb # body) f rest = Ok (tck a, [])"
      unfolding bs atr_new_iff by blast
    have chain: "chain_ok (y1 (t0_from_byte tb)) (interface_groups a)" "f = supports_non_t0_protocol a"
      "body = concat (map group_bytes (interface_groups a)) @ historical a @ rest"
      using interface_chain_Ok [OF parts(4)] by (auto simp: supports_non_t0_protocol_def)
    have tail: "rest = option_bytes id (tck a)" "tck a \<noteq> None \<longleftrightarrow> f"
      "f \<longrightarrow> foldl (XOR) 0 (tb # body) = 0"
      using parts(6) by (auto simp: check_character_iff option_bytes_def split: if_splits)
    have "to_wire_bytes a = bs"
      using parts(2,3) chain(3) tail(1) by (simp add: to_wire_bytes_def bs t0_as_from)
    then show "atr_ok a \<and> to_wire_bytes a = bs"
      using parts chain tail t0_from_byte_nibbles [of tb] by (simp add: atr_ok_def bs)
  next
    assume ok: "atr_ok a \<and> to_wire_bytes a = bs"
    let ?rest = "option_bytes id (tck a)"
    have t0: "t0_from_byte tb = atr_t0 a" and ts: "ts = as_ts (convention a)"
      and body: "body = concat (map group_bytes (interface_groups a)) @ historical a @ ?rest"
      using ok t0_from_as [of "atr_t0 a"] by (auto simp: to_wire_bytes_def bs atr_ok_def)
    have "interface_chain (y1 (atr_t0 a)) body =
        Ok (interface_groups a, supports_non_t0_protocol a, historical a @ ?rest)"
      unfolding body supports_non_t0_protocol_def
      by (rule interface_chain_emit) (use ok in \<open>simp add: atr_ok_def\<close>)
    moreover have "check_character (ts # tb # body) (supports_non_t0_protocol a) ?rest = Ok (tck a, [])"
      using ok by (auto simp: check_character_iff atr_ok_def option_bytes_def bs)
    ultimately show "atr_new bs = Ok a"
      using ok unfolding bs atr_new_iff t0 by (auto simp: ts atr_ok_def bs)
  qed
qed

end
