(* ===== verification/Ccid_Codec.thy ===== *)
theory Ccid_Codec
  imports Atr
begin

text \<open>
  The messages between the host and a card reader: \<open>error.rs\<close>, \<open>codec.rs\<close> and \<open>descriptor.rs\<close> of
  \<open>crates/ccid/src\<close>. A reply is accepted exactly when it is a frame of the expected type, slot and
  sequence number with a defined status, and the functional descriptor of an interface is the one
  that follows it in the device's descriptor list.
\<close>

section \<open>Errors\<close>

datatype CcidIoError =
    IoConnectionLost | DeviceDisconnected | ShortWrite nat nat | BulkInUnderflow | SyntheticFailure

datatype CcidProtocolDesync =
    SlotRecoveryRequired
  | OperationAlreadyPending
  | InvalidParametersLength u8 nat
  | ChainBeginAlreadyOpen
  | ChainContinueWithoutBegin
  | ChainEndWithoutBegin
  | ChainCompleteWhileOpen
  | UnexpectedCommandContinuation
  | PowerOnMissingAtr
  | ResetMissingAtr
  | UnexpectedAbortOutcome
  | TerminatedWithoutCompletion
  | ChainingIterationLimitExceeded
  | ChainExceededCapacity
  | StalledChain
  | RepeatedWrongLe

datatype CcidDescriptorError = InvalidFunctionalDescriptorType u8

datatype CcidError =
    TruncatedDescriptorHeader
  | InvalidDescriptorLength
  | TruncatedDescriptor
  | InvalidInterfaceDescriptor
  | MissingCcidDescriptor
  | CcidDescriptorTooShort
  | UnsupportedExchangeLevel
  | InvalidExchangeLevel
  | InvalidApduConfiguration
  | MessageLengthOutOfRange
  | TransferMessageBoundTooSmall
  | TruncatedHeader
  | ResponseLengthOutOfRange
  | LengthMismatch
  | UnexpectedMessageType u8 u8
  | UnexpectedSlot u8 u8
  | UnexpectedSequence u8 u8
  | ReservedStatusBits
  | ReservedCardStatus
  | ReservedCommandStatus
  | UnexpectedPayload
  | InvalidClockStatus
  | InvalidChainParameter
  | CommandFailed int
  | CcidTimeExtension u8
  | CcidIo CcidIoError
  | CcidDesync CcidProtocolDesync
  | CcidTimeout
  | Cancelled
  | CardRemoved
  | InvalidCcidDescriptor CcidDescriptorError
  | ApduTooLong
  | UnsupportedProtocol
  | CcidAtr AtrError

section \<open>Commands to the reader\<close>

abbreviation (input) CCID_HEADER_SIZE :: nat where "CCID_HEADER_SIZE \<equiv> 10"
abbreviation (input) MAX_RESPONSE_PAYLOAD_SIZE :: nat where "MAX_RESPONSE_PAYLOAD_SIZE \<equiv> 65538"
abbreviation (input) RDR_TO_PC_DATA_BLOCK :: u8 where "RDR_TO_PC_DATA_BLOCK \<equiv> 0x80"
abbreviation (input) RDR_TO_PC_SLOT_STATUS :: u8 where "RDR_TO_PC_SLOT_STATUS \<equiv> 0x81"
abbreviation (input) RDR_TO_PC_PARAMETERS :: u8 where "RDR_TO_PC_PARAMETERS \<equiv> 0x82"
abbreviation (input) RDR_TO_PC_NOTIFY_SLOT_CHANGE :: u8 where "RDR_TO_PC_NOTIFY_SLOT_CHANGE \<equiv> 0x50"
abbreviation (input) RDR_TO_PC_HARDWARE_ERROR :: u8 where "RDR_TO_PC_HARDWARE_ERROR \<equiv> 0x51"
abbreviation (input) CHAIN_COMMAND_CONTINUATION_EXPECTED :: u8 where "CHAIN_COMMAND_CONTINUATION_EXPECTED \<equiv> 0x10"

text \<open>Little-endian numbers of four and two octets.\<close>

definition le_bytes :: "nat \<Rightarrow> nat \<Rightarrow> bytes" where "le_bytes n v = rev (be_bytes n v)"
definition le_value :: "bytes \<Rightarrow> nat" where "le_value bs = be_value (rev bs)"

definition encode_icc_power_on :: "u8 \<Rightarrow> u8 \<Rightarrow> u8 \<Rightarrow> bytes" where
  "encode_icc_power_on slot sq voltage_selection = [0x62, 0, 0, 0, 0, slot, sq, voltage_selection, 0, 0]"

definition encode_icc_power_off :: "u8 \<Rightarrow> u8 \<Rightarrow> bytes" where
  "encode_icc_power_off slot sq = [0x63, 0, 0, 0, 0, slot, sq, 0, 0, 0]"

definition encode_get_slot_status :: "u8 \<Rightarrow> u8 \<Rightarrow> bytes" where
  "encode_get_slot_status slot sq = [0x65, 0, 0, 0, 0, slot, sq, 0, 0, 0]"

text \<open>A length past the field's width is written as its maximum.\<close>

definition block_message :: "u8 \<Rightarrow> u8 \<Rightarrow> u8 \<Rightarrow> u8 \<Rightarrow> u16 \<Rightarrow> bytes \<Rightarrow> bytes" where
  "block_message message_type slot sq b_wi w_level_parameter block =
     [message_type] @ le_bytes 4 (min (length block) (2 ^ 32 - 1)) @ [slot, sq, b_wi] @
     le_bytes 2 (unat w_level_parameter) @ block"

definition encode_xfr_block :: "u8 \<Rightarrow> u8 \<Rightarrow> u8 \<Rightarrow> u16 \<Rightarrow> bytes \<Rightarrow> bytes" where
  "encode_xfr_block slot sq b_wi w_level_parameter block =
     block_message 0x6F slot sq b_wi w_level_parameter block"

definition encode_secure :: "u8 \<Rightarrow> u8 \<Rightarrow> u8 \<Rightarrow> u16 \<Rightarrow> bytes \<Rightarrow> bytes" where
  "encode_secure slot sq b_wi w_level_parameter data =
     block_message 0x69 slot sq b_wi w_level_parameter data"

definition encode_get_parameters :: "u8 \<Rightarrow> u8 \<Rightarrow> bytes" where
  "encode_get_parameters slot sq = [0x6C, 0, 0, 0, 0, slot, sq, 0, 0, 0]"

definition encode_set_parameters_t0 ::
  "u8 \<Rightarrow> u8 \<Rightarrow> u8 \<Rightarrow> u8 \<Rightarrow> u8 \<Rightarrow> u8 \<Rightarrow> bool \<Rightarrow> bytes" where
  "encode_set_parameters_t0 slot sq fi_di guard_time waiting_integer clock_stop inverse_convention =
     [0x61, 5, 0, 0, 0, slot, sq, 0, 0, 0,
      fi_di, if inverse_convention then 0x02 else 0, guard_time, waiting_integer, clock_stop]"

definition encode_abort :: "u8 \<Rightarrow> u8 \<Rightarrow> bytes" where
  "encode_abort slot sq = [0x72, 0, 0, 0, 0, slot, sq, 0, 0, 0]"

section \<open>Replies from the reader\<close>

datatype CardStatus = Active | Inactive | NotPresent
datatype ClockStatus = Running | StoppedLow | StoppedHigh | StoppedUnknown
datatype ChainParameter = ChainComplete | ChainBegin | ChainEnd | ChainContinue | CommandContinuationExpected

datatype CcidResponse =
    DataBlock CardStatus ChainParameter bytes
  | SlotStatus CardStatus ClockStatus
  | Parameters CardStatus u8 bytes
  | CommandFailure CardStatus int
  | TimeExtension CardStatus u8

definition decode_card_status :: "u8 \<Rightarrow> CardStatus option" where
  "decode_card_status field =
     (if field = 0 then Some Active else if field = 1 then Some Inactive
      else if field = 2 then Some NotPresent else None)"

definition decode_clock_status :: "u8 \<Rightarrow> ClockStatus option" where
  "decode_clock_status b =
     (if b = 0 then Some Running else if b = 1 then Some StoppedLow
      else if b = 2 then Some StoppedHigh else if b = 3 then Some StoppedUnknown else None)"

definition decode_chain_parameter :: "u8 \<Rightarrow> ChainParameter option" where
  "decode_chain_parameter b =
     (if b = 0 then Some ChainComplete else if b = 1 then Some ChainBegin
      else if b = 2 then Some ChainEnd else if b = 3 then Some ChainContinue
      else if b = CHAIN_COMMAND_CONTINUATION_EXPECTED then Some CommandContinuationExpected else None)"

text \<open>The reply of a command that succeeded, by its message type.\<close>

definition decode_succeeded ::
  "u8 \<Rightarrow> CardStatus \<Rightarrow> u8 \<Rightarrow> bytes \<Rightarrow> (CcidResponse, CcidError) result" where
  "decode_succeeded message_type card_status parameter payload =
     (if message_type = RDR_TO_PC_SLOT_STATUS then
        and_then (ok_or (decode_clock_status parameter) InvalidClockStatus) (\<lambda>clock_status.
          Ok (SlotStatus card_status clock_status))
      else if message_type = RDR_TO_PC_DATA_BLOCK then
        and_then (ok_or (decode_chain_parameter parameter) InvalidChainParameter) (\<lambda>chain_parameter.
          Ok (DataBlock card_status chain_parameter payload))
      else if message_type = RDR_TO_PC_PARAMETERS then
        if parameter = 0 \<and> length payload = 5 \<or> parameter = 1 \<and> length payload = 7
        then Ok (Parameters card_status parameter payload)
        else Err (CcidDesync (InvalidParametersLength parameter (length payload)))
      else Err (UnexpectedMessageType message_type message_type))"

text \<open>The checks on the header, and the reply its status byte announces.\<close>

definition check_frame :: "bytes \<Rightarrow> u8 \<Rightarrow> u8 \<Rightarrow> u8 \<Rightarrow> (unit, CcidError) result" where
  "check_frame frame expected_msg_type expected_slot expected_seq =
     (if length frame < CCID_HEADER_SIZE then Err TruncatedHeader
      else
        let declared_length = le_value (take 4 (drop 1 frame)) in
        if declared_length > MAX_RESPONSE_PAYLOAD_SIZE then Err ResponseLengthOutOfRange
        else if length frame \<noteq> CCID_HEADER_SIZE + declared_length then Err LengthMismatch
        else if frame ! 0 \<noteq> expected_msg_type then Err (UnexpectedMessageType expected_msg_type (frame ! 0))
        else if frame ! 5 \<noteq> expected_slot then Err (UnexpectedSlot expected_slot (frame ! 5))
        else if frame ! 6 \<noteq> expected_seq then Err (UnexpectedSequence expected_seq (frame ! 6))
        else if expected_msg_type = RDR_TO_PC_SLOT_STATUS \<and> declared_length \<noteq> 0 then Err UnexpectedPayload
        else Ok ())"

definition decode_reply :: "u8 \<Rightarrow> u8 \<Rightarrow> u8 \<Rightarrow> u8 \<Rightarrow> bytes \<Rightarrow> (CcidResponse, CcidError) result" where
  "decode_reply message_type status error_byte parameter payload =
     (if status AND 0x3C \<noteq> 0 then Err ReservedStatusBits
      else
        and_then (ok_or (decode_card_status (status AND 0x03)) ReservedCardStatus) (\<lambda>card_status.
        let command_status = drop_bit 6 status AND 0x03 in
        if command_status = 0 then decode_succeeded message_type card_status parameter payload
        else if command_status = 1 then Ok (CommandFailure card_status (sint error_byte))
        else if command_status = 2 then Ok (TimeExtension card_status error_byte)
        else Err ReservedCommandStatus))"

definition decode_response ::
  "bytes \<Rightarrow> u8 \<Rightarrow> u8 \<Rightarrow> u8 \<Rightarrow> (CcidResponse, CcidError) result" where
  "decode_response frame expected_msg_type expected_slot expected_seq =
     and_then (check_frame frame expected_msg_type expected_slot expected_seq) (\<lambda>_.
       decode_reply expected_msg_type (frame ! 7) (frame ! 8) (frame ! 9) (drop CCID_HEADER_SIZE frame))"

record SlotChangeNotification =
  slot_presence :: "bool list"
  slot_changed :: "bool list"

definition list_flag :: "bool list \<Rightarrow> u8 \<Rightarrow> bool" where
  "list_flag flags slot \<longleftrightarrow> unat slot < length flags \<and> flags ! unat slot"

definition decode_interrupt_slot_change :: "bytes \<Rightarrow> u8 \<Rightarrow> (SlotChangeNotification, CcidError) result" where
  "decode_interrupt_slot_change frame max_slot_index =
     (case frame of
        [] \<Rightarrow> Err TruncatedHeader
      | first # _ \<Rightarrow>
          if first \<noteq> RDR_TO_PC_NOTIFY_SLOT_CHANGE
          then Err (UnexpectedMessageType RDR_TO_PC_NOTIFY_SLOT_CHANGE first)
          else
            let slot_count = unat max_slot_index + 1 in
            if length frame < 1 + (slot_count + 3) div 4 then Err LengthMismatch
            else
              let flag = (\<lambda>i shift. drop_bit ((i mod 4) * 2 + shift) (frame ! (1 + i div 4)) AND 0x01 \<noteq> 0) in
              Ok \<lparr>slot_presence = map (\<lambda>i. flag i 0) [0..<slot_count],
                  slot_changed = map (\<lambda>i. flag i 1) [0..<slot_count]\<rparr>)"

record HardwareErrorNotification =
  hw_slot :: u8
  hw_seq :: u8
  hardware_error_code :: u8

definition decode_interrupt_hardware_error :: "bytes \<Rightarrow> (HardwareErrorNotification, CcidError) result" where
  "decode_interrupt_hardware_error frame =
     (case frame of
        [] \<Rightarrow> Err TruncatedHeader
      | first # _ \<Rightarrow>
          if first \<noteq> RDR_TO_PC_HARDWARE_ERROR then Err (UnexpectedMessageType RDR_TO_PC_HARDWARE_ERROR first)
          else if length frame < 4 then Err LengthMismatch
          else Ok \<lparr>hw_slot = frame ! 1, hw_seq = frame ! 2, hardware_error_code = frame ! 3\<rparr>)"

section \<open>The functional descriptor\<close>

abbreviation (input) MAXIMUM_T0_TPDU_LENGTH :: nat where "MAXIMUM_T0_TPDU_LENGTH \<equiv> 260"
abbreviation (input) MAXIMUM_SHORT_APDU_LENGTH :: nat where "MAXIMUM_SHORT_APDU_LENGTH \<equiv> 261"
abbreviation (input) MAXIMUM_CCID_COMMAND_PAYLOAD_LENGTH :: nat where
  "MAXIMUM_CCID_COMMAND_PAYLOAD_LENGTH \<equiv> 65544"

datatype CcidExchangeLevel = Character | Tpdu | ShortApdu | ShortAndExtendedApdu

record CcidFunctionalDescriptor =
  fd_exchange_level :: CcidExchangeLevel
  fd_maximum_message_length :: nat
  fd_max_slot_index :: u8
  fd_features :: u32
  fd_protocols :: u32
  fd_pin_support :: u8

definition maximum_payload_length :: "CcidFunctionalDescriptor \<Rightarrow> nat" where
  "maximum_payload_length d = fd_maximum_message_length d - CCID_HEADER_SIZE"

definition maximum_transfer_block_length :: "CcidFunctionalDescriptor \<Rightarrow> nat" where
  "maximum_transfer_block_length d =
     (let max_payload = maximum_payload_length d in
      case fd_exchange_level d of
        Character \<Rightarrow> min max_payload MAXIMUM_T0_TPDU_LENGTH
      | Tpdu \<Rightarrow> min max_payload MAXIMUM_T0_TPDU_LENGTH
      | ShortApdu \<Rightarrow> min max_payload MAXIMUM_SHORT_APDU_LENGTH
      | ShortAndExtendedApdu \<Rightarrow> max_payload)"

definition supports_t0 :: "CcidFunctionalDescriptor \<Rightarrow> bool" where
  "supports_t0 d \<longleftrightarrow> fd_protocols d AND 0x01 \<noteq> 0"

definition supports_t1 :: "CcidFunctionalDescriptor \<Rightarrow> bool" where
  "supports_t1 d \<longleftrightarrow> fd_protocols d AND 0x02 \<noteq> 0"

definition automatic_parameter_configuration :: "CcidFunctionalDescriptor \<Rightarrow> bool" where
  "automatic_parameter_configuration d \<longleftrightarrow> fd_features d AND 0x02 \<noteq> 0"

definition supports_pin_entry :: "CcidFunctionalDescriptor \<Rightarrow> bool" where
  "supports_pin_entry d \<longleftrightarrow> fd_pin_support d AND 0x01 \<noteq> 0 \<or> fd_pin_support d AND 0x02 \<noteq> 0"

definition decode_exchange_level :: "u32 \<Rightarrow> CcidExchangeLevel option" where
  "decode_exchange_level features =
     (let level = features AND 0x00070000 in
      if level = 0 then Some Character else if level = 0x00010000 then Some Tpdu
      else if level = 0x00020000 then Some ShortApdu
      else if level = 0x00040000 then Some ShortAndExtendedApdu else None)"

fun minimum_message_length :: "CcidExchangeLevel \<Rightarrow> nat" where
  "minimum_message_length Character = CCID_HEADER_SIZE + 1"
| "minimum_message_length Tpdu = CCID_HEADER_SIZE + MAXIMUM_T0_TPDU_LENGTH"
| "minimum_message_length _ = CCID_HEADER_SIZE + MAXIMUM_SHORT_APDU_LENGTH"

definition u32_at :: "bytes \<Rightarrow> nat \<Rightarrow> u32" where
  "u32_at bs offset = of_nat (le_value (take 4 (drop offset bs)))"

definition parse_functional_descriptor :: "bytes \<Rightarrow> (CcidFunctionalDescriptor, CcidError) result" where
  "parse_functional_descriptor bs =
     (if length bs < 54 then Err CcidDescriptorTooShort
      else if bs ! 1 \<noteq> 0x21 then Err (InvalidCcidDescriptor (InvalidFunctionalDescriptorType (bs ! 1)))
      else
        let protocols = u32_at bs 6; features = u32_at bs 40 in
        if protocols AND 0x03 = 0 then Err UnsupportedProtocol
        else and_then (ok_or (decode_exchange_level features) InvalidExchangeLevel) (\<lambda>exchange_level.
          if features AND 0x40 \<noteq> 0 \<and> features AND 0x80 \<noteq> 0 then Err InvalidApduConfiguration
          else
            let declared_message_length = unat (u32_at bs 44) in
            if declared_message_length > CCID_HEADER_SIZE + MAXIMUM_CCID_COMMAND_PAYLOAD_LENGTH
            then Err MessageLengthOutOfRange
            else if declared_message_length < minimum_message_length exchange_level
            then Err TransferMessageBoundTooSmall
            else Ok \<lparr>fd_exchange_level = exchange_level, fd_maximum_message_length = declared_message_length,
                     fd_max_slot_index = bs ! 4, fd_features = features, fd_protocols = protocols,
                     fd_pin_support = bs ! 52\<rparr>))"

text \<open>The walk over the device's descriptors; \<open>remaining\<close> is the input from the offset on.\<close>

function usb_walk :: "u8 \<Rightarrow> u8 \<Rightarrow> bool \<Rightarrow> bytes \<Rightarrow> (CcidFunctionalDescriptor, CcidError) result" where
  "usb_walk interface_number alternate_setting is_target_interface remaining =
     (if remaining = [] then Err MissingCcidDescriptor
      else if length remaining < 2 then Err TruncatedDescriptorHeader
      else
        let descriptor_length = unat (remaining ! 0); descriptor_type = remaining ! 1 in
        if descriptor_length < 2 then Err InvalidDescriptorLength
        else if descriptor_length > length remaining then Err TruncatedDescriptor
        else if descriptor_type = 0x04 then
          if descriptor_length < 9 then Err InvalidInterfaceDescriptor
          else usb_walk interface_number alternate_setting
            (remaining ! 2 = interface_number \<and> remaining ! 3 = alternate_setting \<and> remaining ! 5 = 0x0B)
            (drop descriptor_length remaining)
        else if descriptor_type = 0x21 \<and> is_target_interface
        then parse_functional_descriptor (take descriptor_length remaining)
        else usb_walk interface_number alternate_setting is_target_interface (drop descriptor_length remaining))"
  by pat_completeness auto
termination
  by (relation "measure (\<lambda>(i, a, t, remaining). length remaining)") auto

declare usb_walk.simps [simp del]

definition parse_from_usb_descriptors ::
  "bytes \<Rightarrow> u8 \<Rightarrow> u8 \<Rightarrow> (CcidFunctionalDescriptor, CcidError) result" where
  "parse_from_usb_descriptors raw_descriptors interface_number alternate_setting =
     usb_walk interface_number alternate_setting False raw_descriptors"

section \<open>Frames as a reader sends them\<close>

fun card_code :: "CardStatus \<Rightarrow> u8" where
  "card_code Active = 0" | "card_code Inactive = 1" | "card_code NotPresent = 2"

fun clock_code :: "ClockStatus \<Rightarrow> u8" where
  "clock_code Running = 0" | "clock_code StoppedLow = 1" | "clock_code StoppedHigh = 2" | "clock_code StoppedUnknown = 3"

fun chain_code :: "ChainParameter \<Rightarrow> u8" where
  "chain_code ChainComplete = 0" | "chain_code ChainBegin = 1" | "chain_code ChainEnd = 2"
| "chain_code ChainContinue = 3" | "chain_code CommandContinuationExpected = 0x10"

definition status_octet :: "CardStatus \<Rightarrow> u8 \<Rightarrow> u8" where
  "status_octet card_status command = card_code card_status OR push_bit 6 command"

definition reply_frame :: "u8 \<Rightarrow> u8 \<Rightarrow> u8 \<Rightarrow> u8 \<Rightarrow> u8 \<Rightarrow> u8 \<Rightarrow> bytes \<Rightarrow> bytes" where
  "reply_frame t slot sq status err parameter payload =
     [t] @ le_bytes 4 (length payload) @ [slot, sq, status, err, parameter] @ payload"

text \<open>\<open>reply_of t r status err parameter payload\<close>: the fields of a reply of type \<open>t\<close> that means \<open>r\<close>.\<close>

inductive reply_of :: "u8 \<Rightarrow> CcidResponse \<Rightarrow> u8 \<Rightarrow> u8 \<Rightarrow> u8 \<Rightarrow> bytes \<Rightarrow> bool" where
  slot_status: "reply_of 0x81 (SlotStatus cs clock) (status_octet cs 0) err (clock_code clock) []"
| data_block: "reply_of 0x80 (DataBlock cs chain payload) (status_octet cs 0) err (chain_code chain) payload"
| parameters_t0: "length payload = 5 \<Longrightarrow> reply_of 0x82 (Parameters cs 0 payload) (status_octet cs 0) err 0 payload"
| parameters_t1: "length payload = 7 \<Longrightarrow> reply_of 0x82 (Parameters cs 1 payload) (status_octet cs 0) err 1 payload"
| failure: "(t = 0x81 \<Longrightarrow> payload = []) \<Longrightarrow>
    reply_of t (CommandFailure cs (sint err)) (status_octet cs 1) err parameter payload"
| time_extension: "(t = 0x81 \<Longrightarrow> payload = []) \<Longrightarrow>
    reply_of t (TimeExtension cs err) (status_octet cs 2) err parameter payload"

lemma code_inject [simp]: "card_code a = card_code b \<longleftrightarrow> a = b"
  by (cases a; cases b) simp_all

lemma decode_codes [simp]:
  "decode_card_status b = Some cs \<longleftrightarrow> b = card_code cs"
  "decode_clock_status b = Some ck \<longleftrightarrow> b = clock_code ck"
  "decode_chain_parameter b = Some ch \<longleftrightarrow> b = chain_code ch"
  by (cases cs; auto simp: decode_card_status_def)
    ((cases ck; auto simp: decode_clock_status_def), (cases ch; auto simp: decode_chain_parameter_def))

lemma status_octet_parts:
  assumes "command \<in> {0, 1, 2}"
  shows "status_octet cs command AND 0x3C = 0" "status_octet cs command AND 0x03 = card_code cs"
    "drop_bit 6 (status_octet cs command) AND 0x03 = command"
  using assms by (cases cs; auto simp: status_octet_def)+

lemma status_octet_whole:
  assumes "status AND 0x3C = 0" "status AND 0x03 = card_code cs"
  shows "status = status_octet cs (drop_bit 6 status AND 0x03)"
proof -
  have masks: "(0x3C :: u8) = push_bit 2 (mask 4)" "(0x03 :: u8) = mask 2"
    by (simp_all add: mask_eq_exp_minus_1)
  have middle: "\<not> bit status n" if "2 \<le> n" "n < 6" for n
    using that arg_cong [OF assms(1), of "\<lambda>w. bit w n"] unfolding masks by (auto simp: bit_simps)
  have "status = (status AND 0x03) OR push_bit 6 (drop_bit 6 status AND 0x03)"
    unfolding masks
  proof (rule bit_word_eqI)
    fix n assume "n < LENGTH(8)"
    then show "bit status n = bit (status AND mask 2 OR push_bit 6 (drop_bit 6 status AND mask 2)) n"
      using middle [of n] by (cases "6 \<le> n"; cases "2 \<le> n") (auto simp: bit_simps)
  qed
  then show ?thesis by (simp add: status_octet_def assms(2))
qed

lemma le_value_le_bytes: "v < 256 ^ n \<Longrightarrow> le_value (le_bytes n v) = v"
  by (simp add: le_value_def le_bytes_def be_value_be_bytes)

lemma length_le_bytes [simp]: "length (le_bytes n v) = n"
  by (simp add: le_bytes_def)

lemma le_bytes_le_value: "le_bytes (length bs) (le_value bs) = bs"
  using be_bytes_be_value [of "rev bs"] by (simp add: le_value_def le_bytes_def)

lemma reply_fields:
  "length payload < 2 ^ 32 \<Longrightarrow> le_value (take 4 (drop 1 (reply_frame t slot sq status err parameter payload))) = length payload"
  "reply_frame t slot sq status err parameter payload ! 0 = t"
  "reply_frame t slot sq status err parameter payload ! 5 = slot"
  "reply_frame t slot sq status err parameter payload ! 6 = sq"
  "reply_frame t slot sq status err parameter payload ! 7 = status"
  "reply_frame t slot sq status err parameter payload ! 8 = err"
  "reply_frame t slot sq status err parameter payload ! 9 = parameter"
  "drop 10 (reply_frame t slot sq status err parameter payload) = payload"
  "length (reply_frame t slot sq status err parameter payload) = 10 + length payload"
  by (simp_all add: reply_frame_def nth_append le_value_le_bytes)

lemma frame_split:
  assumes "10 \<le> length frame" "length frame = 10 + le_value (take 4 (drop 1 frame))"
  shows "frame = reply_frame (frame ! 0) (frame ! 5) (frame ! 6) (frame ! 7) (frame ! 8) (frame ! 9) (drop 10 frame)"
proof -
  obtain t b1 b2 b3 b4 slot sq status err parameter payload
    where frame: "frame = t # b1 # b2 # b3 # b4 # slot # sq # status # err # parameter # payload"
    using assms(1) by (auto simp: Suc_le_length_iff eval_nat_numeral)
  have "le_bytes 4 (length payload) = [b1, b2, b3, b4]"
    using le_bytes_le_value [of "[b1, b2, b3, b4]"] assms(2) by (simp add: frame eval_nat_numeral)
  then show ?thesis by (simp add: frame reply_frame_def)
qed

lemma decode_succeeded_reply:
  "decode_succeeded t cs parameter payload = Ok r \<Longrightarrow> t = 0x81 \<longrightarrow> payload = [] \<Longrightarrow>
   reply_of t r (status_octet cs 0) err parameter payload"
  by (auto simp: decode_succeeded_def result_simps split: if_splits intro: reply_of.intros)

lemma check_frame_Ok:
  "check_frame frame t slot sq = Ok () \<longleftrightarrow>
     10 \<le> length frame \<and> length frame = 10 + le_value (take 4 (drop 1 frame)) \<and> length frame \<le> 65548 \<and>
     frame ! 0 = t \<and> frame ! 5 = slot \<and> frame ! 6 = sq \<and> (t = 0x81 \<longrightarrow> drop 10 frame = [])"
proof -
  define n where "n = le_value (take 4 (drop 1 frame))"
  show ?thesis unfolding check_frame_def Let_def n_def [symmetric] by auto
qed

lemma decode_reply_iff:
  assumes "t = 0x81 \<longrightarrow> payload = []"
  shows "decode_reply t status err parameter payload = Ok r \<longleftrightarrow> reply_of t r status err parameter payload"
proof
  assume ok: "decode_reply t status err parameter payload = Ok r"
  then obtain cs where cs: "status AND 0x3C = 0" "status AND 0x03 = card_code cs"
    by (auto simp: decode_reply_def result_simps split: if_splits)
  define command where "command = drop_bit 6 status AND 0x03"
  have status: "status = status_octet cs command"
    using status_octet_whole [OF cs] by (simp add: command_def)
  have "r = CommandFailure cs (sint err) \<and> command = 1 \<or> r = TimeExtension cs err \<and> command = 2 \<or>
      decode_succeeded t cs parameter payload = Ok r \<and> command = 0"
    using ok cs by (auto simp: decode_reply_def Let_def command_def result_simps split: if_splits)
  then show "reply_of t r status err parameter payload"
    unfolding status using assms decode_succeeded_reply by (auto intro: failure time_extension)
next
  assume "reply_of t r status err parameter payload"
  then show "decode_reply t status err parameter payload = Ok r"
    by cases (auto simp: decode_reply_def status_octet_parts decode_succeeded_def result_simps)
qed

lemma decode_reply_frame:
  assumes "reply_of t r status err parameter payload" "length payload \<le> 65538"
  shows "decode_response (reply_frame t slot sq status err parameter payload) t slot sq = Ok r"
proof -
  have empty: "t = 0x81 \<longrightarrow> payload = []" using assms(1) by cases auto
  have small: "length payload < 2 ^ 32" using assms(2) by simp
  have "check_frame (reply_frame t slot sq status err parameter payload) t slot sq = Ok ()"
    using assms(2) empty unfolding check_frame_Ok reply_fields(1) [OF small] reply_fields(2-) by simp
  then show ?thesis
    using assms(1) decode_reply_iff [OF empty] by (simp add: decode_response_def reply_fields)
qed

section \<open>Properties\<close>

text \<open>
  Property C25. A reply is accepted with a meaning exactly when it is the frame of a reply with that
  meaning: of the expected type, for the expected slot and sequence number, its length field the
  length of its payload and within the limit, its status a defined one, with no payload behind a slot
  status, and with the lengths the protocol fixes behind parameters.
\<close>
theorem response_exact:
  "decode_response frame t slot sq = Ok r \<longleftrightarrow>
     (\<exists>status err parameter payload. reply_of t r status err parameter payload \<and> length payload \<le> 65538 \<and>
        frame = reply_frame t slot sq status err parameter payload)"
  (is "_ \<longleftrightarrow> ?reply")
proof
  assume "decode_response frame t slot sq = Ok r"
  then have ok: "check_frame frame t slot sq = Ok ()"
    "decode_reply t (frame ! 7) (frame ! 8) (frame ! 9) (drop 10 frame) = Ok r"
    by (simp_all add: decode_response_def result_simps)
  then have fields: "10 \<le> length frame" "length frame = 10 + le_value (take 4 (drop 1 frame))"
    "length frame \<le> 65548" "frame ! 0 = t" "frame ! 5 = slot" "frame ! 6 = sq" "t = 0x81 \<longrightarrow> drop 10 frame = []"
    unfolding check_frame_Ok by blast+
  have "frame = reply_frame t slot sq (frame ! 7) (frame ! 8) (frame ! 9) (drop 10 frame)"
    using frame_split [OF fields(1,2)] unfolding fields(4-6) .
  moreover have "reply_of t r (frame ! 7) (frame ! 8) (frame ! 9) (drop 10 frame)"
    using ok(2) unfolding decode_reply_iff [OF fields(7)] .
  moreover have "length (drop 10 frame) \<le> 65538" unfolding length_drop using fields(3) by simp
  ultimately show ?reply by blast
next
  assume ?reply
  then show "decode_response frame t slot sq = Ok r" by (auto intro: decode_reply_frame)
qed

end
