(* ===== verification/Ccid_Engine.thy ===== *)
theory Ccid_Engine
  imports Ccid_Codec
begin

text \<open>
  The protocol engine of one reader slot: \<open>crates/ccid/src/engine.rs\<close>. The engine is a record, an
  event a value of \<open>InputEvent\<close>, and \<open>step\<close> gives the engine after the event with the actions for
  the host and the deadline to arm. \<open>None\<close> is the panic of the one unchecked addition, of the timeout
  to the time of the event. Every operation that is started is completed exactly once or still
  pending, a pending operation has a deadline, a result is of the kind of its operation, a long
  command is sent in full and a chained response is put together in order.
\<close>

section \<open>Operations, events and actions\<close>

type_synonym OperationId = u64
type_synonym DeadlineId = u64
type_synonym MonotonicTime = u64

record Deadline =
  dl_id :: DeadlineId
  expires_at :: MonotonicTime

datatype PendingOperation =
    PendingPowerOn | PendingPowerOff | PendingGetSlotStatus | PendingGetParameters
  | PendingSetParametersT0 | PendingTransferBlock | PendingSecure | PendingAbort

datatype Operation =
    PowerOn u8
  | PowerOff
  | GetSlotStatus
  | GetParameters
  | SetParametersT0 u8 u8 u8 u8 bool
  | TransferBlock u8 u16 bytes
  | Secure u8 u16 bytes
  | Abort

datatype OperationResult =
    PowerOnResult bytes
  | PowerOffResult
  | SlotStatusResult bool
  | ParametersResult bytes
  | ParametersSet
  | TransferBlockResult bytes
  | SecureResult bytes
  | Aborted

datatype IoCompletion = BulkIn bytes | BulkOut nat | Control | IoFailure CcidError

datatype InputEvent =
    Start OperationId Operation
  | IoCompleted IoCompletion
  | InterruptReceived bytes
  | DeadlineExpired DeadlineId
  | Cancel OperationId
  | ConnectionLost

datatype Action =
    SubmitBulkOut u8 bytes
  | SubmitBulkIn nat
  | SubmitControl u8 u8 u16 u16 bytes
  | Complete OperationId "(OperationResult, CcidError) result"
  | PublishSlotChange u8 bool u64
  | CancelTransfers

record Transition =
  actions :: "Action list"
  next_deadline :: "Deadline option"

section \<open>The engine\<close>

abbreviation (input) DEFAULT_ENGINE_TIMEOUT_MS :: u64 where "DEFAULT_ENGINE_TIMEOUT_MS \<equiv> 5000"
abbreviation (input) W_LEVEL_NONE :: u16 where "W_LEVEL_NONE \<equiv> 0"
abbreviation (input) W_LEVEL_BEGIN :: u16 where "W_LEVEL_BEGIN \<equiv> 1"
abbreviation (input) W_LEVEL_END :: u16 where "W_LEVEL_END \<equiv> 2"
abbreviation (input) W_LEVEL_CONTINUE :: u16 where "W_LEVEL_CONTINUE \<equiv> 3"
abbreviation (input) MAX_ABORT_DRAIN_ATTEMPTS :: nat where "MAX_ABORT_DRAIN_ATTEMPTS \<equiv> 5"
abbreviation (input) MAX_TIME_EXTENSIONS :: nat where "MAX_TIME_EXTENSIONS \<equiv> 60"
abbreviation (input) MAX_TIME_EXTENSION_WALL_MS :: u64 where "MAX_TIME_EXTENSION_WALL_MS \<equiv> 10000"

text \<open>The two counters with saturating additions, \<open>wtx_count\<close> and \<open>abort_drain_count\<close>, are numbers.\<close>

record CcidEngine =
  interface_number :: u8
  b_slot :: u8
  card_gen :: u64
  connection_gen :: u64
  next_seq :: u8
  card_present :: bool
  activated :: bool
  connected :: bool
  needs_recovery :: bool
  exchange_level :: CcidExchangeLevel
  max_message_length :: nat
  max_payload_length :: nat
  max_slot_index :: u8
  pending_op :: "(OperationId \<times> PendingOperation) option"
  expected_response_type :: u8
  expected_seq :: u8
  expected_bulk_out_len :: nat
  active_deadline_id :: u64
  current_deadline :: "Deadline option"
  default_timeout_ms :: u64
  chain_buffer :: bytes
  outgoing_chain :: "bytes list"
  pending_b_wi :: u8
  wtx_count :: nat
  op_started_at :: MonotonicTime
  abort_drain_count :: nat
  waiting_unit_ms :: u32

type_synonym engine_step = "CcidEngine \<times> Action list \<times> Deadline option"

definition engine_new :: "u8 \<Rightarrow> u8 \<Rightarrow> u64 \<Rightarrow> CcidFunctionalDescriptor \<Rightarrow> CcidEngine" where
  "engine_new interface slot connection_generation descriptor =
     \<lparr>interface_number = interface, b_slot = slot, card_gen = 1, connection_gen = connection_generation,
      next_seq = 0, card_present = False, activated = False, connected = True, needs_recovery = False,
      exchange_level = fd_exchange_level descriptor,
      max_message_length = fd_maximum_message_length descriptor,
      max_payload_length = maximum_transfer_block_length descriptor,
      max_slot_index = fd_max_slot_index descriptor,
      pending_op = None, expected_response_type = 0, expected_seq = 0, expected_bulk_out_len = 0,
      active_deadline_id = 0, current_deadline = None, default_timeout_ms = DEFAULT_ENGINE_TIMEOUT_MS,
      chain_buffer = [], outgoing_chain = [], pending_b_wi = 0, wtx_count = 0, op_started_at = 0,
      abort_drain_count = 0, waiting_unit_ms = 1000\<rparr>"

definition set_activated :: "bool \<Rightarrow> CcidEngine \<Rightarrow> CcidEngine" where
  "set_activated flag en =
     en\<lparr>activated := flag, card_present := (if flag then True else card_present en)\<rparr>"

definition mark_deactivated :: "CcidEngine \<Rightarrow> CcidEngine" where
  "mark_deactivated en = en\<lparr>activated := False\<rparr>"

definition set_waiting_unit_ms :: "u32 \<Rightarrow> CcidEngine \<Rightarrow> CcidEngine" where
  "set_waiting_unit_ms ms en = en\<lparr>waiting_unit_ms := max ms 1\<rparr>"

definition allocate_seq :: "CcidEngine \<Rightarrow> u8 \<times> CcidEngine" where
  "allocate_seq en = (next_seq en, en\<lparr>next_seq := next_seq en + 1, expected_seq := next_seq en\<rparr>)"

text \<open>The next deadline, at the given time.\<close>

definition arm_deadline :: "MonotonicTime \<Rightarrow> CcidEngine \<Rightarrow> CcidEngine" where
  "arm_deadline at en =
     en\<lparr>active_deadline_id := active_deadline_id en + 1,
        current_deadline := Some \<lparr>dl_id = active_deadline_id en + 1, expires_at = at\<rparr>\<rparr>"

definition card_gone :: "CcidEngine \<Rightarrow> CcidEngine" where
  "card_gone en = en\<lparr>card_present := False, activated := False, card_gen := card_gen en + 1\<rparr>"

definition read_reply :: "CcidEngine \<Rightarrow> Action" where
  "read_reply en = SubmitBulkIn (max (max_message_length en) CCID_HEADER_SIZE)"

section \<open>Interrupts\<close>

definition hardware_error_interrupt :: "CcidEngine \<Rightarrow> bytes \<Rightarrow> engine_step" where
  "hardware_error_interrupt en raw_bytes =
     (case decode_interrupt_hardware_error raw_bytes of
        Err _ \<Rightarrow> (en, [], None)
      | Ok hw_err \<Rightarrow>
          if hw_slot hw_err \<noteq> b_slot en then (en, [], None)
          else
            ((card_gone en)\<lparr>needs_recovery := True, current_deadline := None, pending_op := None\<rparr>,
             (case pending_op en of
                None \<Rightarrow> []
              | Some (op_id, _) \<Rightarrow> [CancelTransfers, Complete op_id (Err (CcidIo IoConnectionLost))]),
             None))"

definition slot_change_interrupt :: "CcidEngine \<Rightarrow> bytes \<Rightarrow> engine_step" where
  "slot_change_interrupt en raw_bytes =
     (case decode_interrupt_slot_change raw_bytes (max_slot_index en) of
        Err _ \<Rightarrow> (en, [], None)
      | Ok notification \<Rightarrow>
          let present = list_flag (slot_presence notification) (b_slot en);
              changed = list_flag (slot_changed notification) (b_slot en) in
          if \<not> (changed \<or> present \<noteq> card_present en) then (en, [], None)
          else
            let en = en\<lparr>card_present := present, card_gen := card_gen en + 1\<rparr>;
                publish = PublishSlotChange (b_slot en) present (card_gen en) in
            if changed \<or> \<not> present then
              let en = en\<lparr>activated := False\<rparr> in
              (case pending_op en of
                 None \<Rightarrow> (en, [publish], None)
               | Some (op_id, _) \<Rightarrow>
                   (en\<lparr>pending_op := None, current_deadline := None\<rparr>,
                    [CancelTransfers, Complete op_id (Err CardRemoved), publish], None))
            else (en, [publish], None))"

definition interrupt_received :: "CcidEngine \<Rightarrow> bytes \<Rightarrow> engine_step" where
  "interrupt_received en raw_bytes =
     (if raw_bytes \<noteq> [] \<and> hd raw_bytes = RDR_TO_PC_HARDWARE_ERROR
      then hardware_error_interrupt en raw_bytes
      else slot_change_interrupt en raw_bytes)"

section \<open>Starting an operation\<close>

text \<open>The length of a command is checked before anything is sent.\<close>

fun command_too_long :: "CcidEngine \<Rightarrow> Operation \<Rightarrow> bool" where
  "command_too_long en (TransferBlock b_wi w_level_parameter data) \<longleftrightarrow>
     length data > (if exchange_level en = ShortAndExtendedApdu then MAXIMUM_CCID_COMMAND_PAYLOAD_LENGTH
                    else max_payload_length en)"
| "command_too_long en (Secure b_wi w_level_parameter data) \<longleftrightarrow> length data > max_payload_length en"
| "command_too_long en _ \<longleftrightarrow> False"

definition start_refusal :: "CcidEngine \<Rightarrow> Operation \<Rightarrow> CcidError option" where
  "start_refusal en op =
     (if \<not> connected en then Some (CcidIo IoConnectionLost)
      else if needs_recovery en \<and> op \<noteq> Abort then Some (CcidDesync SlotRecoveryRequired)
      else if pending_op en \<noteq> None then Some (CcidDesync OperationAlreadyPending)
      else if command_too_long en op then Some ApduTooLong
      else None)"

definition is_chained :: "CcidEngine \<Rightarrow> bytes \<Rightarrow> bool" where
  "is_chained en data \<longleftrightarrow>
     exchange_level en = ShortAndExtendedApdu \<and> max_payload_length en > 0 \<and>
     length data > max_payload_length en"

text \<open>
  The engine with the rest of a long command, the pending operation, its message and the type of
  its reply. There is no arm for an abort, which starts on the control pipe.
\<close>

fun encode_operation ::
  "CcidEngine \<Rightarrow> u8 \<Rightarrow> Operation \<Rightarrow> CcidEngine \<times> PendingOperation \<times> bytes \<times> u8" where
  "encode_operation en sq (PowerOn voltage) =
     (en, PendingPowerOn, encode_icc_power_on (b_slot en) sq voltage, RDR_TO_PC_DATA_BLOCK)"
| "encode_operation en sq PowerOff =
     (en, PendingPowerOff, encode_icc_power_off (b_slot en) sq, RDR_TO_PC_SLOT_STATUS)"
| "encode_operation en sq GetSlotStatus =
     (en, PendingGetSlotStatus, encode_get_slot_status (b_slot en) sq, RDR_TO_PC_SLOT_STATUS)"
| "encode_operation en sq GetParameters =
     (en, PendingGetParameters, encode_get_parameters (b_slot en) sq, RDR_TO_PC_PARAMETERS)"
| "encode_operation en sq (SetParametersT0 fi_di guard_time waiting_integer clock_stop inverse_convention) =
     (en, PendingSetParametersT0,
      encode_set_parameters_t0 (b_slot en) sq fi_di guard_time waiting_integer clock_stop inverse_convention,
      RDR_TO_PC_PARAMETERS)"
| "encode_operation en sq (TransferBlock b_wi w_level_parameter data) =
     (let max_block = max_payload_length en in
      if is_chained en data then
        (en\<lparr>pending_b_wi := b_wi, outgoing_chain := chunks max_block (drop max_block data)\<rparr>,
         PendingTransferBlock,
         encode_xfr_block (b_slot en) sq b_wi W_LEVEL_BEGIN (take max_block data), RDR_TO_PC_DATA_BLOCK)
      else
        (en, PendingTransferBlock, encode_xfr_block (b_slot en) sq b_wi w_level_parameter data,
         RDR_TO_PC_DATA_BLOCK))"
| "encode_operation en sq (Secure b_wi w_level_parameter data) =
     (en, PendingSecure, encode_secure (b_slot en) sq b_wi w_level_parameter data, RDR_TO_PC_DATA_BLOCK)"

definition abort_request :: "CcidEngine \<Rightarrow> u8 \<Rightarrow> Action" where
  "abort_request en sq =
     SubmitControl 0x21 0x01 (push_bit 8 (ucast sq) OR ucast (b_slot en)) (ucast (interface_number en)) []"

definition start :: "CcidEngine \<Rightarrow> MonotonicTime \<Rightarrow> OperationId \<Rightarrow> Operation \<Rightarrow> engine_step option" where
  "start en now op_id op =
     (case start_refusal en op of
        Some e \<Rightarrow> Some (en, [Complete op_id (Err e)], None)
      | None \<Rightarrow>
          let en = en\<lparr>wtx_count := 0, op_started_at := now, chain_buffer := [], outgoing_chain := []\<rparr>;
              (sq, en) = allocate_seq en in
          if op = Abort then
            let en = en\<lparr>pending_op := Some (op_id, PendingAbort),
                        expected_response_type := RDR_TO_PC_SLOT_STATUS, abort_drain_count := 0\<rparr> in
            map_option (\<lambda>at. let en = arm_deadline at en in (en, [abort_request en sq], current_deadline en))
              (checked_add now (default_timeout_ms en))
          else
            let (en, pending_kind, encoded, expected_resp) = encode_operation en sq op;
                en = en\<lparr>pending_op := Some (op_id, pending_kind), expected_response_type := expected_resp,
                        expected_bulk_out_len := length encoded\<rparr> in
            map_option (\<lambda>at. let en = arm_deadline at en in (en, [SubmitBulkOut sq encoded], current_deadline en))
              (checked_add now (default_timeout_ms en)))"

section \<open>Transfers\<close>

definition bulk_out_done :: "CcidEngine \<Rightarrow> nat \<Rightarrow> engine_step" where
  "bulk_out_done en transferred =
     (if transferred \<noteq> expected_bulk_out_len en then
        case pending_op en of
          None \<Rightarrow> (en, [], None)
        | Some (op_id, _) \<Rightarrow>
            (en\<lparr>pending_op := None, current_deadline := None, needs_recovery := True\<rparr>,
             [CancelTransfers, Complete op_id (Err (CcidIo (ShortWrite (expected_bulk_out_len en) transferred)))],
             None)
      else (en, [read_reply en], None))"

definition control_done :: "CcidEngine \<Rightarrow> engine_step" where
  "control_done en =
     (case pending_op en of
        Some (_, PendingAbort) \<Rightarrow>
          let encoded = encode_abort (b_slot en) (expected_seq en) in
          (en\<lparr>expected_bulk_out_len := length encoded\<rparr>, [SubmitBulkOut (expected_seq en) encoded], None)
      | _ \<Rightarrow> (en, [], None))"

definition is_io_failure :: "CcidError \<Rightarrow> bool" where
  "is_io_failure e \<longleftrightarrow> (case e of CcidTimeout \<Rightarrow> True | CcidIo _ \<Rightarrow> True | _ \<Rightarrow> False)"

definition transfer_failed :: "CcidEngine \<Rightarrow> CcidError \<Rightarrow> engine_step" where
  "transfer_failed en e =
     (let en = en\<lparr>outgoing_chain := []\<rparr> in
      case pending_op en of
        None \<Rightarrow> (en, [], None)
      | Some (op_id, _) \<Rightarrow>
          let en = en\<lparr>pending_op := None\<rparr>;
              en = (if e = CardRemoved then card_gone en else en);
              en = (if is_io_failure e then en\<lparr>needs_recovery := True\<rparr> else en) in
          (en\<lparr>current_deadline := None\<rparr>, [CancelTransfers, Complete op_id (Err e)], None))"

section \<open>Replies\<close>

text \<open>
  Each handler is given the engine with the pending operation taken out, and the operation; it puts
  the operation back when the exchange goes on.
\<close>

definition on_time_extension ::
  "CcidEngine \<Rightarrow> MonotonicTime \<Rightarrow> OperationId \<Rightarrow> PendingOperation \<Rightarrow> u8 \<Rightarrow> engine_step" where
  "on_time_extension en now op_id pending multiplier =
     (let en = en\<lparr>wtx_count := min (wtx_count en + 1) (2 ^ 32 - 1)\<rparr>;
          extension_ms = of_nat (min (unat multiplier * unat (waiting_unit_ms en)) (2 ^ 64 - 1));
          extended_until = saturating_add now extension_ms;
          waited_ms = saturating_sub extended_until (op_started_at en) in
      if wtx_count en > MAX_TIME_EXTENSIONS \<or> waited_ms > MAX_TIME_EXTENSION_WALL_MS then
        (en\<lparr>current_deadline := None, needs_recovery := True\<rparr>,
         [CancelTransfers, Complete op_id (Err CcidTimeout)], None)
      else
        let en = arm_deadline extended_until (en\<lparr>pending_op := Some (op_id, pending)\<rparr>) in
        (en, [read_reply en], current_deadline en))"

text \<open>What completes an operation that is answered with data, and the error paths of a chain.\<close>

definition data_result :: "PendingOperation \<Rightarrow> bytes \<Rightarrow> OperationResult" where
  "data_result pending data =
     (case pending of
        PendingTransferBlock \<Rightarrow> TransferBlockResult data
      | PendingSecure \<Rightarrow> SecureResult data
      | _ \<Rightarrow> PowerOnResult data)"

definition complete_data :: "CcidEngine \<Rightarrow> OperationId \<Rightarrow> PendingOperation \<Rightarrow> bytes \<Rightarrow> engine_step" where
  "complete_data en op_id pending data =
     (let en = (if pending = PendingPowerOn then en\<lparr>activated := True, card_present := True\<rparr> else en) in
      (en\<lparr>current_deadline := None\<rparr>, [Complete op_id (Ok (data_result pending data))], None))"

definition chain_desync :: "CcidEngine \<Rightarrow> OperationId \<Rightarrow> CcidProtocolDesync \<Rightarrow> engine_step" where
  "chain_desync en op_id reason =
     (en\<lparr>current_deadline := None, needs_recovery := True\<rparr>, [Complete op_id (Err (CcidDesync reason))], None)"

definition response_too_long :: "CcidEngine \<Rightarrow> OperationId \<Rightarrow> engine_step" where
  "response_too_long en op_id =
     (en\<lparr>chain_buffer := [], current_deadline := None\<rparr>, [Complete op_id (Err ResponseLengthOutOfRange)], None)"

text \<open>A block that more blocks follow is kept, and the next one asked for.\<close>

definition next_response_block ::
  "CcidEngine \<Rightarrow> OperationId \<Rightarrow> PendingOperation \<Rightarrow> bytes \<Rightarrow> engine_step" where
  "next_response_block en op_id pending payload =
     (if length (chain_buffer en) + length payload > MAX_RESPONSE_PAYLOAD_SIZE
      then response_too_long en op_id
      else
        let (sq, en) = allocate_seq (en\<lparr>chain_buffer := chain_buffer en @ payload\<rparr>);
            cmd = encode_xfr_block (b_slot en) sq 0 (ucast CHAIN_COMMAND_CONTINUATION_EXPECTED) [] in
        (en\<lparr>pending_op := Some (op_id, pending), expected_bulk_out_len := length cmd\<rparr>,
         [SubmitBulkOut sq cmd], None))"

text \<open>The next block of a long command, with a fresh deadline.\<close>

definition next_command_block ::
  "CcidEngine \<Rightarrow> MonotonicTime \<Rightarrow> OperationId \<Rightarrow> PendingOperation \<Rightarrow> engine_step option" where
  "next_command_block en now op_id pending =
     (case outgoing_chain en of
        [] \<Rightarrow> Some (en\<lparr>current_deadline := None\<rparr>,
                    [Complete op_id (Err (CcidDesync UnexpectedCommandContinuation))], None)
      | next_chunk # rest \<Rightarrow>
          let w_level = (if rest = [] then W_LEVEL_END else W_LEVEL_CONTINUE);
              (sq, en) = allocate_seq (en\<lparr>outgoing_chain := rest\<rparr>);
              cmd = encode_xfr_block (b_slot en) sq (pending_b_wi en) w_level next_chunk;
              en = en\<lparr>pending_op := Some (op_id, pending), expected_bulk_out_len := length cmd\<rparr> in
          map_option (\<lambda>at. let en = arm_deadline at en in (en, [SubmitBulkOut sq cmd], current_deadline en))
            (checked_add now (default_timeout_ms en)))"

definition on_data_block ::
  "CcidEngine \<Rightarrow> MonotonicTime \<Rightarrow> OperationId \<Rightarrow> PendingOperation \<Rightarrow> CardStatus \<Rightarrow> ChainParameter \<Rightarrow> bytes \<Rightarrow>
   engine_step option" where
  "on_data_block en now op_id pending card_status chain_parameter payload =
     (if card_status = NotPresent then
        Some ((card_gone en)\<lparr>current_deadline := None\<rparr>, [Complete op_id (Err CardRemoved)], None)
      else case chain_parameter of
        ChainBegin \<Rightarrow> Some
          (if chain_buffer en \<noteq> [] then chain_desync (en\<lparr>chain_buffer := []\<rparr>) op_id ChainBeginAlreadyOpen
           else next_response_block en op_id pending payload)
      | ChainContinue \<Rightarrow> Some
          (if chain_buffer en = [] then chain_desync en op_id ChainContinueWithoutBegin
           else next_response_block en op_id pending payload)
      | ChainEnd \<Rightarrow> Some
          (if chain_buffer en = [] then chain_desync en op_id ChainEndWithoutBegin
           else if length (chain_buffer en) + length payload > MAX_RESPONSE_PAYLOAD_SIZE
           then response_too_long en op_id
           else complete_data (en\<lparr>chain_buffer := []\<rparr>) op_id pending (chain_buffer en @ payload))
      | ChainComplete \<Rightarrow> Some
          (if chain_buffer en \<noteq> [] then chain_desync (en\<lparr>chain_buffer := []\<rparr>) op_id ChainCompleteWhileOpen
           else if length payload > MAX_RESPONSE_PAYLOAD_SIZE then response_too_long en op_id
           else complete_data en op_id pending payload)
      | CommandContinuationExpected \<Rightarrow> next_command_block en now op_id pending)"

definition on_slot_status :: "CcidEngine \<Rightarrow> OperationId \<Rightarrow> PendingOperation \<Rightarrow> CardStatus \<Rightarrow> engine_step" where
  "on_slot_status en op_id pending card_status =
     (let present = (card_status = Active \<or> card_status = Inactive);
          en = (if \<not> present \<and> card_present en then en\<lparr>activated := False, card_gen := card_gen en + 1\<rparr> else en);
          en = en\<lparr>card_present := present, current_deadline := None\<rparr> in
      case pending of
        PendingPowerOff \<Rightarrow> (en\<lparr>activated := False\<rparr>, [Complete op_id (Ok PowerOffResult)], None)
      | PendingAbort \<Rightarrow> (en\<lparr>needs_recovery := False\<rparr>, [Complete op_id (Ok Aborted)], None)
      | _ \<Rightarrow> (en, [Complete op_id (Ok (SlotStatusResult present))], None))"

definition on_parameters ::
  "CcidEngine \<Rightarrow> OperationId \<Rightarrow> PendingOperation \<Rightarrow> CardStatus \<Rightarrow> bytes \<Rightarrow> engine_step" where
  "on_parameters en op_id pending card_status payload =
     ((if card_status = NotPresent then card_gone en else en)\<lparr>current_deadline := None\<rparr>,
      [Complete op_id (Ok (if pending = PendingSetParametersT0 then ParametersSet else ParametersResult payload))],
      None)"

definition on_command_failure :: "CcidEngine \<Rightarrow> OperationId \<Rightarrow> CardStatus \<Rightarrow> int \<Rightarrow> engine_step" where
  "on_command_failure en op_id card_status error_code =
     ((if card_status = NotPresent then card_gone en else en)\<lparr>current_deadline := None\<rparr>,
      [Complete op_id (Err (CommandFailed error_code))], None)"

definition on_bad_frame :: "CcidEngine \<Rightarrow> OperationId \<Rightarrow> PendingOperation \<Rightarrow> CcidError \<Rightarrow> engine_step" where
  "on_bad_frame en op_id pending e =
     (if pending = PendingAbort \<and> abort_drain_count en < MAX_ABORT_DRAIN_ATTEMPTS then
        (en\<lparr>abort_drain_count := min (abort_drain_count en + 1) 255, pending_op := Some (op_id, pending)\<rparr>,
         [read_reply en], None)
      else (en\<lparr>current_deadline := None, needs_recovery := True\<rparr>, [Complete op_id (Err e)], None))"

definition bulk_in_done :: "CcidEngine \<Rightarrow> MonotonicTime \<Rightarrow> bytes \<Rightarrow> engine_step option" where
  "bulk_in_done en now frame =
     (case pending_op en of
        None \<Rightarrow> Some (en, [], None)
      | Some (op_id, pending) \<Rightarrow>
          let en = en\<lparr>pending_op := None\<rparr> in
          (case decode_response frame (expected_response_type en) (b_slot en) (expected_seq en) of
             Ok (TimeExtension _ multiplier) \<Rightarrow> Some (on_time_extension en now op_id pending multiplier)
           | Ok (DataBlock card_status chain_parameter payload) \<Rightarrow>
               on_data_block en now op_id pending card_status chain_parameter payload
           | Ok (SlotStatus card_status _) \<Rightarrow> Some (on_slot_status en op_id pending card_status)
           | Ok (Parameters card_status _ payload) \<Rightarrow> Some (on_parameters en op_id pending card_status payload)
           | Ok (CommandFailure card_status error_code) \<Rightarrow>
               Some (on_command_failure en op_id card_status error_code)
           | Err e \<Rightarrow> Some (on_bad_frame en op_id pending e)))"

section \<open>Deadlines, cancellation and the step\<close>

definition deadline_expired :: "CcidEngine \<Rightarrow> MonotonicTime \<Rightarrow> DeadlineId \<Rightarrow> engine_step" where
  "deadline_expired en now expired =
     (case (current_deadline en, pending_op en) of
        (Some dl, Some (op_id, _)) \<Rightarrow>
          if dl_id dl = expired \<and> now \<ge> expires_at dl then
            (en\<lparr>outgoing_chain := [], needs_recovery := True, current_deadline := None, pending_op := None\<rparr>,
             [CancelTransfers, Complete op_id (Err CcidTimeout)], None)
          else (en, [], None)
      | _ \<Rightarrow> (en, [], None))"

definition cancel :: "CcidEngine \<Rightarrow> OperationId \<Rightarrow> engine_step" where
  "cancel en op_id =
     (if map_option fst (pending_op en) = Some op_id then
        (en\<lparr>outgoing_chain := [], pending_op := None, current_deadline := None, needs_recovery := True\<rparr>,
         [CancelTransfers, Complete op_id (Err Cancelled)], None)
      else (en, [], None))"

definition connection_lost :: "CcidEngine \<Rightarrow> engine_step" where
  "connection_lost en =
     (en\<lparr>outgoing_chain := [], connected := False, card_present := False, activated := False,
         current_deadline := None, pending_op := None\<rparr>,
      (case pending_op en of
         None \<Rightarrow> []
       | Some (op_id, _) \<Rightarrow> [Complete op_id (Err (CcidIo DeviceDisconnected))]),
      None)"

text \<open>
  The transition of a handler that runs to the end of \<open>step\<close>: with no deadline of its own it names
  the one that is armed. A start returns early or has a deadline of its own.
\<close>

definition transition :: "engine_step \<Rightarrow> CcidEngine \<times> Transition" where
  "transition r = (case r of (en, acts, deadline) \<Rightarrow> (en, \<lparr>actions = acts, next_deadline = deadline\<rparr>))"

definition rearm :: "engine_step \<Rightarrow> engine_step" where
  "rearm r = (case r of (en, acts, deadline) \<Rightarrow>
     (en, acts, if deadline = None \<and> pending_op en \<noteq> None then current_deadline en else deadline))"

fun handle :: "CcidEngine \<Rightarrow> MonotonicTime \<Rightarrow> InputEvent \<Rightarrow> engine_step option" where
  "handle en now (InterruptReceived raw_bytes) = Some (rearm (interrupt_received en raw_bytes))"
| "handle en now (Start op_id op) = start en now op_id op"
| "handle en now (IoCompleted (BulkOut transferred)) = Some (rearm (bulk_out_done en transferred))"
| "handle en now (IoCompleted Control) = Some (rearm (control_done en))"
| "handle en now (IoCompleted (BulkIn frame)) = map_option rearm (bulk_in_done en now frame)"
| "handle en now (IoCompleted (IoFailure e)) = Some (rearm (transfer_failed en e))"
| "handle en now (DeadlineExpired expired) = Some (rearm (deadline_expired en now expired))"
| "handle en now (Cancel op_id) = Some (rearm (cancel en op_id))"
| "handle en now ConnectionLost = Some (rearm (connection_lost en))"

definition step :: "CcidEngine \<Rightarrow> MonotonicTime \<Rightarrow> InputEvent \<Rightarrow> (CcidEngine \<times> Transition) option" where
  "step en now event = map_option transition (handle en now event)"

end
