(* ===== verification/Ccid_Slot.thy ===== *)
theory Ccid_Slot
  imports Ccid_Engine
begin

text \<open>
  What the protocol engine of a reader slot promises for every sequence of events: the invariant of
  the engine, that an operation is completed exactly once, with a result of its kind, that a pending
  operation has a deadline, and that messages fit the reader. The transfer of long commands and of
  chained responses is followed block by block.
\<close>

section \<open>The invariant\<close>

fun reply_type :: "PendingOperation \<Rightarrow> u8" where
  "reply_type PendingPowerOn = 0x80"
| "reply_type PendingPowerOff = 0x81"
| "reply_type PendingGetSlotStatus = 0x81"
| "reply_type PendingGetParameters = 0x82"
| "reply_type PendingSetParametersT0 = 0x82"
| "reply_type PendingTransferBlock = 0x80"
| "reply_type PendingSecure = 0x80"
| "reply_type PendingAbort = 0x81"

text \<open>The state while an operation is pending.\<close>

definition pending_inv :: "PendingOperation \<Rightarrow> CcidEngine \<Rightarrow> bool" where
  "pending_inv k en \<longleftrightarrow>
     connected en \<and> (needs_recovery en \<longrightarrow> k = PendingAbort) \<and> expected_response_type en = reply_type k \<and>
     (outgoing_chain en \<noteq> [] \<longrightarrow> k = PendingTransferBlock) \<and> wtx_count en \<le> 60 \<and>
     abort_drain_count en \<le> 5 \<and> next_seq en = expected_seq en + 1"

definition engine_inv :: "CcidEngine \<Rightarrow> bool" where
  "engine_inv en \<longleftrightarrow>
     (case pending_op en of
        None \<Rightarrow> current_deadline en = None
      | Some (_, k) \<Rightarrow> map_option dl_id (current_deadline en) = Some (active_deadline_id en) \<and> pending_inv k en) \<and>
     (activated en \<longrightarrow> card_present en) \<and>
     length (chain_buffer en) \<le> 65538 \<and>
     (\<forall>c \<in> set (outgoing_chain en). length c \<le> max_payload_length en) \<and>
     default_timeout_ms en = 5000 \<and> abort_drain_count en \<le> 5 \<and>
     max_payload_length en + 10 \<le> max_message_length en"

lemmas reply_defs =
  on_time_extension_def on_data_block_def on_slot_status_def on_parameters_def on_command_failure_def
  on_bad_frame_def complete_data_def chain_desync_def response_too_long_def next_response_block_def
  next_command_block_def data_result_def

lemmas event_defs =
  interrupt_received_def hardware_error_interrupt_def slot_change_interrupt_def bulk_out_done_def
  control_done_def transfer_failed_def deadline_expired_def cancel_def connection_lost_def

lemmas engine_defs = card_gone_def arm_deadline_def allocate_seq_def read_reply_def Let_def

text \<open>What a succeeding decoder says of the type of the reply.\<close>

lemma decoded_type:
  "decode_response frame t slot sq = Ok (DataBlock cs cp payload) \<Longrightarrow> t = 0x80"
  "decode_response frame t slot sq = Ok (SlotStatus cs clock) \<Longrightarrow> t = 0x81"
  "decode_response frame t slot sq = Ok (Parameters cs protocol payload) \<Longrightarrow> t = 0x82"
  by (auto simp: decode_response_def decode_reply_def decode_succeeded_def result_simps Let_def
      split: if_splits)

section \<open>Every event keeps the invariant\<close>

lemma encode_operation_kind:
  assumes "op \<noteq> Abort" "encode_operation en sq op = (en', k, encoded, t)"
  obtains b_wi chain where "en' = en\<lparr>pending_b_wi := b_wi, outgoing_chain := chain\<rparr>"
    "t = reply_type k" "k \<noteq> PendingAbort"
    "chain = outgoing_chain en \<or>
     k = PendingTransferBlock \<and> (\<forall>c \<in> set chain. length c \<le> max_payload_length en)"
proof -
  have "en' = en\<lparr>pending_b_wi := pending_b_wi en', outgoing_chain := outgoing_chain en'\<rparr>"
    using assms by (cases op; auto simp: Let_def split: if_splits)
  moreover have "outgoing_chain en' = outgoing_chain en \<or>
     k = PendingTransferBlock \<and> (\<forall>c \<in> set (outgoing_chain en'). length c \<le> max_payload_length en)"
    using assms by (cases op; auto simp: Let_def dest: chunks_bounds split: if_splits)
  moreover have "t = reply_type k" "k \<noteq> PendingAbort"
    using assms by (cases op; auto simp: Let_def split: if_splits)+
  ultimately show thesis using that by metis
qed

text \<open>The engine of an accepted start, before the operation is entered.\<close>

definition started :: "CcidEngine \<Rightarrow> MonotonicTime \<Rightarrow> CcidEngine" where
  "started en now =
     en\<lparr>wtx_count := 0, op_started_at := now, chain_buffer := [], outgoing_chain := [],
        next_seq := next_seq en + 1, expected_seq := next_seq en\<rparr>"

lemma abort_request_cong:
  "b_slot en' = b_slot en \<Longrightarrow> interface_number en' = interface_number en \<Longrightarrow> abort_request en' sq = abort_request en sq"
  by (simp add: abort_request_def)

lemma start_cases:
  assumes "start en now op_id op = Some (en', acts, d)"
  obtains (refused) e where "start_refusal en op = Some e" "en' = en" "acts = [Complete op_id (Err e)]" "d = None"
  | (aborting) at where "start_refusal en op = None" "op = Abort"
      "en' = arm_deadline at ((started en now)\<lparr>pending_op := Some (op_id, PendingAbort),
         expected_response_type := 0x81, abort_drain_count := 0\<rparr>)"
      "acts = [abort_request en (next_seq en)]" "d = current_deadline en'"
  | (sent) en1 k encoded t at where "start_refusal en op = None" "op \<noteq> Abort"
      "encode_operation (started en now) (next_seq en) op = (en1, k, encoded, t)"
      "en' = arm_deadline at (en1\<lparr>pending_op := Some (op_id, k), expected_response_type := t,
         expected_bulk_out_len := length encoded\<rparr>)"
      "acts = [SubmitBulkOut (next_seq en) encoded]" "d = current_deadline en'"
proof (cases "start_refusal en op")
  case (Some e)
  from assms have "(en', acts, d) = (en, [Complete op_id (Err e)], None)"
    unfolding start_def Some option.case by simp
  with refused [OF Some] show thesis by simp
next
  case None
  have fresh: "allocate_seq (en\<lparr>wtx_count := 0, op_started_at := now, chain_buffer := [], outgoing_chain := []\<rparr>)
      = (next_seq en, started en now)"
    by (simp add: allocate_seq_def started_def)
  show thesis
  proof (cases "op = Abort")
    case True
    define en0 where "en0 = (started en now)\<lparr>pending_op := Some (op_id, PendingAbort),
      expected_response_type := 0x81, abort_drain_count := 0\<rparr>"
    have "abort_request (arm_deadline at en0) sq = abort_request en sq" for at sq
      by (rule abort_request_cong) (simp_all add: arm_deadline_def en0_def started_def)
    moreover obtain at where "(en', acts, d) = (arm_deadline at en0, [abort_request (arm_deadline at en0) (next_seq en)],
        current_deadline (arm_deadline at en0))"
      using assms [unfolded start_def None option.case, unfolded fresh True Let_def] by (auto simp: en0_def)
    ultimately show thesis using aborting [OF None True] by (simp add: en0_def)
  next
    case False
    obtain en1 k encoded t where enc: "encode_operation (started en now) (next_seq en) op = (en1, k, encoded, t)"
      by (metis prod_cases4)
    define en2 where "en2 = en1\<lparr>pending_op := Some (op_id, k), expected_response_type := t,
      expected_bulk_out_len := length encoded\<rparr>"
    obtain at where "(en', acts, d) = (arm_deadline at en2, [SubmitBulkOut (next_seq en) encoded],
        current_deadline (arm_deadline at en2))"
      using assms [unfolded start_def None option.case, unfolded fresh Let_def] False by (auto simp: enc en2_def)
    then show thesis using sent [OF None False enc] by (simp add: en2_def)
  qed
qed

lemma start_inv:
  assumes "engine_inv en" "start en now op_id op = Some (en', acts, d)"
  shows "engine_inv en'"
  using assms(2)
proof (cases rule: start_cases)
  case refused
  with assms(1) show ?thesis by simp
next
  case (aborting at)
  then have "connected en" "pending_op en = None"
    by (auto simp: start_refusal_def simp del: not_None_eq split: if_splits)
  with aborting assms(1) show ?thesis
    by (auto simp: started_def arm_deadline_def engine_inv_def pending_inv_def)
next
  case (sent en1 k encoded t at)
  then have idle: "connected en" "pending_op en = None" "\<not> needs_recovery en"
    by (auto simp: start_refusal_def simp del: not_None_eq split: if_splits)
  obtain b_wi chain where "en1 = (started en now)\<lparr>pending_b_wi := b_wi, outgoing_chain := chain\<rparr>"
    "t = reply_type k" "k \<noteq> PendingAbort" "chain = outgoing_chain (started en now) \<or>
      k = PendingTransferBlock \<and> (\<forall>c \<in> set chain. length c \<le> max_payload_length (started en now))"
    by (rule encode_operation_kind [OF sent(2,3)])
  with sent(4) idle assms(1) show ?thesis
    by (auto simp: started_def arm_deadline_def engine_inv_def pending_inv_def)
qed

lemma event_inv:
  assumes "engine_inv en"
  shows "engine_inv (fst (hardware_error_interrupt en raw_bytes))"
    "engine_inv (fst (slot_change_interrupt en raw_bytes))"
    "engine_inv (fst (bulk_out_done en transferred))"
    "engine_inv (fst (control_done en))"
    "engine_inv (fst (transfer_failed en e))"
    "engine_inv (fst (deadline_expired en now expired))"
    "engine_inv (fst (cancel en op_id))"
    "engine_inv (fst (connection_lost en))"
proof -
  obtain op_id k where pending: "pending_op en = None \<or> pending_op en = Some (op_id, k)"
    by (metis not_None_eq surj_pair)
  note state = assms [unfolded engine_inv_def] pending
  show "engine_inv (fst (hardware_error_interrupt en raw_bytes))"
    using state by (cases "decode_interrupt_hardware_error raw_bytes")
      (auto simp: hardware_error_interrupt_def engine_inv_def card_gone_def)
  show "engine_inv (fst (slot_change_interrupt en raw_bytes))"
    using state by (cases "decode_interrupt_slot_change raw_bytes (max_slot_index en)")
      (auto simp: slot_change_interrupt_def Let_def engine_inv_def pending_inv_def)
  show "engine_inv (fst (bulk_out_done en transferred))"
    using state by (auto simp: bulk_out_done_def engine_inv_def)
  show "engine_inv (fst (control_done en))"
    using state by (cases k) (auto simp: control_done_def Let_def engine_inv_def pending_inv_def)
  show "engine_inv (fst (transfer_failed en e))"
    using state by (cases "e = CardRemoved"; cases "is_io_failure e")
      (auto simp: transfer_failed_def engine_defs engine_inv_def)
  show "engine_inv (fst (deadline_expired en now expired))"
    using state by (auto simp: deadline_expired_def engine_inv_def split: option.split)
  show "engine_inv (fst (cancel en op_id))" for op_id
    using state by (auto simp: cancel_def engine_inv_def)
  show "engine_inv (fst (connection_lost en))"
    using state by (auto simp: connection_lost_def engine_inv_def)
qed

text \<open>The invariant of an engine whose operation has been taken out to be answered.\<close>

definition taken_inv :: "PendingOperation \<Rightarrow> CcidEngine \<Rightarrow> bool" where
  "taken_inv k en \<longleftrightarrow> engine_inv (en\<lparr>pending_op := Some (0, k)\<rparr>) \<and> pending_op en = None"

lemma reply_inv:
  assumes "taken_inv k en"
  shows "engine_inv (fst (on_time_extension en now op_id k multiplier))"
    "on_data_block en now op_id k cs cp payload = Some r \<Longrightarrow> engine_inv (fst r)"
    "engine_inv (fst (on_slot_status en op_id k cs))"
    "engine_inv (fst (on_parameters en op_id k cs payload))"
    "engine_inv (fst (on_command_failure en op_id cs error_code))"
    "engine_inv (fst (on_bad_frame en op_id k e))"
proof -
  note state = assms [unfolded taken_inv_def engine_inv_def pending_inv_def]
  show "engine_inv (fst (on_time_extension en now op_id k multiplier))"
    using state by (auto simp: on_time_extension_def engine_defs engine_inv_def pending_inv_def)
  show "engine_inv (fst (on_slot_status en op_id k cs))"
    using state by (cases k; cases cs) (auto simp: on_slot_status_def Let_def engine_inv_def)
  show "engine_inv (fst (on_parameters en op_id k cs payload))"
    using state by (auto simp: on_parameters_def card_gone_def engine_inv_def)
  show "engine_inv (fst (on_command_failure en op_id cs error_code))"
    using state by (auto simp: on_command_failure_def card_gone_def engine_inv_def)
  show "engine_inv (fst (on_bad_frame en op_id k e))"
    using state by (auto simp: on_bad_frame_def engine_inv_def pending_inv_def)
  have block: "engine_inv (fst (next_response_block en op_id k payload))"
    using state by (auto simp: next_response_block_def response_too_long_def engine_defs engine_inv_def pending_inv_def)
  have command: "engine_inv (fst r)" if cont: "next_command_block en now op_id k = Some r"
  proof (cases "outgoing_chain en")
    case Nil
    then have "r = (en\<lparr>current_deadline := None\<rparr>, [Complete op_id (Err (CcidDesync UnexpectedCommandContinuation))], None)"
      using cont by (simp add: next_command_block_def)
    with state show ?thesis by (simp add: engine_inv_def)
  next
    case (Cons c rest)
    then obtain at n where "fst r = arm_deadline at ((snd (allocate_seq (en\<lparr>outgoing_chain := rest\<rparr>)))
        \<lparr>pending_op := Some (op_id, k), expected_bulk_out_len := n\<rparr>)"
      using cont by (auto simp: next_command_block_def Let_def allocate_seq_def)
    with state Cons show ?thesis by (auto simp: engine_defs engine_inv_def pending_inv_def)
  qed
  have ends: "engine_inv (fst (chain_desync en op_id reason))"
      "engine_inv (fst (chain_desync (en\<lparr>chain_buffer := []\<rparr>) op_id reason))"
      "engine_inv (fst (response_too_long en op_id))"
      "engine_inv (fst (complete_data en op_id k data))"
      "engine_inv (fst (complete_data (en\<lparr>chain_buffer := []\<rparr>) op_id k data))"
      "engine_inv ((card_gone en)\<lparr>current_deadline := None\<rparr>)" for reason data
    using state by (simp_all add: chain_desync_def response_too_long_def complete_data_def card_gone_def Let_def
        engine_inv_def)
  show "engine_inv (fst r)" if "on_data_block en now op_id k cs cp payload = Some r"
    using that ends block command
    by (auto simp: on_data_block_def split: if_splits ChainParameter.splits)
qed

lemma fst_rearm [simp]: "fst (rearm r) = fst r" "fst (snd (rearm r)) = fst (snd r)"
  by (simp_all add: rearm_def split: prod.split)

lemma taken_invI: "engine_inv en \<Longrightarrow> pending_op en = Some (op_id, k) \<Longrightarrow> taken_inv k (en\<lparr>pending_op := None\<rparr>)"
  by (simp add: taken_inv_def engine_inv_def pending_inv_def)

lemma bulk_in_inv:
  assumes "engine_inv en" "bulk_in_done en now frame = Some r"
  shows "engine_inv (fst r)"
proof (cases "pending_op en")
  case None
  with assms show ?thesis by (auto simp: bulk_in_done_def)
next
  case (Some p)
  then obtain op_id k where "pending_op en = Some (op_id, k)" by (cases p) auto
  with assms(2) reply_inv [OF taken_invI [OF assms(1) this]] show ?thesis
    by (auto simp: bulk_in_done_def Let_def split: result.splits CcidResponse.splits)
qed

lemma handle_inv:
  assumes "engine_inv en" "handle en now event = Some r"
  shows "engine_inv (fst r)"
proof (cases "(en, now, event)" rule: handle.cases)
  case (2 en now op_id op)
  with assms start_inv [of en now op_id op] show ?thesis by (cases r) auto
next
  case (5 en now frame)
  with assms bulk_in_inv show ?thesis by auto
qed (use assms event_inv in \<open>auto simp: interrupt_received_def\<close>)

section \<open>Completions\<close>

fun completed :: "Action list \<Rightarrow> (OperationId \<times> (OperationResult, CcidError) result) list" where
  "completed [] = []"
| "completed (Complete op_id r # acts) = (op_id, r) # completed acts"
| "completed (_ # acts) = completed acts"

lemma completed_append [simp]: "completed (xs @ ys) = completed xs @ completed ys"
  by (induction xs rule: completed.induct) simp_all

lemma completed_set: "Complete op_id r \<in> set acts \<longleftrightarrow> (op_id, r) \<in> set (completed acts)"
  by (induction acts rule: completed.induct) auto

fun result_kind :: "OperationResult \<Rightarrow> PendingOperation" where
  "result_kind (PowerOnResult atr) = PendingPowerOn"
| "result_kind PowerOffResult = PendingPowerOff"
| "result_kind (SlotStatusResult present) = PendingGetSlotStatus"
| "result_kind (ParametersResult payload) = PendingGetParameters"
| "result_kind ParametersSet = PendingSetParametersT0"
| "result_kind (TransferBlockResult payload) = PendingTransferBlock"
| "result_kind (SecureResult payload) = PendingSecure"
| "result_kind Aborted = PendingAbort"

text \<open>
  An event other than a start leaves the pending operation pending, or completes it and it alone, with
  an error or with a result of its kind.
\<close>

definition of_kind :: "PendingOperation \<Rightarrow> (OperationResult, CcidError) result \<Rightarrow> bool" where
  "of_kind k r \<longleftrightarrow> (case r of Ok x \<Rightarrow> result_kind x = k | Err _ \<Rightarrow> True)"

definition settles :: "(OperationId \<times> PendingOperation) option \<Rightarrow> engine_step \<Rightarrow> bool" where
  "settles p r \<longleftrightarrow>
     pending_op (fst r) = p \<and> completed (fst (snd r)) = [] \<or>
     pending_op (fst r) = None \<and>
       (\<exists>op_id k x. p = Some (op_id, k) \<and> completed (fst (snd r)) = [(op_id, x)] \<and> of_kind k x)"

lemma settles_rearm [simp]: "settles p (rearm r) \<longleftrightarrow> settles p r"
  by (simp add: settles_def)

lemma settles_simps [simp]:
  "settles (Some (op_id, k)) (en, acts, d) \<longleftrightarrow>
     pending_op en = Some (op_id, k) \<and> completed acts = [] \<or>
     pending_op en = None \<and> (\<exists>x. completed acts = [(op_id, x)] \<and> of_kind k x)"
  "settles None (en, acts, d) \<longleftrightarrow> pending_op en = None \<and> completed acts = []"
  by (auto simp: settles_def)

lemma of_kind_simps [simp]: "of_kind k (Ok x) \<longleftrightarrow> result_kind x = k" "of_kind k (Err e)"
  by (simp_all add: of_kind_def)

lemma event_settles:
  "settles (pending_op en) (hardware_error_interrupt en raw_bytes)"
  "settles (pending_op en) (slot_change_interrupt en raw_bytes)"
  "settles (pending_op en) (bulk_out_done en transferred)"
  "settles (pending_op en) (control_done en)"
  "settles (pending_op en) (transfer_failed en e)"
  "settles (pending_op en) (deadline_expired en now expired)"
  "settles (pending_op en) (cancel en op_id)"
  "settles (pending_op en) (connection_lost en)"
proof -
  obtain op_id k where pending: "pending_op en = None \<or> pending_op en = Some (op_id, k)"
    by (metis not_None_eq surj_pair)
  show "settles (pending_op en) (hardware_error_interrupt en raw_bytes)"
    using pending by (cases "decode_interrupt_hardware_error raw_bytes")
      (auto simp: hardware_error_interrupt_def card_gone_def)
  show "settles (pending_op en) (slot_change_interrupt en raw_bytes)"
    using pending by (cases "decode_interrupt_slot_change raw_bytes (max_slot_index en)")
      (auto simp: slot_change_interrupt_def Let_def)
  show "settles (pending_op en) (bulk_out_done en transferred)"
    using pending by (auto simp: bulk_out_done_def read_reply_def)
  show "settles (pending_op en) (control_done en)"
    using pending by (cases k) (auto simp: control_done_def Let_def)
  show "settles (pending_op en) (transfer_failed en e)"
    using pending by (auto simp: transfer_failed_def card_gone_def Let_def)
  show "settles (pending_op en) (deadline_expired en now expired)"
    using pending by (auto simp: deadline_expired_def split: option.split)
  show "settles (pending_op en) (cancel en op_id)" for op_id
    using pending by (auto simp: cancel_def)
  show "settles (pending_op en) (connection_lost en)"
    using pending by (auto simp: connection_lost_def)
qed

lemma reply_settles:
  assumes "pending_op en = None"
  shows "settles (Some (op_id, k)) (on_time_extension en now op_id k multiplier)"
    "reply_type k = 0x80 \<Longrightarrow> on_data_block en now op_id k cs cp payload = Some r \<Longrightarrow> settles (Some (op_id, k)) r"
    "reply_type k = 0x81 \<Longrightarrow> settles (Some (op_id, k)) (on_slot_status en op_id k cs)"
    "reply_type k = 0x82 \<Longrightarrow> settles (Some (op_id, k)) (on_parameters en op_id k cs payload)"
    "settles (Some (op_id, k)) (on_command_failure en op_id cs error_code)"
    "settles (Some (op_id, k)) (on_bad_frame en op_id k e)"
proof -
  show "settles (Some (op_id, k)) (on_time_extension en now op_id k multiplier)"
    using assms by (auto simp: on_time_extension_def engine_defs)
  show "settles (Some (op_id, k)) (on_slot_status en op_id k cs)" if "reply_type k = 0x81"
    using assms that by (cases k) (auto simp: on_slot_status_def Let_def)
  show "settles (Some (op_id, k)) (on_parameters en op_id k cs payload)" if "reply_type k = 0x82"
    using assms that by (cases k) (auto simp: on_parameters_def card_gone_def)
  show "settles (Some (op_id, k)) (on_command_failure en op_id cs error_code)"
    using assms by (auto simp: on_command_failure_def card_gone_def)
  show "settles (Some (op_id, k)) (on_bad_frame en op_id k e)"
    using assms by (auto simp: on_bad_frame_def read_reply_def)
  have ends: "settles (Some (op_id, k)) (chain_desync en op_id reason)"
      "settles (Some (op_id, k)) (chain_desync (en\<lparr>chain_buffer := []\<rparr>) op_id reason)"
      "settles (Some (op_id, k)) (response_too_long en op_id)"
      "settles (Some (op_id, k)) (next_response_block en op_id k payload)"
      "settles (Some (op_id, k)) ((card_gone en)\<lparr>current_deadline := None\<rparr>, [Complete op_id (Err CardRemoved)], None)"
    for reason
    using assms by (auto simp: chain_desync_def response_too_long_def next_response_block_def engine_defs)
  have data: "settles (Some (op_id, k)) (complete_data en op_id k data)"
      "settles (Some (op_id, k)) (complete_data (en\<lparr>chain_buffer := []\<rparr>) op_id k data)"
    if "reply_type k = 0x80" for data
    using assms that by (cases k; simp add: complete_data_def data_result_def)+
  have command: "settles (Some (op_id, k)) r" if "next_command_block en now op_id k = Some r"
    using assms that by (cases "outgoing_chain en") (auto simp: next_command_block_def engine_defs)
  show "settles (Some (op_id, k)) r" if "reply_type k = 0x80" "on_data_block en now op_id k cs cp payload = Some r"
    using assms ends data [OF that(1)] command that(2)
    by (auto simp: on_data_block_def simp del: settles_simps split: if_splits ChainParameter.splits)
qed

lemma bulk_in_settles:
  assumes "engine_inv en" "bulk_in_done en now frame = Some r"
  shows "settles (pending_op en) r"
proof (cases "pending_op en")
  case None
  with assms(2) show ?thesis by (auto simp: bulk_in_done_def)
next
  case (Some p)
  then obtain op_id k where pending: "pending_op en = Some (op_id, k)" by (cases p) auto
  with assms(1) have "expected_response_type en = reply_type k" by (simp add: engine_inv_def pending_inv_def)
  with assms(2) pending reply_settles [of "en\<lparr>pending_op := None\<rparr>"] decoded_type show ?thesis
    by (auto simp: bulk_in_done_def Let_def simp del: settles_simps split: result.splits CcidResponse.splits)
qed

lemma handle_settles:
  assumes "engine_inv en" "handle en now event = Some r" "\<And>op_id op. event \<noteq> Start op_id op"
  shows "settles (pending_op en) r"
proof (cases "(en, now, event)" rule: handle.cases)
  case (5 en now frame)
  with assms bulk_in_settles show ?thesis by auto
qed (use assms event_settles in \<open>auto simp: interrupt_received_def\<close>)

text \<open>The operations started and completed along a run of the engine.\<close>

definition waiting :: "OperationId \<Rightarrow> CcidEngine \<Rightarrow> nat" where
  "waiting op_id en = (if map_option fst (pending_op en) = Some op_id then 1 else 0)"

fun starts :: "OperationId \<Rightarrow> InputEvent \<Rightarrow> nat" where
  "starts op_id (Start op_id' op) = (if op_id' = op_id then 1 else 0)"
| "starts op_id _ = 0"

definition completions :: "OperationId \<Rightarrow> Action list \<Rightarrow> nat" where
  "completions op_id acts = count_list (map fst (completed acts)) op_id"

lemma settles_counts:
  "settles (pending_op en) r \<Longrightarrow> completions op_id (fst (snd r)) + waiting op_id (fst r) = waiting op_id en"
  by (cases "pending_op en") (auto simp: settles_def completions_def waiting_def)

lemma handle_counts:
  assumes "engine_inv en" "handle en now event = Some r"
  shows "completions op_id (fst (snd r)) + waiting op_id (fst r) = waiting op_id en + starts op_id event"
proof (cases "\<exists>op_id op. event = Start op_id op")
  case True
  then obtain i op where event: "event = Start i op" by blast
  obtain en' acts d where r: "r = (en', acts, d)" by (cases r)
  with assms(2) event have "start en now i op = Some (en', acts, d)" by simp
  then show ?thesis
  proof (cases rule: start_cases)
    case refused
    then show ?thesis by (auto simp: event r completions_def)
  next
    case (aborting at)
    then have "pending_op en = None"
      by (auto simp: start_refusal_def simp del: not_None_eq split: if_splits)
    with aborting show ?thesis
      by (auto simp: event r completions_def waiting_def arm_deadline_def abort_request_def)
  next
    case (sent en1 k encoded t at)
    then have "pending_op en = None"
      by (auto simp: start_refusal_def simp del: not_None_eq split: if_splits)
    with sent(4,5) show ?thesis by (auto simp: event r completions_def waiting_def arm_deadline_def)
  qed
next
  case False
  then have "settles (pending_op en) r" using handle_settles [OF assms] by blast
  moreover have "starts op_id event = 0" using False by (cases event) auto
  ultimately show ?thesis by (simp add: settles_counts)
qed

section \<open>Engines that can be reached\<close>

inductive engine_reachable :: "CcidEngine \<Rightarrow> bool" where
  created: "parse_functional_descriptor bs = Ok d \<Longrightarrow> engine_reachable (engine_new interface slot generation d)"
| stepped: "engine_reachable en \<Longrightarrow> step en now event = Some (en', tr) \<Longrightarrow> engine_reachable en'"
| activation: "engine_reachable en \<Longrightarrow> engine_reachable (set_activated flag en)"
| deactivation: "engine_reachable en \<Longrightarrow> engine_reachable (mark_deactivated en)"
| waiting_unit: "engine_reachable en \<Longrightarrow> engine_reachable (set_waiting_unit_ms ms en)"

inductive_cases reachable_elim: "engine_reachable en"

lemma step_Some:
  "step en now event = Some (en', tr) \<longleftrightarrow> handle en now event = Some (en', actions tr, next_deadline tr)"
  by (cases tr) (auto simp: step_def transition_def split: prod.splits)

lemma descriptor_bounds:
  "parse_functional_descriptor bs = Ok d \<Longrightarrow>
   minimum_message_length (fd_exchange_level d) \<le> fd_maximum_message_length d"
  by (auto simp: parse_functional_descriptor_def Let_def result_simps split: if_splits)

lemma engine_new_inv:
  assumes "parse_functional_descriptor bs = Ok d"
  shows "engine_inv (engine_new interface slot generation d)"
proof -
  have "11 \<le> minimum_message_length (fd_exchange_level d)" by (cases "fd_exchange_level d") simp_all
  with descriptor_bounds [OF assms] have "10 \<le> fd_maximum_message_length d" by linarith
  then have "maximum_transfer_block_length d + 10 \<le> fd_maximum_message_length d"
    by (cases "fd_exchange_level d")
      (auto simp: maximum_transfer_block_length_def maximum_payload_length_def Let_def)
  then show ?thesis by (simp add: engine_new_def engine_inv_def)
qed

lemma reachable_inv: "engine_reachable en \<Longrightarrow> engine_inv en"
proof (induction rule: engine_reachable.induct)
  case created
  then show ?case by (rule engine_new_inv)
next
  case (stepped en now event en' tr)
  then show ?case using handle_inv [of en now event "(en', actions tr, next_deadline tr)"] by (simp add: step_Some)
qed (auto simp: set_activated_def mark_deactivated_def set_waiting_unit_ms_def engine_inv_def
    pending_inv_def split: option.splits)

fun engine_run :: "CcidEngine \<Rightarrow> (MonotonicTime \<times> InputEvent) list \<Rightarrow> (CcidEngine \<times> Action list) option" where
  "engine_run en [] = Some (en, [])"
| "engine_run en ((now, event) # events) =
     (case step en now event of
        None \<Rightarrow> None
      | Some (en', tr) \<Rightarrow> map_option (\<lambda>(en'', acts). (en'', actions tr @ acts)) (engine_run en' events))"

lemma run_counts:
  "engine_inv en \<Longrightarrow> engine_run en events = Some (en', acts) \<Longrightarrow>
   completions op_id acts + waiting op_id en' = waiting op_id en + (\<Sum>(now, event) \<leftarrow> events. starts op_id event)"
proof (induction en events arbitrary: acts rule: engine_run.induct)
  case (1 en)
  then show ?case by (simp add: completions_def)
next
  case (2 en now event events)
  from 2(3) obtain en1 tr acts' where run: "step en now event = Some (en1, tr)"
    "engine_run en1 events = Some (en', acts')" "acts = actions tr @ acts'"
    by (auto split: option.splits)
  note handled = run(1) [unfolded step_Some]
  have "engine_inv en1" using handle_inv [OF 2(2) handled] by simp
  from 2(1) [OF run(1) _ this run(2)] handle_counts [OF 2(2) handled, of op_id] show ?case
    by (simp add: run(3) completions_def)
qed

section \<open>What never changes, and recovery\<close>

definition config :: "CcidEngine \<Rightarrow> u8 \<times> u8 \<times> CcidExchangeLevel \<times> nat \<times> nat \<times> u8" where
  "config en = (interface_number en, b_slot en, exchange_level en, max_message_length en, max_payload_length en,
     max_slot_index en)"

lemma event_config:
  "config (fst (hardware_error_interrupt en raw_bytes)) = config en"
  "config (fst (slot_change_interrupt en raw_bytes)) = config en"
  "config (fst (bulk_out_done en transferred)) = config en"
  "config (fst (control_done en)) = config en"
  "config (fst (transfer_failed en e)) = config en"
  "config (fst (deadline_expired en now expired)) = config en"
  "config (fst (cancel en op_id)) = config en"
  "config (fst (connection_lost en)) = config en"
         apply (simp add: hardware_error_interrupt_def card_gone_def config_def split: result.split)
        apply (simp add: slot_change_interrupt_def Let_def config_def split: result.split option.split)
       apply (simp add: bulk_out_done_def config_def split: option.split)
      apply (simp add: control_done_def Let_def config_def split: option.split PendingOperation.split)
     apply (simp add: transfer_failed_def card_gone_def Let_def config_def split: option.split)
    apply (simp add: deadline_expired_def config_def split: option.split)
   apply (simp add: cancel_def config_def)
  apply (simp add: connection_lost_def config_def)
  done

lemma reply_config:
  "config (fst (on_time_extension en now op_id k multiplier)) = config en"
  "config (fst (on_slot_status en op_id k cs)) = config en"
  "config (fst (on_parameters en op_id k cs payload)) = config en"
  "config (fst (on_command_failure en op_id cs error_code)) = config en"
  "config (fst (on_bad_frame en op_id k e)) = config en"
  "config (fst (chain_desync en op_id reason)) = config en"
  "config (fst (response_too_long en op_id)) = config en"
  "config (fst (next_response_block en op_id k payload)) = config en"
  "config (fst (complete_data en op_id k data)) = config en"
  "next_command_block en now op_id k = Some r \<Longrightarrow> config (fst r) = config en"
  by (auto simp: reply_defs engine_defs config_def split: PendingOperation.split list.splits)

lemma data_block_config:
  assumes "on_data_block en now op_id k cs cp payload = Some r"
  shows "config (fst r) = config en"
proof -
  have "config ((card_gone en)\<lparr>current_deadline := None\<rparr>) = config en"
    "config (en\<lparr>chain_buffer := []\<rparr>) = config en"
    by (simp_all add: card_gone_def config_def)
  with assms reply_config(6-10) show ?thesis
    by (auto simp: on_data_block_def split: if_splits ChainParameter.splits)
qed

lemma handle_config:
  assumes "handle en now event = Some r"
  shows "config (fst r) = config en"
proof (cases "(en, now, event)" rule: handle.cases)
  case (2 en now op_id op)
  obtain en' acts d where r: "r = (en', acts, d)" by (cases r)
  with assms 2 have "start en now op_id op = Some (en', acts, d)" by simp
  then have "config en' = config en"
  proof (cases rule: start_cases)
    case (sent en1 k encoded t at)
    obtain b_wi chain where "en1 = (started en now)\<lparr>pending_b_wi := b_wi, outgoing_chain := chain\<rparr>"
      by (rule encode_operation_kind [OF sent(2,3)])
    with sent(4) show ?thesis by (simp add: started_def arm_deadline_def config_def)
  qed (simp_all add: started_def arm_deadline_def config_def)
  with 2 r show ?thesis by simp
next
  case (5 en now frame)
  have taken: "config (en\<lparr>pending_op := None\<rparr>) = config en" by (simp add: config_def)
  from assms 5 obtain r' where "bulk_in_done en now frame = Some r'" "r = rearm r'" by auto
  with 5 taken show ?thesis
    by (auto simp: bulk_in_done_def Let_def reply_config dest!: data_block_config
        split: option.splits result.splits CcidResponse.splits)
qed (use assms event_config in \<open>auto simp: interrupt_received_def\<close>)

text \<open>
  While the slot needs recovery, nothing but an abort goes to the reader, and only the reader's answer
  to an abort ends it.
\<close>

definition only_aborts :: "u8 \<Rightarrow> Action list \<Rightarrow> bool" where
  "only_aborts slot acts \<longleftrightarrow> (\<forall>sq data. SubmitBulkOut sq data \<in> set acts \<longrightarrow> data = encode_abort slot sq)"

definition abort_answered :: "Action list \<Rightarrow> bool" where
  "abort_answered acts \<longleftrightarrow> (\<exists>op_id. Complete op_id (Ok Aborted) \<in> set acts)"

definition recovers :: "u8 \<Rightarrow> engine_step \<Rightarrow> bool" where
  "recovers slot r \<longleftrightarrow> abort_answered (fst (snd r)) \<or> needs_recovery (fst r) \<and> only_aborts slot (fst (snd r))"

lemma recovers_simps:
  "recovers slot (en, acts, d) \<longleftrightarrow> abort_answered acts \<or> needs_recovery en \<and> only_aborts slot acts"
  "abort_answered [] \<longleftrightarrow> False"
  "abort_answered (a # acts) \<longleftrightarrow> (\<exists>op_id. a = Complete op_id (Ok Aborted)) \<or> abort_answered acts"
  "only_aborts slot []"
  "only_aborts slot (a # acts) \<longleftrightarrow> (\<forall>sq data. a = SubmitBulkOut sq data \<longrightarrow> data = encode_abort slot sq) \<and> only_aborts slot acts"
  "recovers slot (rearm r) \<longleftrightarrow> recovers slot r"
  by (auto simp: recovers_def abort_answered_def only_aborts_def)

lemma event_recovers:
  assumes "needs_recovery en" "\<And>op_id k. pending_op en = Some (op_id, k) \<Longrightarrow> k = PendingAbort"
  shows "recovers (b_slot en) (hardware_error_interrupt en raw_bytes)"
    "recovers (b_slot en) (slot_change_interrupt en raw_bytes)"
    "recovers (b_slot en) (bulk_out_done en transferred)"
    "recovers (b_slot en) (control_done en)"
    "recovers (b_slot en) (transfer_failed en e)"
    "recovers (b_slot en) (deadline_expired en now expired)"
    "recovers (b_slot en) (cancel en op_id)"
    "recovers (b_slot en) (connection_lost en)"
proof -
  obtain op_id where pending: "pending_op en = None \<or> pending_op en = Some (op_id, PendingAbort)"
    using assms(2) by (metis not_None_eq surj_pair)
  note state = assms(1) pending
  show "recovers (b_slot en) (hardware_error_interrupt en raw_bytes)"
    using state by (cases "decode_interrupt_hardware_error raw_bytes")
      (auto simp: hardware_error_interrupt_def card_gone_def recovers_simps)
  show "recovers (b_slot en) (slot_change_interrupt en raw_bytes)"
    using state by (cases "decode_interrupt_slot_change raw_bytes (max_slot_index en)")
      (auto simp: slot_change_interrupt_def Let_def recovers_simps)
  show "recovers (b_slot en) (bulk_out_done en transferred)"
    using state by (auto simp: bulk_out_done_def read_reply_def recovers_simps)
  show "recovers (b_slot en) (control_done en)"
    using state by (auto simp: control_done_def Let_def recovers_simps)
  show "recovers (b_slot en) (transfer_failed en e)"
    using state by (auto simp: transfer_failed_def card_gone_def Let_def recovers_simps)
  show "recovers (b_slot en) (deadline_expired en now expired)"
    using state by (auto simp: deadline_expired_def recovers_simps split: option.split)
  show "recovers (b_slot en) (cancel en op_id)" for op_id
    using state by (auto simp: cancel_def recovers_simps)
  show "recovers (b_slot en) (connection_lost en)"
    using state by (auto simp: connection_lost_def recovers_simps)
qed

lemma reply_recovers:
  assumes "needs_recovery en"
  shows "recovers slot (on_time_extension en now op_id PendingAbort multiplier)"
    "recovers slot (on_slot_status en op_id PendingAbort cs)"
    "recovers slot (on_command_failure en op_id cs error_code)"
    "recovers slot (on_bad_frame en op_id PendingAbort e)"
  using assms
  by (auto simp: on_time_extension_def on_slot_status_def on_command_failure_def on_bad_frame_def engine_defs
      recovers_simps)

lemma handle_recovers:
  assumes "engine_inv en" "needs_recovery en" "handle en now event = Some r"
  shows "recovers (b_slot en) r"
proof -
  have abort: "k = PendingAbort" if "pending_op en = Some (op_id, k)" for op_id k
    using assms(1,2) that by (simp add: engine_inv_def pending_inv_def)
  show ?thesis
  proof (cases "(en, now, event)" rule: handle.cases)
    case (2 en' now' op_id op)
    obtain en1 acts d where r: "r = (en1, acts, d)" by (cases r)
    with assms(3) 2 have "start en now op_id op = Some (en1, acts, d)" by simp
    then show ?thesis
    proof (cases rule: start_cases)
      case (sent en1 k encoded t at)
      with assms(2) show ?thesis by (auto simp: start_refusal_def split: if_splits)
    qed (use assms(2) r in \<open>auto simp: recovers_simps arm_deadline_def started_def abort_request_def\<close>)
  next
    case (5 en' now' frame)
    with assms(3) obtain r' where r': "bulk_in_done en now frame = Some r'" "r = rearm r'" by auto
    show ?thesis
    proof (cases "pending_op en")
      case None
      with r' assms(2) show ?thesis by (auto simp: bulk_in_done_def recovers_simps)
    next
      case (Some p)
      with abort obtain op_id where "pending_op en = Some (op_id, PendingAbort)" by (cases p) auto
      moreover from this have "expected_response_type en = 0x81"
        using assms(1) by (simp add: engine_inv_def pending_inv_def)
      ultimately show ?thesis
        using r' assms(2) reply_recovers [of "en\<lparr>pending_op := None\<rparr>"] decoded_type
        by (fastforce simp: bulk_in_done_def Let_def recovers_simps(6) split: result.splits CcidResponse.splits)
    qed
  qed (use assms(3) event_recovers [OF assms(2) abort] in \<open>auto simp: interrupt_received_def recovers_simps(6)\<close>)
qed

end
