(* ===== verification/Ccid_Exchange.thy ===== *)
theory Ccid_Exchange
  imports Ccid_Slot
begin

text \<open>
  Whole exchanges of the protocol engine with a reader: the form of the messages it submits, a
  response that arrives in blocks, a command that is sent in blocks, and the properties of the engine
  over every sequence of events.
\<close>

section \<open>Messages\<close>

text \<open>A message of the host: a type, the length of the rest, the slot and the sequence number.\<close>

definition message_for :: "u8 \<Rightarrow> u8 \<Rightarrow> bytes \<Rightarrow> bool" where
  "message_for slot sq msg \<longleftrightarrow>
     10 \<le> length msg \<and> le_value (take 4 (drop 1 msg)) = length msg - 10 \<and> msg ! 5 = slot \<and> msg ! 6 = sq"

lemma length_block_message [simp]: "length (block_message t slot sq b_wi level block) = 10 + length block"
  by (simp add: block_message_def)

lemma block_message_for: "length block < 2 ^ 32 \<Longrightarrow> message_for slot sq (block_message t slot sq b_wi level block)"
  by (simp add: message_for_def block_message_def nth_append le_value_le_bytes min_def)

lemma short_messages:
  "message_for slot sq (encode_icc_power_on slot sq voltage)"
  "message_for slot sq (encode_icc_power_off slot sq)"
  "message_for slot sq (encode_get_slot_status slot sq)"
  "message_for slot sq (encode_get_parameters slot sq)"
  "message_for slot sq (encode_abort slot sq)"
  "message_for slot sq (encode_set_parameters_t0 slot sq fi_di guard_time waiting_integer clock_stop conv)"
  by (simp_all add: message_for_def encode_icc_power_on_def encode_icc_power_off_def encode_get_slot_status_def
      encode_get_parameters_def encode_abort_def encode_set_parameters_t0_def le_value_def be_value_def)

text \<open>The limits of an engine follow from the descriptor it was made for.\<close>

lemma reachable_limits:
  assumes "engine_reachable en"
  shows "\<exists>bs d. parse_functional_descriptor bs = Ok d \<and> exchange_level en = fd_exchange_level d \<and>
    max_message_length en = fd_maximum_message_length d \<and> max_payload_length en = maximum_transfer_block_length d"
  using assms
proof (induction rule: engine_reachable.induct)
  case (stepped en now event en' tr)
  then have "config en' = config en"
    using handle_config [of en now event "(en', actions tr, next_deadline tr)"] by (simp add: step_Some)
  with stepped.IH show ?case by (simp add: config_def)
qed (auto simp: engine_new_def set_activated_def mark_deactivated_def set_waiting_unit_ms_def)

lemma reachable_sizes:
  assumes "engine_reachable en" "exchange_level en \<noteq> Character"
  shows "270 \<le> max_message_length en" "max_message_length en \<le> 65554" "0 < max_payload_length en"
    "max_payload_length en + 10 \<le> max_message_length en"
proof -
  from reachable_limits [OF assms(1)] obtain bs d where d: "parse_functional_descriptor bs = Ok d"
    "exchange_level en = fd_exchange_level d" "max_message_length en = fd_maximum_message_length d"
    "max_payload_length en = maximum_transfer_block_length d" by blast
  have level: "fd_exchange_level d \<noteq> Character" using assms(2) d(2) by simp
  then have "270 \<le> minimum_message_length (fd_exchange_level d)" by (cases "fd_exchange_level d") simp_all
  then show big: "270 \<le> max_message_length en" using descriptor_bounds [OF d(1)] d(3) by linarith
  show "max_message_length en \<le> 65554"
    using d(1) unfolding d(3) by (auto simp: parse_functional_descriptor_def Let_def result_simps split: if_splits)
  show "0 < max_payload_length en"
    using big level unfolding d(3,4)
    by (cases "fd_exchange_level d") (simp_all add: maximum_transfer_block_length_def maximum_payload_length_def Let_def)
  show "max_payload_length en + 10 \<le> max_message_length en"
    using reachable_inv [OF assms(1)] by (simp add: engine_inv_def)
qed

text \<open>A block the engine submits in the middle of an exchange is empty or the next one of the command.\<close>

definition sends_block :: "CcidEngine \<Rightarrow> Action list \<Rightarrow> bool" where
  "sends_block en acts \<longleftrightarrow> (\<forall>sq data. SubmitBulkOut sq data \<in> set acts \<longrightarrow>
     (\<exists>b_wi level c. data = encode_xfr_block (b_slot en) sq b_wi level c \<and> (c = [] \<or> c \<in> set (outgoing_chain en))))"

lemma reply_sends_block:
  "sends_block en (fst (snd (on_time_extension en now op_id k multiplier)))"
  "sends_block en (fst (snd (on_slot_status en op_id k cs)))"
  "sends_block en (fst (snd (on_parameters en op_id k cs payload)))"
  "sends_block en (fst (snd (on_command_failure en op_id cs error_code)))"
  "sends_block en (fst (snd (on_bad_frame en op_id k e)))"
  "on_data_block en now op_id k cs cp payload = Some r \<Longrightarrow> sends_block en (fst (snd r))"
proof -
  have ends: "sends_block en (fst (snd (next_response_block en op_id k payload)))"
    by (auto simp: next_response_block_def response_too_long_def engine_defs sends_block_def)
  have command: "sends_block en (fst (snd r))" if "next_command_block en now op_id k = Some r"
    using that by (cases "outgoing_chain en") (auto simp: next_command_block_def engine_defs sends_block_def, blast+)
  show "sends_block en (fst (snd r))" if "on_data_block en now op_id k cs cp payload = Some r"
  proof (cases "cs \<noteq> NotPresent \<and> (cp = ChainBegin \<and> chain_buffer en = [] \<or> cp = ChainContinue \<and> chain_buffer en \<noteq> [] \<or>
      cp = CommandContinuationExpected)")
    case True
    with that ends command show ?thesis by (auto simp: on_data_block_def)
  next
    case False
    with that show ?thesis
      by (auto simp: on_data_block_def chain_desync_def response_too_long_def complete_data_def sends_block_def
          split: if_splits ChainParameter.splits)
  qed
qed (auto simp: on_time_extension_def on_slot_status_def on_parameters_def on_command_failure_def on_bad_frame_def
    engine_defs sends_block_def split: PendingOperation.split)

lemma bulk_in_sends_block:
  assumes "bulk_in_done en now frame = Some r"
  shows "sends_block en (fst (snd r))"
proof -
  have same: "sends_block (en\<lparr>pending_op := None\<rparr>) = sends_block en" by (auto simp: sends_block_def)
  note parts = reply_sends_block [of "en\<lparr>pending_op := None\<rparr>", unfolded same]
  have "sends_block en []" by (simp add: sends_block_def)
  with assms parts(1-5) show ?thesis
    by (auto simp: bulk_in_done_def Let_def dest!: parts(6) split: option.splits result.splits CcidResponse.splits)
qed

lemma encode_operation_message:
  assumes "engine_reachable en" "exchange_level en \<noteq> Character" "op \<noteq> Abort" "\<not> command_too_long en op"
    "encode_operation (started en now) sq op = (en1, k, encoded, t)"
  shows "message_for (b_slot en) sq encoded \<and> length encoded \<le> max_message_length en"
proof -
  note sizes = reachable_sizes [OF assms(1,2)]
  have block: "message_for (b_slot en) sq (block_message t (b_slot en) sq b_wi level c) \<and>
      length (block_message t (b_slot en) sq b_wi level c) \<le> max_message_length en"
    if "length c \<le> max_payload_length en" for t b_wi level c
    using sizes that by (simp add: block_message_for)
  have short: "length (encode_icc_power_on (b_slot en) sq v) = 10" "length (encode_icc_power_off (b_slot en) sq) = 10"
    "length (encode_get_slot_status (b_slot en) sq) = 10" "length (encode_get_parameters (b_slot en) sq) = 10"
    "length (encode_set_parameters_t0 (b_slot en) sq f g w cl i) = 15" for v f g w cl i
    by (simp_all add: encode_icc_power_on_def encode_icc_power_off_def encode_get_slot_status_def
        encode_get_parameters_def encode_set_parameters_t0_def)
  have same: "b_slot (started en now) = b_slot en" "max_payload_length (started en now) = max_payload_length en"
    "is_chained (started en now) = is_chained en"
    by (auto simp: started_def is_chained_def)
  show ?thesis
    using assms(3-5) block short short_messages sizes
    by (cases op) (auto simp: same Let_def encode_xfr_block_def encode_secure_def is_chained_def split: if_splits)
qed

lemma handle_messages:
  assumes "engine_reachable en" "exchange_level en \<noteq> Character" "handle en now event = Some r"
    "SubmitBulkOut sq data \<in> set (fst (snd r))"
  shows "message_for (b_slot en) sq data \<and> length data \<le> max_message_length en"
proof -
  note sizes = reachable_sizes [OF assms(1,2)]
  show ?thesis
  proof (cases "(en, now, event)" rule: handle.cases)
    case (2 en' now' op_id op)
    obtain en1 acts d where r: "r = (en1, acts, d)" by (cases r)
    with assms(3) 2 have "start en now op_id op = Some (en1, acts, d)" by simp
    then show ?thesis
    proof (cases rule: start_cases)
      case (sent en1 k encoded t at)
      then have "\<not> command_too_long en op" by (auto simp: start_refusal_def split: if_splits)
      from encode_operation_message [OF assms(1,2) sent(2) this sent(3)] sent(5) assms(4) r show ?thesis by simp
    qed (use assms(4) r in \<open>simp_all add: abort_request_def\<close>)
  next
    case (5 en' now' frame)
    with assms(3,4) obtain r' where "bulk_in_done en now frame = Some r'" "SubmitBulkOut sq data \<in> set (fst (snd r'))"
      by auto
    then obtain b_wi level c where data: "data = encode_xfr_block (b_slot en) sq b_wi level c"
      and c: "c = [] \<or> c \<in> set (outgoing_chain en)"
      using bulk_in_sends_block unfolding sends_block_def by blast
    from c reachable_inv [OF assms(1)] have "length c \<le> max_payload_length en" by (auto simp: engine_inv_def)
    with data sizes show ?thesis by (simp add: encode_xfr_block_def block_message_for)
  qed (use assms(3,4) sizes short_messages(5) [of "b_slot en" "expected_seq en"] in
    \<open>auto simp: interrupt_received_def hardware_error_interrupt_def slot_change_interrupt_def bulk_out_done_def
      read_reply_def control_done_def transfer_failed_def deadline_expired_def cancel_def connection_lost_def Let_def
      encode_abort_def split: result.splits if_splits option.splits PendingOperation.splits\<close>)
qed

section \<open>A response in blocks\<close>

definition data_frame :: "u8 \<Rightarrow> u8 \<Rightarrow> ChainParameter \<Rightarrow> bytes \<Rightarrow> bytes" where
  "data_frame slot sq cp payload = reply_frame 0x80 slot sq (status_octet Active 0) 0 (chain_code cp) payload"

lemma bulk_in_data_frame:
  assumes "pending_op en = Some (op_id, k)" "expected_response_type en = 0x80" "length payload \<le> 65538"
  shows "bulk_in_done en now (data_frame (b_slot en) (expected_seq en) cp payload) =
    on_data_block (en\<lparr>pending_op := None\<rparr>) now op_id k Active cp payload"
proof -
  have "decode_response (data_frame (b_slot en) (expected_seq en) cp payload) 0x80 (b_slot en) (expected_seq en) =
      Ok (DataBlock Active cp payload)"
    unfolding data_frame_def by (rule decode_reply_frame [OF data_block assms(3)])
  with assms(1,2) show ?thesis by (simp add: bulk_in_done_def)
qed

text \<open>
  What the host reports while a reader answers with the given blocks: the frame of a block, and after
  every block but the last the ten octets of the request for the next one.
\<close>

fun response_events :: "u8 \<Rightarrow> u8 \<Rightarrow> ChainParameter \<Rightarrow> bytes list \<Rightarrow> InputEvent list" where
  "response_events slot sq cp [] = []"
| "response_events slot sq cp [p] = [IoCompleted (BulkIn (data_frame slot sq ChainEnd p))]"
| "response_events slot sq cp (p # q # ps) =
     IoCompleted (BulkIn (data_frame slot sq cp p)) # IoCompleted (BulkOut 10) #
     response_events slot (sq + 1) ChainContinue (q # ps)"

lemma block_kept:
  assumes "pending_op en = Some (op_id, k)" "expected_response_type en = 0x80"
    "length (chain_buffer en) + length p \<le> 65538"
    "cp = ChainBegin \<and> chain_buffer en = [] \<or> cp = ChainContinue \<and> chain_buffer en \<noteq> []"
  obtains en' acts acts' where
    "step en now (IoCompleted (BulkIn (data_frame (b_slot en) (expected_seq en) cp p))) = Some (en', acts)"
    "step en' now' (IoCompleted (BulkOut 10)) = Some (en', acts')"
    "completed (actions acts) = []" "completed (actions acts') = []"
    "pending_op en' = Some (op_id, k)" "expected_response_type en' = 0x80" "b_slot en' = b_slot en"
    "next_seq en' = next_seq en + 1" "expected_seq en' = next_seq en" "chain_buffer en' = chain_buffer en @ p"
proof -
  define en' where "en' = fst (next_response_block (en\<lparr>pending_op := None\<rparr>) op_id k p)"
  have len: "length p \<le> 65538" using assms(3) by simp
  obtain acts where one: "step en now (IoCompleted (BulkIn (data_frame (b_slot en) (expected_seq en) cp p))) = Some (en', acts)"
    "completed (actions acts) = []"
    using assms bulk_in_data_frame [OF assms(1,2) len, of now cp]
    by (auto simp: step_def on_data_block_def en'_def next_response_block_def allocate_seq_def Let_def rearm_def
        transition_def)
  have en': "pending_op en' = Some (op_id, k)" "expected_response_type en' = 0x80" "b_slot en' = b_slot en"
    "next_seq en' = next_seq en + 1" "expected_seq en' = next_seq en" "chain_buffer en' = chain_buffer en @ p"
    "expected_bulk_out_len en' = 10"
    using assms(2,3) by (simp_all add: en'_def next_response_block_def allocate_seq_def Let_def encode_xfr_block_def)
  obtain acts' where two: "step en' now' (IoCompleted (BulkOut 10)) = Some (en', acts')" "completed (actions acts') = []"
    using en'(7) by (auto simp: step_def bulk_out_done_def read_reply_def rearm_def transition_def)
  from that one two en' show thesis by blast
qed

lemma response_run:
  assumes "pending_op en = Some (op_id, k)" "expected_response_type en = 0x80" "next_seq en = expected_seq en + 1"
    "length (chain_buffer en) + length (concat ps) \<le> 65538"
    "cp = ChainBegin \<and> chain_buffer en = [] \<and> 2 \<le> length ps \<and> hd ps \<noteq> [] \<or>
     cp = ChainContinue \<and> chain_buffer en \<noteq> [] \<and> ps \<noteq> []"
    "map snd events = response_events (b_slot en) (expected_seq en) cp ps"
  shows "\<exists>en' acts. engine_run en events = Some (en', acts) \<and> pending_op en' = None \<and>
    completed acts = [(op_id, Ok (data_result k (chain_buffer en @ concat ps)))]"
  using assms
proof (induction "b_slot en" "expected_seq en" cp ps arbitrary: en events rule: response_events.induct)
  case 1
  then show ?case by simp
next
  case (2 cp p)
  then obtain now where events: "events = [(now, IoCompleted (BulkIn (data_frame (b_slot en) (expected_seq en) ChainEnd p)))]"
    by (auto simp: map_eq_Cons_conv)
  have len: "length p \<le> 65538" using 2(4) by simp
  show ?case
    using 2 bulk_in_data_frame [OF 2(1,2) len, of now ChainEnd]
    by (auto simp: events step_def on_data_block_def complete_data_def rearm_def transition_def Let_def)
next
  case (3 cp p q ps)
  from 3(7) obtain now now' rest where events: "events = (now, IoCompleted (BulkIn (data_frame (b_slot en) (expected_seq en) cp p)))
      # (now', IoCompleted (BulkOut 10)) # rest"
    "map snd rest = response_events (b_slot en) (expected_seq en + 1) ChainContinue (q # ps)"
    by (auto simp: map_eq_Cons_conv)
  have fits: "length (chain_buffer en) + length p \<le> 65538" using 3(5) by simp
  have first: "cp = ChainBegin \<and> chain_buffer en = [] \<or> cp = ChainContinue \<and> chain_buffer en \<noteq> []" using 3(6) by auto
  obtain en' acts acts' where kept:
    "step en now (IoCompleted (BulkIn (data_frame (b_slot en) (expected_seq en) cp p))) = Some (en', acts)"
    "step en' now' (IoCompleted (BulkOut 10)) = Some (en', acts')"
    "completed (actions acts) = []" "completed (actions acts') = []"
    "pending_op en' = Some (op_id, k)" "expected_response_type en' = 0x80" "b_slot en' = b_slot en"
    "next_seq en' = next_seq en + 1" "expected_seq en' = next_seq en" "chain_buffer en' = chain_buffer en @ p"
    by (rule block_kept [OF 3(2,3) fits first])
  have "chain_buffer en' \<noteq> []" using 3(6) kept(10) by auto
  with 3 kept events obtain en'' acts'' where "engine_run en' rest = Some (en'', acts'')" "pending_op en'' = None"
    "completed acts'' = [(op_id, Ok (data_result k (chain_buffer en' @ concat (q # ps))))]"
    using 3(1) [of en' rest] by auto
  with kept show ?case by (simp add: events)
qed

section \<open>A command in blocks\<close>

fun bulk_outs :: "Action list \<Rightarrow> bytes list" where
  "bulk_outs [] = []"
| "bulk_outs (SubmitBulkOut sq data # acts) = data # bulk_outs acts"
| "bulk_outs (_ # acts) = bulk_outs acts"

lemma bulk_outs_append [simp]: "bulk_outs (xs @ ys) = bulk_outs xs @ bulk_outs ys"
  by (induction xs rule: bulk_outs.induct) simp_all

text \<open>The messages of a command in blocks: the first one begins it and the last one ends it.\<close>

fun later_blocks :: "u8 \<Rightarrow> u8 \<Rightarrow> u8 \<Rightarrow> bytes list \<Rightarrow> bytes list" where
  "later_blocks slot sq b_wi [] = []"
| "later_blocks slot sq b_wi (c # cs) =
     encode_xfr_block slot sq b_wi (if cs = [] then W_LEVEL_END else W_LEVEL_CONTINUE) c #
     later_blocks slot (sq + 1) b_wi cs"

definition command_blocks :: "u8 \<Rightarrow> u8 \<Rightarrow> u8 \<Rightarrow> bytes list \<Rightarrow> bytes list" where
  "command_blocks slot sq b_wi cs =
     encode_xfr_block slot sq b_wi W_LEVEL_BEGIN (hd cs) # later_blocks slot (sq + 1) b_wi (tl cs)"

text \<open>
  What the host reports while a reader takes the blocks: every block is written in full, the reader
  asks for the next one, and answers the last one with the response.
\<close>

fun command_events :: "u8 \<Rightarrow> u8 \<Rightarrow> bytes \<Rightarrow> bytes list \<Rightarrow> InputEvent list" where
  "command_events slot sq response [] = []"
| "command_events slot sq response [c] =
     [IoCompleted (BulkOut (10 + length c)), IoCompleted (BulkIn (data_frame slot sq ChainComplete response))]"
| "command_events slot sq response (c # d # cs) =
     IoCompleted (BulkOut (10 + length c)) #
     IoCompleted (BulkIn (data_frame slot sq CommandContinuationExpected [])) #
     command_events slot (sq + 1) response (d # cs)"

lemma written_in_full:
  assumes "expected_bulk_out_len en = n"
  obtains tr where "step en now (IoCompleted (BulkOut n)) = Some (en, tr)" "completed (actions tr) = []"
    "bulk_outs (actions tr) = []"
  using assms by (auto simp: step_def bulk_out_done_def read_reply_def rearm_def transition_def)

lemma block_asked_for:
  assumes "pending_op en = Some (op_id, k)" "expected_response_type en = 0x80" "outgoing_chain en = d # cs"
    "unat now + unat (default_timeout_ms en) < 2 ^ 64"
  obtains en' tr where
    "step en now (IoCompleted (BulkIn (data_frame (b_slot en) (expected_seq en) CommandContinuationExpected []))) = Some (en', tr)"
    "completed (actions tr) = []"
    "bulk_outs (actions tr) = [encode_xfr_block (b_slot en) (next_seq en) (pending_b_wi en)
       (if cs = [] then W_LEVEL_END else W_LEVEL_CONTINUE) d]"
    "pending_op en' = Some (op_id, k)" "expected_response_type en' = 0x80" "outgoing_chain en' = cs" "b_slot en' = b_slot en"
    "next_seq en' = next_seq en + 1" "expected_seq en' = next_seq en" "chain_buffer en' = chain_buffer en"
    "expected_bulk_out_len en' = 10 + length d" "pending_b_wi en' = pending_b_wi en"
    "default_timeout_ms en' = default_timeout_ms en"
proof -
  have add: "checked_add now (default_timeout_ms en) = Some (now + default_timeout_ms en)"
    using assms(4) by (simp add: checked_add_def)
  show thesis
    using that assms add bulk_in_data_frame [OF assms(1,2), of "[]" now CommandContinuationExpected]
    by (simp add: step_def on_data_block_def next_command_block_def allocate_seq_def arm_deadline_def Let_def rearm_def
        transition_def encode_xfr_block_def split: if_splits)
qed

lemma command_run:
  assumes "pending_op en = Some (op_id, PendingTransferBlock)" "expected_response_type en = 0x80"
    "next_seq en = expected_seq en + 1" "chain_buffer en = []" "outgoing_chain en = cs"
    "expected_bulk_out_len en = 10 + length c" "length response \<le> 65538"
    "\<forall>(now, event) \<in> set events. unat now + unat (default_timeout_ms en) < 2 ^ 64"
    "map snd events = command_events (b_slot en) (expected_seq en) response (c # cs)"
  shows "\<exists>en' acts. engine_run en events = Some (en', acts) \<and> pending_op en' = None \<and>
    completed acts = [(op_id, Ok (TransferBlockResult response))] \<and>
    bulk_outs acts = later_blocks (b_slot en) (next_seq en) (pending_b_wi en) cs"
  using assms
proof (induction cs arbitrary: en c events)
  case Nil
  then obtain now now' where events: "events = [(now, IoCompleted (BulkOut (10 + length c))),
      (now', IoCompleted (BulkIn (data_frame (b_slot en) (expected_seq en) ChainComplete response)))]"
    by (auto simp: map_eq_Cons_conv)
  obtain tr where "step en now (IoCompleted (BulkOut (10 + length c))) = Some (en, tr)"
    "completed (actions tr) = []" "bulk_outs (actions tr) = []"
    by (rule written_in_full [OF Nil(6)])
  then show ?case
    using Nil bulk_in_data_frame [OF Nil(1,2,7), of now' ChainComplete]
    by (auto simp: events step_def on_data_block_def complete_data_def data_result_def rearm_def transition_def Let_def)
next
  case (Cons d cs)
  from Cons(10) obtain now now' rest where events: "events = (now, IoCompleted (BulkOut (10 + length c))) #
      (now', IoCompleted (BulkIn (data_frame (b_slot en) (expected_seq en) CommandContinuationExpected []))) # rest"
    "map snd rest = command_events (b_slot en) (expected_seq en + 1) response (d # cs)"
    by (auto simp: map_eq_Cons_conv)
  obtain tr where one: "step en now (IoCompleted (BulkOut (10 + length c))) = Some (en, tr)"
    "completed (actions tr) = []" "bulk_outs (actions tr) = []"
    by (rule written_in_full [OF Cons(7)])
  have time: "unat now' + unat (default_timeout_ms en) < 2 ^ 64" using Cons(9) events(1) by simp
  obtain en' tr' where two:
    "step en now' (IoCompleted (BulkIn (data_frame (b_slot en) (expected_seq en) CommandContinuationExpected []))) = Some (en', tr')"
    "completed (actions tr') = []"
    "bulk_outs (actions tr') = [encode_xfr_block (b_slot en) (next_seq en) (pending_b_wi en)
       (if cs = [] then W_LEVEL_END else W_LEVEL_CONTINUE) d]"
    and en': "pending_op en' = Some (op_id, PendingTransferBlock)" "expected_response_type en' = 0x80"
    "outgoing_chain en' = cs" "b_slot en' = b_slot en" "next_seq en' = next_seq en + 1" "expected_seq en' = next_seq en"
    "chain_buffer en' = chain_buffer en" "expected_bulk_out_len en' = 10 + length d" "pending_b_wi en' = pending_b_wi en"
    "default_timeout_ms en' = default_timeout_ms en"
    by (rule block_asked_for [OF Cons(2,3,6) time])
  have "\<exists>en'' acts. engine_run en' rest = Some (en'', acts) \<and> pending_op en'' = None \<and>
    completed acts = [(op_id, Ok (TransferBlockResult response))] \<and>
    bulk_outs acts = later_blocks (b_slot en') (next_seq en') (pending_b_wi en') cs"
    by (rule Cons.IH) (use en' Cons events in simp_all)
  with one two en' show ?case by (auto simp: events)
qed

section \<open>A reader\<close>

text \<open>
  The functional descriptor of a reader that takes extended commands in messages of 271 octets, its
  engine at the start, and the engine with a command sent.
\<close>

definition sample_descriptor :: CcidFunctionalDescriptor where
  "sample_descriptor =
     \<lparr>fd_exchange_level = ShortAndExtendedApdu, fd_maximum_message_length = 271, fd_max_slot_index = 0,
      fd_features = 0x00040000, fd_protocols = 3, fd_pin_support = 0\<rparr>"

definition sample_descriptor_bytes :: bytes where
  "sample_descriptor_bytes =
     [54, 0x21, 0, 0, 0, 0, 3, 0, 0, 0, 0, 0, 0, 0, 0, 0, 0, 0, 0, 0, 0, 0, 0, 0, 0, 0, 0, 0, 0, 0,
      0, 0, 0, 0, 0, 0, 0, 0, 0, 0, 0, 0, 4, 0, 0x0F, 1, 0, 0, 0, 0, 0, 0, 0, 0]"

definition sample_engine :: CcidEngine where
  "sample_engine = engine_new 0 0 1 sample_descriptor"

definition busy_engine :: CcidEngine where
  "busy_engine = fst (the (step sample_engine 0 (Start 7 (TransferBlock 0 0 [0, 0xA4, 0, 0]))))"

lemma sample_parsed: "parse_functional_descriptor sample_descriptor_bytes = Ok sample_descriptor"
  by (simp add: parse_functional_descriptor_def sample_descriptor_bytes_def u32_at_def le_value_def be_value_def
      decode_exchange_level_def Let_def result_simps sample_descriptor_def)

lemma sample_reachable: "engine_reachable sample_engine"
  unfolding sample_engine_def by (rule created [OF sample_parsed])

lemmas sample_defs =
  sample_engine_def engine_new_def sample_descriptor_def maximum_transfer_block_length_def maximum_payload_length_def

lemma busy_step:
  "\<exists>tr. step sample_engine 0 (Start 7 (TransferBlock 0 0 [0, 0xA4, 0, 0])) = Some (busy_engine, tr)"
  by (simp add: busy_engine_def step_def transition_def start_def start_refusal_def allocate_seq_def
      is_chained_def checked_add_def arm_deadline_def Let_def sample_defs)

lemma busy_reachable: "engine_reachable busy_engine"
  using busy_step stepped [OF sample_reachable] by blast

lemma busy_fields:
  "pending_op busy_engine = Some (7, PendingTransferBlock)" "chain_buffer busy_engine = []"
  "b_slot busy_engine = 0" "expected_seq busy_engine = 0" "op_started_at busy_engine = 0"
  "expected_response_type busy_engine = 0x80" "waiting_unit_ms busy_engine = 1000" "wtx_count busy_engine = 0"
  by (simp_all add: busy_engine_def step_def transition_def start_def start_refusal_def allocate_seq_def
      is_chained_def checked_add_def arm_deadline_def Let_def sample_defs)

section \<open>Properties\<close>

text \<open>
  Property C18. Along every sequence of events, whatever the reader sends and however often transfers
  fail, an operation identifier is completed exactly as often as it was started, counting one that is
  still pending: no operation is completed twice, dropped, or completed without having been started.
\<close>
theorem operations_completed_once:
  assumes "engine_reachable en" "engine_run en events = Some (en', acts)"
  shows "completions op_id acts + waiting op_id en' = waiting op_id en + (\<Sum>(now, event) \<leftarrow> events. starts op_id event)"
  by (rule run_counts [OF reachable_inv [OF assms(1)] assms(2)])

lemma busy_cancelled:
  "engine_run busy_engine [(9, Cancel 7), (9, Start 8 GetSlotStatus)] =
     Some (fst (cancel busy_engine 7), [CancelTransfers, Complete 7 (Err Cancelled), Complete 8 (Err (CcidDesync SlotRecoveryRequired))])"
  by (simp add: step_def cancel_def rearm_def transition_def busy_fields start_def start_refusal_def)
    (simp add: busy_engine_def step_def transition_def start_def start_refusal_def allocate_seq_def
      is_chained_def checked_add_def arm_deadline_def Let_def sample_defs)

theorem operations_completed_once_witness:
  "completions 7 [CancelTransfers, Complete 7 (Err Cancelled), Complete 8 (Err (CcidDesync SlotRecoveryRequired))] +
     waiting 7 (fst (cancel busy_engine 7)) = 1 + (0 + (0 + 0))"
  using operations_completed_once [OF busy_reachable busy_cancelled, of 7] by (simp add: waiting_def busy_fields)

text \<open>
  An operation that is completed with a result is the pending one, and the result is of
  its kind: an answer to a power-on is never taken for the answer to a command, to a request for
  parameters, or to an abort.
\<close>
theorem result_of_kind:
  assumes "engine_reachable en" "step en now event = Some (en', tr)" "Complete op_id (Ok r) \<in> set (actions tr)"
  shows "pending_op en = Some (op_id, result_kind r) \<and> pending_op en' = None"
proof -
  note handled = assms(2) [unfolded step_Some]
  have fin: "(op_id, Ok r) \<in> set (completed (actions tr))" using assms(3) by (simp add: completed_set)
  have "\<And>i op. event \<noteq> Start i op"
  proof
    fix i op assume "event = Start i op"
    with handled have "start en now i op = Some (en', actions tr, next_deadline tr)" by simp
    then show False using fin by (cases rule: start_cases) (auto simp: abort_request_def)
  qed
  from handle_settles [OF reachable_inv [OF assms(1)] handled this] fin
  show ?thesis by (auto simp: settles_def)
qed

lemma busy_answered:
  "\<exists>en'. step busy_engine 5 (IoCompleted (BulkIn (data_frame 0 0 ChainComplete [0x90, 0]))) =
     Some (en', \<lparr>actions = [Complete 7 (Ok (TransferBlockResult [0x90, 0]))], next_deadline = None\<rparr>)"
  using bulk_in_data_frame [OF busy_fields(1,6), of "[0x90, 0]" 5 ChainComplete]
  by (simp add: busy_fields step_def on_data_block_def complete_data_def data_result_def rearm_def transition_def Let_def)

theorem result_of_kind_witness:
  "pending_op busy_engine = Some (7, PendingTransferBlock)"
  using busy_answered result_of_kind [OF busy_reachable, of 5 _ _ _ 7 "TransferBlockResult [0x90, 0]"] by force

text \<open>
  A pending operation always has a deadline, and the deadline ends it: when the host
  reports it at or after its time, the transfers are cancelled, the operation is completed with a
  timeout, and the slot asks for recovery.
\<close>
theorem deadline_ends_operation:
  assumes "engine_reachable en" "pending_op en = Some (op_id, k)"
  shows "\<exists>dl. current_deadline en = Some dl \<and> (\<forall>now. expires_at dl \<le> now \<longrightarrow>
    (\<exists>en'. step en now (DeadlineExpired (dl_id dl)) =
       Some (en', \<lparr>actions = [CancelTransfers, Complete op_id (Err CcidTimeout)], next_deadline = None\<rparr>) \<and>
     pending_op en' = None \<and> needs_recovery en'))"
proof -
  from reachable_inv [OF assms(1)] assms(2) obtain dl where dl: "current_deadline en = Some dl"
    by (auto simp: engine_inv_def)
  with assms(2) show ?thesis by (auto simp: step_def deadline_expired_def rearm_def transition_def)
qed

theorem deadline_ends_operation_witness:
  "\<exists>dl. current_deadline busy_engine = Some dl \<and> (\<forall>now. expires_at dl \<le> now \<longrightarrow>
    (\<exists>en'. step busy_engine now (DeadlineExpired (dl_id dl)) =
       Some (en', \<lparr>actions = [CancelTransfers, Complete 7 (Err CcidTimeout)], next_deadline = None\<rparr>) \<and>
     pending_op en' = None \<and> needs_recovery en'))"
  by (rule deadline_ends_operation [OF busy_reachable busy_fields(1)])







text \<open>
  Property C23. A command longer than a message of the reader is sent in full and in order: in blocks of
  the reader's size that begin, continue and end the command under consecutive sequence numbers, each
  sent when the reader asks for it, and the reader's answer to the last one completes the operation.
\<close>
theorem command_blocks_sent:
  assumes "engine_reachable en" "exchange_level en \<noteq> Character"
    "start_refusal en (TransferBlock b_wi level data) = None" "max_payload_length en < length data"
    "length response \<le> 65538" "\<forall>(now, event) \<in> set events. unat now + 5000 < 2 ^ 64"
    "map snd events = Start op_id (TransferBlock b_wi level data) #
       command_events (b_slot en) (next_seq en) response (chunks (max_payload_length en) data)"
  shows "\<exists>en' acts. engine_run en events = Some (en', acts) \<and> pending_op en' = None \<and>
    completed acts = [(op_id, Ok (TransferBlockResult response))] \<and>
    bulk_outs acts = command_blocks (b_slot en) (next_seq en) b_wi (chunks (max_payload_length en) data) \<and>
    concat (chunks (max_payload_length en) data) = data"
proof -
  define n where "n = max_payload_length en"
  have n: "0 < n" "n < length data" using reachable_sizes [OF assms(1,2)] assms(4) by (auto simp: n_def)
  have chunks: "chunks n data = take n data # chunks n (drop n data)" using n by (intro chunks_unfold) auto
  have ext: "exchange_level en = ShortAndExtendedApdu"
    using assms(3,4) by (auto simp: start_refusal_def split: if_splits)
  have timeout: "default_timeout_ms en = 5000" using reachable_inv [OF assms(1)] by (simp add: engine_inv_def)
  from assms(7) obtain now rest where events: "events = (now, Start op_id (TransferBlock b_wi level data)) # rest"
    "map snd rest = command_events (b_slot en) (next_seq en) response (chunks n data)"
    by (auto simp: map_eq_Cons_conv n_def)
  define en1 where "en1 = arm_deadline (now + 5000) ((started en now)\<lparr>pending_b_wi := b_wi, outgoing_chain := chunks n (drop n data),
    pending_op := Some (op_id, PendingTransferBlock), expected_response_type := 0x80, expected_bulk_out_len := 10 + length (take n data)\<rparr>)"
  have time: "unat now + 5000 < 2 ^ 64" using assms(6) events(1) by simp
  have start: "start en now op_id (TransferBlock b_wi level data) =
      Some (en1, [SubmitBulkOut (next_seq en) (encode_xfr_block (b_slot en) (next_seq en) b_wi 1 (take n data))], current_deadline en1)"
    using n time ext unfolding start_def assms(3) option.case
    by (simp add: allocate_seq_def is_chained_def Let_def n_def timeout checked_add_def en1_def started_def
        encode_xfr_block_def arm_deadline_def)
  have fields: "pending_op en1 = Some (op_id, PendingTransferBlock)" "expected_response_type en1 = 0x80"
    "next_seq en1 = expected_seq en1 + 1" "chain_buffer en1 = []" "outgoing_chain en1 = chunks n (drop n data)"
    "expected_bulk_out_len en1 = 10 + length (take n data)" "b_slot en1 = b_slot en" "expected_seq en1 = next_seq en"
    "default_timeout_ms en1 = 5000" "pending_b_wi en1 = b_wi"
    by (simp_all add: en1_def started_def arm_deadline_def timeout)
  have "\<exists>en' acts. engine_run en1 rest = Some (en', acts) \<and> pending_op en' = None \<and>
      completed acts = [(op_id, Ok (TransferBlockResult response))] \<and>
      bulk_outs acts = later_blocks (b_slot en1) (next_seq en1) (pending_b_wi en1) (chunks n (drop n data))"
    by (rule command_run [OF fields(1-6) assms(5)]) (use assms(6) events chunks fields in auto)
  with start fields chunks n(1) show ?thesis
    by (auto simp: events(1) step_def transition_def command_blocks_def concat_chunks n_def [symmetric])
qed

theorem command_blocks_sent_witness:
  "\<exists>en' acts. engine_run sample_engine
       [(0, Start 7 (TransferBlock 0 0 (replicate 300 0))), (1, IoCompleted (BulkOut 271)),
        (2, IoCompleted (BulkIn (data_frame 0 0 CommandContinuationExpected []))), (3, IoCompleted (BulkOut 49)),
        (4, IoCompleted (BulkIn (data_frame 0 1 ChainComplete [0x90, 0])))] = Some (en', acts) \<and>
     pending_op en' = None \<and> completed acts = [(7, Ok (TransferBlockResult [0x90, 0]))] \<and>
     bulk_outs acts = command_blocks 0 0 0 [replicate 261 0, replicate 39 0]"
proof -
  have chunks: "chunks 261 (replicate 300 (0 :: u8)) = [replicate 261 0, replicate 39 0]" by (simp add: chunks_unfold)
  have fields: "exchange_level sample_engine \<noteq> Character" "max_payload_length sample_engine = 261"
    "b_slot sample_engine = 0" "next_seq sample_engine = 0"
    "start_refusal sample_engine (TransferBlock 0 0 (replicate 300 0)) = None"
    by (simp_all add: sample_defs start_refusal_def)
  show ?thesis
    using command_blocks_sent [OF sample_reachable fields(1,5), of "[0x90, 0]"
        "[(0, Start 7 (TransferBlock 0 0 (replicate 300 0))), (1, IoCompleted (BulkOut 271)),
          (2, IoCompleted (BulkIn (data_frame 0 0 CommandContinuationExpected []))), (3, IoCompleted (BulkOut 49)),
          (4, IoCompleted (BulkIn (data_frame 0 1 ChainComplete [0x90, 0])))]" 7]
    by (simp add: fields(2-4) chunks del: engine_run.simps) blast
qed

text \<open>
  A reader that asks for more time is given it within limits: either the operation ends
  with a timeout, or its deadline is no later than ten seconds after its start, and it has been
  extended at most sixty times.
\<close>
theorem time_extension_bounded:
  assumes "pending_op en = Some (op_id, k)"
    "decode_response frame (expected_response_type en) (b_slot en) (expected_seq en) = Ok (TimeExtension cs multiplier)"
    "step en now (IoCompleted (BulkIn frame)) = Some (en', tr)"
  shows "pending_op en' = None \<and> actions tr = [CancelTransfers, Complete op_id (Err CcidTimeout)] \<and> needs_recovery en' \<or>
    pending_op en' = Some (op_id, k) \<and> wtx_count en < wtx_count en' \<and> wtx_count en' \<le> 60 \<and>
    (\<exists>dl. next_deadline tr = Some dl \<and> current_deadline en' = Some dl \<and>
       unat (expires_at dl) \<le> unat (op_started_at en) + 10000)"
proof -
  let ?en = "en\<lparr>pending_op := None\<rparr>"
  have step: "(en', actions tr, next_deadline tr) = rearm (on_time_extension ?en now op_id k multiplier)"
    using assms by (auto simp: step_Some bulk_in_done_def)
  have bound: "unat until \<le> unat (op_started_at en) + 10000"
    if "\<not> 10000 < saturating_sub until (op_started_at en)" for until
    using that by (simp add: word_less_nat_alt unat_saturating_sub not_less)
  show ?thesis
    using step unfolding on_time_extension_def
    by (auto simp: Let_def arm_deadline_def rearm_def dest: bound split: if_splits)
qed

theorem time_extension_bounded_witness:
  "\<exists>en' dl. pending_op en' = Some (7, PendingTransferBlock) \<and> current_deadline en' = Some dl \<and>
     unat (expires_at dl) \<le> 10000 \<and>
     step busy_engine 100 (IoCompleted (BulkIn (reply_frame 0x80 0 0 (status_octet Active 2) 3 0 []))) =
       Some (en', \<lparr>actions = [read_reply en'], next_deadline = Some dl\<rparr>)"
proof -
  have decode: "decode_response (reply_frame 0x80 0 0 (status_octet Active 2) 3 0 []) (expected_response_type busy_engine)
      (b_slot busy_engine) (expected_seq busy_engine) = Ok (TimeExtension Active 3)"
    unfolding busy_fields by (rule decode_reply_frame) (auto intro: time_extension)
  obtain en' tr where step: "step busy_engine 100 (IoCompleted (BulkIn (reply_frame 0x80 0 0 (status_octet Active 2) 3 0 [])))
      = Some (en', tr)" "actions tr = [read_reply en']"
    using decode by (auto simp: step_def bulk_in_done_def busy_fields on_time_extension_def rearm_def transition_def
        arm_deadline_def Let_def read_reply_def saturating_add_def saturating_sub_def)
  with time_extension_bounded [OF busy_fields(1) decode step(1)] show ?thesis
    by (cases tr) (auto simp: busy_fields read_reply_def)
qed

end
