(* ===== verification/Ccid_Transport.thy ===== *)
theory Ccid_Transport
  imports Iso7816 Card_Transport Ccid_Exchange
begin

text \<open>
  The card transport over a reader: \<open>crates/ccid/src/transport.rs\<close>. The platform's USB host and the
  clock are parameters, a record of functions on the host's state. \<open>execute_op\<close> drives the engine
  with the host's answers until the operation is completed; an APDU exchange is one such operation,
  and GET RESPONSE commands while the card announces more. \<open>None\<close> stands for not returning: for an
  operation that never completes, and for the panic of the engine.
\<close>

section \<open>The host and the transport\<close>

text \<open>
  \<open>UsbHostTransport\<close>, with the monotonic clock in nanoseconds. A bulk read gives the buffer after the
  call, whatever the result.
\<close>

record 'h UsbHost =
  bulk_out :: "u8 \<Rightarrow> bytes \<Rightarrow> u32 \<Rightarrow> 'h \<Rightarrow> 'h \<times> (nat, CcidError) result"
  bulk_in :: "u8 \<Rightarrow> bytes \<Rightarrow> u32 \<Rightarrow> 'h \<Rightarrow> 'h \<times> bytes \<times> (nat, CcidError) result"
  control_transfer :: "u8 \<Rightarrow> u8 \<Rightarrow> u16 \<Rightarrow> u16 \<Rightarrow> bytes \<Rightarrow> u32 \<Rightarrow> 'h \<Rightarrow> 'h \<times> (nat, CcidError) result"
  instant_now :: "'h \<Rightarrow> 'h \<times> nat"

datatype CardProtocol = T0 | T1

definition from_atr :: "Atr \<Rightarrow> CardProtocol" where
  "from_atr a =
     (if list_ex (\<lambda>g. case ig_td g of None \<Rightarrow> False | Some td \<Rightarrow> protocol_indicator td = 1) (interface_groups a)
      then T1 else T0)"

definition t0_case3_from_short_case4 :: "bytes \<Rightarrow> bytes option" where
  "t0_case3_from_short_case4 apdu =
     (if length apdu \<le> 4 then None
      else
        let lc = unat (apdu ! 4) in
        if lc = 0 then None
        else if length apdu \<noteq> 5 + lc + 1 then None
        else Some (take (length apdu - 1) apdu))"

definition prepare_command_bytes ::
  "bytes \<Rightarrow> CardProtocol \<Rightarrow> CcidExchangeLevel \<Rightarrow> (bytes, CcidError) result" where
  "prepare_command_bytes apdu proto level =
     (if (level = Tpdu \<or> level = Character) \<and> proto = T1 then Err UnsupportedProtocol
      else if proto = T0 \<and> (level = Tpdu \<or> level = Character) then
        case t0_case3_from_short_case4 apdu of
          Some case3 \<Rightarrow> Ok case3
        | None \<Rightarrow> Ok apdu
      else Ok apdu)"

record 'h CcidCardTransport =
  ct_host :: 'h
  ct_engine :: CcidEngine
  ct_descriptor :: CcidFunctionalDescriptor
  ct_bulk_out_endpoint :: u8
  ct_bulk_in_endpoint :: u8
  ct_atr :: Atr
  ct_protocol :: CardProtocol
  ct_next_op_id :: u64
  ct_timeout_ms :: u32

section \<open>One operation\<close>

text \<open>The clock since the start of the operation, in milliseconds.\<close>

definition get_now :: "'h UsbHost \<Rightarrow> nat \<Rightarrow> 'h CcidCardTransport \<Rightarrow> 'h CcidCardTransport \<times> MonotonicTime" where
  "get_now h start_instant ct =
     (case instant_now h (ct_host ct) of
        (s, t) \<Rightarrow> (ct\<lparr>ct_host := s\<rparr>, of_nat ((t - start_instant) div 1000000)))"

definition transfer_timeout :: "'h CcidCardTransport \<Rightarrow> Deadline option \<Rightarrow> MonotonicTime \<Rightarrow> u32" where
  "transfer_timeout ct deadline now =
     (case deadline of
        None \<Rightarrow> ct_timeout_ms ct
      | Some dl \<Rightarrow> max (min (ct_timeout_ms ct) (ucast (saturating_sub (expires_at dl) now))) 1)"

text \<open>A transfer of the host, and the event that reports it.\<close>

fun perform ::
  "'h UsbHost \<Rightarrow> u32 \<Rightarrow> Action \<Rightarrow> 'h CcidCardTransport \<Rightarrow> ('h CcidCardTransport \<times> IoCompletion) option" where
  "perform h timeout (SubmitBulkOut sq data) ct =
     (case bulk_out h (ct_bulk_out_endpoint ct) data timeout (ct_host ct) of
        (s, Ok transferred) \<Rightarrow> Some (ct\<lparr>ct_host := s\<rparr>, BulkOut transferred)
      | (s, Err e) \<Rightarrow> Some (ct\<lparr>ct_host := s\<rparr>, IoFailure e))"
| "perform h timeout (SubmitBulkIn buffer_size) ct =
     (case bulk_in h (ct_bulk_in_endpoint ct) (replicate buffer_size 0) timeout (ct_host ct) of
        (s, buf, Ok len) \<Rightarrow> Some (ct\<lparr>ct_host := s\<rparr>, BulkIn (take len buf))
      | (s, buf, Err e) \<Rightarrow> Some (ct\<lparr>ct_host := s\<rparr>, IoFailure e))"
| "perform h timeout (SubmitControl request_type request val idx data) ct =
     (case control_transfer h request_type request val idx data timeout (ct_host ct) of
        (s, Ok _) \<Rightarrow> Some (ct\<lparr>ct_host := s\<rparr>, Control)
      | (s, Err e) \<Rightarrow> Some (ct\<lparr>ct_host := s\<rparr>, IoFailure e))"
| "perform h timeout _ ct = None"

type_synonym 'h op_loop = "'h CcidCardTransport \<times> Deadline option \<times> Action list"

text \<open>An event for the engine: its actions are put behind the queue, and its deadline replaces the last.\<close>

definition engine_event ::
  "MonotonicTime \<Rightarrow> InputEvent \<Rightarrow> Action list \<Rightarrow> 'h CcidCardTransport \<Rightarrow> 'h op_loop option" where
  "engine_event now event queue ct =
     map_option (\<lambda>(en, tr). (ct\<lparr>ct_engine := en\<rparr>, next_deadline tr, queue @ actions tr))
       (step (ct_engine ct) now event)"

fun is_complete :: "Action \<Rightarrow> bool" where
  "is_complete (Complete op_id r) = True"
| "is_complete _ = False"

definition deadline_passed :: "Deadline option \<Rightarrow> Action \<Rightarrow> MonotonicTime \<Rightarrow> DeadlineId option" where
  "deadline_passed deadline action now =
     (case deadline of
        None \<Rightarrow> None
      | Some dl \<Rightarrow>
          if \<not> (action = CancelTransfers \<or> is_complete action) \<and> now \<ge> expires_at dl then Some (dl_id dl) else None)"

text \<open>One round of the loop: it goes on with \<open>Inl\<close> and returns with \<open>Inr\<close>.\<close>

definition loop_round ::
  "'h UsbHost \<Rightarrow> OperationId \<Rightarrow> nat \<Rightarrow> 'h op_loop \<Rightarrow>
   ('h op_loop + 'h CcidCardTransport \<times> (OperationResult, CcidError) result) option" where
  "loop_round h op_id start_instant st =
     (case st of
        (ct, deadline, []) \<Rightarrow> Some (Inr (ct, Err (CcidDesync TerminatedWithoutCompletion)))
      | (ct, deadline, action # queue) \<Rightarrow>
          let (ct, now) = get_now h start_instant ct in
          case deadline_passed deadline action now of
            Some expired \<Rightarrow> map_option Inl (engine_event now (DeadlineExpired expired) queue ct)
          | None \<Rightarrow>
              (case action of
                 CancelTransfers \<Rightarrow> Some (Inl (ct, None, filter is_complete queue))
               | Complete completed_id r \<Rightarrow>
                   Some (if completed_id = op_id then Inr (ct, r) else Inl (ct, deadline, queue))
               | PublishSlotChange _ _ _ \<Rightarrow> Some (Inl (ct, deadline, queue))
               | _ \<Rightarrow>
                   (case perform h (transfer_timeout ct deadline now) action ct of
                      None \<Rightarrow> None
                    | Some (ct, io) \<Rightarrow>
                        let (ct, now) = get_now h start_instant ct in
                        map_option Inl (engine_event now (IoCompleted io) queue ct))))"

partial_function (option) execute_loop ::
  "'h UsbHost \<Rightarrow> OperationId \<Rightarrow> nat \<Rightarrow> 'h op_loop \<Rightarrow> ('h CcidCardTransport \<times> (OperationResult, CcidError) result) option" where
  "execute_loop h op_id start_instant st =
     (case loop_round h op_id start_instant st of
        None \<Rightarrow> None
      | Some (Inr out) \<Rightarrow> Some out
      | Some (Inl st') \<Rightarrow> execute_loop h op_id start_instant st')"

definition execute_op ::
  "'h UsbHost \<Rightarrow> Operation \<Rightarrow> 'h CcidCardTransport \<Rightarrow>
   ('h CcidCardTransport \<times> (OperationResult, CcidError) result) option" where
  "execute_op h op ct =
     (let op_id = ct_next_op_id ct;
          ct = ct\<lparr>ct_next_op_id := op_id + 1\<rparr>;
          (s, start_instant) = instant_now h (ct_host ct);
          (ct, now) = get_now h start_instant (ct\<lparr>ct_host := s\<rparr>) in
      case engine_event now (Start op_id op) [] ct of
        None \<Rightarrow> None
      | Some st \<Rightarrow> execute_loop h op_id start_instant st)"

section \<open>Power, parameters and recovery\<close>

type_synonym ('h, 'a) card_op = "'h CcidCardTransport \<Rightarrow> ('h CcidCardTransport \<times> ('a, CcidError) result) option"

text \<open>Sequencing with the early return of the question mark operator.\<close>

definition op_then :: "('h, 'a) card_op \<Rightarrow> ('a \<Rightarrow> ('h, 'b) card_op) \<Rightarrow> ('h, 'b) card_op" where
  "op_then m f ct =
     (case m ct of
        None \<Rightarrow> None
      | Some (ct', Err e) \<Rightarrow> Some (ct', Err e)
      | Some (ct', Ok x) \<Rightarrow> f x ct')"

definition op_return :: "('a, CcidError) result \<Rightarrow> ('h, 'a) card_op" where
  "op_return r ct = Some (ct, r)"

definition t0_parameters :: "CcidFunctionalDescriptor \<Rightarrow> Atr \<Rightarrow> u8 \<times> u8 \<times> u8" where
  "t0_parameters d parsed =
     (case interface_groups parsed of
        [] \<Rightarrow> (0x11, 0, 0x0A)
      | g1 # groups \<Rightarrow>
          let has_pps = fd_features d AND (0x40 OR 0x80) \<noteq> 0;
              g2 = (case groups of [] \<Rightarrow> None | g2 # _ \<Rightarrow> Some g2);
              in_specific_mode = (Option.bind g2 ig_ta \<noteq> None);
              fi_di = (if in_specific_mode \<or> has_pps
                       then (case ig_ta g1 of None \<Rightarrow> 0x11 | Some ta \<Rightarrow> ta_as_byte ta) else 0x11);
              guard_time = (case ig_tc g1 of None \<Rightarrow> 0 | Some tc \<Rightarrow> tc_as_byte tc);
              waiting_integer = (case Option.bind g2 ig_tc of None \<Rightarrow> 0x0A | Some tc \<Rightarrow> tc_as_byte tc) in
          (fi_di, guard_time, waiting_integer))"

definition configure_parameters :: "'h UsbHost \<Rightarrow> Atr \<Rightarrow> ('h, unit) card_op" where
  "configure_parameters h parsed ct =
     (if \<not> automatic_parameter_configuration (ct_descriptor ct) \<and> ct_protocol ct = T0 then
        case t0_parameters (ct_descriptor ct) parsed of
          (fi_di, guard_time, waiting_integer) \<Rightarrow>
            op_then (execute_op h (SetParametersT0 fi_di guard_time waiting_integer 0 (convention parsed = Inverse)))
              (\<lambda>_. op_return (Ok ())) ct
      else Some (ct, Ok ()))"

definition protocol_supported :: "CcidFunctionalDescriptor \<Rightarrow> CardProtocol \<Rightarrow> bool" where
  "protocol_supported d proto \<longleftrightarrow> (case proto of T0 \<Rightarrow> supports_t0 d | T1 \<Rightarrow> supports_t1 d)"

text \<open>The card's answer to a power-on is adopted: its protocol, its parameters and the answer itself.\<close>

definition adopt_atr :: "'h UsbHost \<Rightarrow> Atr \<Rightarrow> ('h, unit) card_op" where
  "adopt_atr h parsed ct =
     (let proto = from_atr parsed in
      if \<not> protocol_supported (ct_descriptor ct) proto then Some (ct, Err UnsupportedProtocol)
      else op_then (configure_parameters h parsed) (\<lambda>_ ct. Some (ct\<lparr>ct_atr := parsed\<rparr>, Ok ())) (ct\<lparr>ct_protocol := proto\<rparr>))"

definition abort :: "'h UsbHost \<Rightarrow> ('h, unit) card_op" where
  "abort h = op_then (execute_op h Abort) (\<lambda>r.
     op_return (if r = Aborted then Ok () else Err (CcidDesync UnexpectedAbortOutcome)))"

definition power_on :: "'h UsbHost \<Rightarrow> CcidProtocolDesync \<Rightarrow> ('h, bytes) card_op" where
  "power_on h missing = op_then (execute_op h (PowerOn 0)) (\<lambda>r.
     op_return (case r of PowerOnResult atr_bytes \<Rightarrow> Ok atr_bytes | _ \<Rightarrow> Err (CcidDesync missing)))"

definition reset :: "'h UsbHost \<Rightarrow> ('h, bytes) card_op" where
  "reset h ct =
     op_then (\<lambda>ct. if needs_recovery (ct_engine ct) then abort h ct else Some (ct, Ok ())) (\<lambda>_ ct.
       case execute_op h PowerOff ct of
         None \<Rightarrow> None
       | Some (ct, _) \<Rightarrow>
           op_then (power_on h ResetMissingAtr) (\<lambda>atr_bytes ct.
             case atr_new atr_bytes of
               Err e \<Rightarrow> Some (ct\<lparr>ct_engine := mark_deactivated (ct_engine ct)\<rparr>, Err (CcidAtr e))
             | Ok parsed \<Rightarrow> op_then (adopt_atr h parsed) (\<lambda>_. op_return (Ok (to_wire_bytes parsed))) ct) ct) ct"

definition disconnect :: "'h UsbHost \<Rightarrow> ('h, unit) card_op" where
  "disconnect h ct =
     (if activated (ct_engine ct) then op_then (execute_op h PowerOff) (\<lambda>_. op_return (Ok ())) ct
      else Some (ct, Ok ()))"

text \<open>Dropping a transport powers the card off, whatever comes of it.\<close>

definition drop_transport :: "'h UsbHost \<Rightarrow> 'h CcidCardTransport \<Rightarrow> 'h option" where
  "drop_transport h ct =
     (if activated (ct_engine ct) then map_option (\<lambda>(ct', _). ct_host ct') (execute_op h PowerOff ct)
      else Some (ct_host ct))"

definition connect ::
  "'h UsbHost \<Rightarrow> 'h \<Rightarrow> CcidFunctionalDescriptor \<Rightarrow> u8 \<Rightarrow> u8 \<Rightarrow> u8 \<Rightarrow> u8 \<Rightarrow>
   ('h CcidCardTransport, 'h \<times> CcidError) result option" where
  "connect h s d interface slot out_endpoint in_endpoint =
     (if slot > fd_max_slot_index d then Some (Err (s, UnexpectedSlot (fd_max_slot_index d) slot))
      else case atr_new [0x3B, 0x00] of
        Err e \<Rightarrow> Some (Err (s, CcidAtr e))
      | Ok placeholder \<Rightarrow>
          let ct = \<lparr>ct_host = s, ct_engine = engine_new interface slot 1 d, ct_descriptor = d,
                    ct_bulk_out_endpoint = out_endpoint, ct_bulk_in_endpoint = in_endpoint,
                    ct_atr = placeholder, ct_protocol = T0, ct_next_op_id = 1, ct_timeout_ms = 5000\<rparr> in
          case op_then (power_on h PowerOnMissingAtr) (\<lambda>atr_bytes.
                 op_then (op_return (map_err CcidAtr (atr_new atr_bytes))) (adopt_atr h)) ct of
            None \<Rightarrow> None
          | Some (ct, Ok _) \<Rightarrow> Some (Ok ct)
          | Some (ct, Err e) \<Rightarrow> map_option (\<lambda>s. Err (s, e)) (drop_transport h ct))"

section \<open>Exchanges\<close>

text \<open>A response with its status word split off.\<close>

definition split_status :: "bytes \<Rightarrow> ResponseApdu option" where
  "split_status raw =
     (if length raw < 2 then None
      else Some \<lparr>rsp_body = take (length raw - 2) raw, rsp_sw1 = raw ! (length raw - 2), rsp_sw2 = raw ! (length raw - 1)\<rparr>)"

definition secure_direct :: "'h UsbHost \<Rightarrow> bytes \<Rightarrow> ('h, ResponseApdu) card_op" where
  "secure_direct h data ct =
     (if \<not> supports_pin_entry (ct_descriptor ct) then Some (ct, Err UnsupportedProtocol)
      else op_then (execute_op h (Secure 0 W_LEVEL_NONE data)) (\<lambda>r.
        op_return (case r of
            SecureResult payload \<Rightarrow> ok_or (split_status payload) (CcidDesync TerminatedWithoutCompletion)
          | _ \<Rightarrow> Err (CcidDesync TerminatedWithoutCompletion))) ct)"

text \<open>
  The exchanges run over any executor of operations: \<open>'s\<close> is its state, and \<open>prep\<close> prepares a
  command for the card's protocol and the reader's exchange level.
\<close>

type_synonym 's executor = "Operation \<Rightarrow> 's \<Rightarrow> ('s \<times> (OperationResult, CcidError) result) option"

text \<open>One command and its raw response, or the outcome that ends the exchange.\<close>

definition transfer_block ::
  "'s executor \<Rightarrow> bytes \<Rightarrow> 's \<Rightarrow> ('s \<times> (ResponseApdu, (TransportOutcome, CcidError) result) result) option" where
  "transfer_block exec data s =
     map_option (\<lambda>(s, r). (s, case r of
         Ok (TransferBlockResult raw) \<Rightarrow> ok_or (split_status raw) (Ok ProtocolDesync)
       | Ok _ \<Rightarrow> Err (Ok ProtocolDesync)
       | Err CardRemoved \<Rightarrow> Err (Ok NoCard)
       | Err CcidTimeout \<Rightarrow> Err (Ok TimeoutUnknownState)
       | Err e \<Rightarrow> Err (Err e)))
     (exec (TransferBlock 0 W_LEVEL_NONE data) s)"

definition get_response_bytes :: "u8 \<Rightarrow> bytes" where
  "get_response_bytes le = cmd_bytes (get_response_into_apdu \<lparr>gr_class = Plain, gr_le = le\<rparr>)"

text \<open>
  What a block of a chained response leads to: another request with the data so far, the length to ask
  for and the number of wrong lengths in a row, or the end of the exchange.
\<close>

definition chain_decision ::
  "bytes \<Rightarrow> nat \<Rightarrow> ResponseApdu \<Rightarrow> bytes \<times> u8 \<times> nat + (TransportOutcome, CcidError) result" where
  "chain_decision combined consecutive_wrong_le chained =
     (if length combined + length (rsp_body chained) > 2 ^ 16 then Inr (Err (CcidDesync ChainExceededCapacity))
      else
        let combined = combined @ rsp_body chained in
        if rsp_sw1 chained = 0x61 then
          if rsp_body chained = [] then Inr (Err (CcidDesync StalledChain))
          else Inl (combined, rsp_sw2 chained, 0)
        else if rsp_sw1 chained = 0x6C then
          if consecutive_wrong_le + 1 > 2 then Inr (Err (CcidDesync RepeatedWrongLe))
          else Inl (combined, rsp_sw2 chained, consecutive_wrong_le + 1)
        else Inr (Ok (Response (chained\<lparr>rsp_body := combined\<rparr>))))"

text \<open>The loop over GET RESPONSE; \<open>left\<close> is the number of rounds that may still be made.\<close>

fun get_response_loop ::
  "'s executor \<Rightarrow> ('s \<Rightarrow> bytes \<Rightarrow> (bytes, CcidError) result) \<Rightarrow> nat \<Rightarrow> bytes \<Rightarrow> u8 \<Rightarrow> nat \<Rightarrow> 's \<Rightarrow>
   ('s \<times> (TransportOutcome, CcidError) result) option" where
  "get_response_loop exec prep 0 combined next_le consecutive_wrong_le s =
     Some (s, Err (CcidDesync ChainingIterationLimitExceeded))"
| "get_response_loop exec prep (Suc left) combined next_le consecutive_wrong_le s =
     (case prep s (get_response_bytes next_le) of
        Err e \<Rightarrow> Some (s, Err e)
      | Ok command \<Rightarrow>
          (case transfer_block exec command s of
             None \<Rightarrow> None
           | Some (s, Err outcome) \<Rightarrow> Some (s, outcome)
           | Some (s, Ok chained) \<Rightarrow>
               (case chain_decision combined consecutive_wrong_le chained of
                  Inr outcome \<Rightarrow> Some (s, outcome)
                | Inl (combined, next_le, wrong_le) \<Rightarrow>
                    get_response_loop exec prep left combined next_le wrong_le s)))"

definition run_exchange ::
  "'s executor \<Rightarrow> ('s \<Rightarrow> bytes \<Rightarrow> (bytes, CcidError) result) \<Rightarrow> bytes \<Rightarrow> 's \<Rightarrow>
   ('s \<times> (TransportOutcome, CcidError) result) option" where
  "run_exchange exec prep apdu_bytes s =
     (case transfer_block exec apdu_bytes s of
        None \<Rightarrow> None
      | Some (s, Err outcome) \<Rightarrow> Some (s, outcome)
      | Some (s, Ok first) \<Rightarrow>
          if rsp_sw1 first = 0x61
          then get_response_loop exec prep 256 (rsp_body first) (rsp_sw2 first) 0 s
          else Some (s, Ok (Response first)))"

definition exchange_transmit ::
  "'s executor \<Rightarrow> ('s \<Rightarrow> bytes \<Rightarrow> (bytes, CcidError) result) \<Rightarrow> CommandApdu \<Rightarrow> 's \<Rightarrow>
   ('s \<times> (TransportOutcome, CcidError) result) option" where
  "exchange_transmit exec prep command s =
     (case prep s (cmd_bytes command) of
        Err e \<Rightarrow> Some (s, Err e)
      | Ok prepared \<Rightarrow>
          (case run_exchange exec prep prepared s of
             Some (s, Ok (Response resp)) \<Rightarrow>
               (case (if rsp_sw1 resp = 0x6C then corrected_wrong_le command (rsp_sw2 resp) else None) of
                  None \<Rightarrow> Some (s, Ok (Response resp))
                | Some corrected \<Rightarrow>
                    (case prep s (cmd_bytes corrected) of
                       Err e \<Rightarrow> Some (s, Err e)
                     | Ok retry_bytes \<Rightarrow> run_exchange exec prep retry_bytes s))
           | outcome \<Rightarrow> outcome))"

definition exchange_transmit_credential ::
  "'s executor \<Rightarrow> ('s \<Rightarrow> bytes \<Rightarrow> (bytes, CcidError) result) \<Rightarrow> CredentialCommand \<Rightarrow> 's \<Rightarrow>
   ('s \<times> (TransportOutcome, CcidError) result) option" where
  "exchange_transmit_credential exec prep command s =
     expose_wire command (\<lambda>wire.
       case prep s wire of
         Err e \<Rightarrow> Some (s, Err e)
       | Ok prepared \<Rightarrow> run_exchange exec prep prepared s)"

text \<open>The transport's own executor and preparation.\<close>

definition card_prepare :: "'h CcidCardTransport \<Rightarrow> bytes \<Rightarrow> (bytes, CcidError) result" where
  "card_prepare ct apdu = prepare_command_bytes apdu (ct_protocol ct) (exchange_level (ct_engine ct))"

definition ccid_transmit :: "'h UsbHost \<Rightarrow> CommandApdu \<Rightarrow> ('h, TransportOutcome) card_op" where
  "ccid_transmit h = exchange_transmit (execute_op h) card_prepare"

definition ccid_transmit_credential :: "'h UsbHost \<Rightarrow> CredentialCommand \<Rightarrow> ('h, TransportOutcome) card_op" where
  "ccid_transmit_credential h = exchange_transmit_credential (execute_op h) card_prepare"

section \<open>The engine under a host\<close>

text \<open>What is left for the reader to ask for while an operation is pending.\<close>

definition weight :: "CcidEngine \<Rightarrow> nat" where
  "weight en = length (outgoing_chain en) + (60 - wtx_count en) + (65538 - length (chain_buffer en)) +
     (5 - abort_drain_count en)"

lemma weight_pending [simp]: "weight (en\<lparr>pending_op := p\<rparr>) = weight en"
  by (simp add: weight_def)

fun is_bulk :: "Action \<Rightarrow> bool" where
  "is_bulk (SubmitBulkOut sq data) = True"
| "is_bulk (SubmitBulkIn n) = True"
| "is_bulk _ = False"

text \<open>The operation is completed, or goes on with one transfer.\<close>

definition ended :: "OperationId \<Rightarrow> PendingOperation \<Rightarrow> engine_step \<Rightarrow> bool" where
  "ended op_id k r \<longleftrightarrow> pending_op (fst r) = None \<and> (\<exists>x. of_kind k x \<and>
     (fst (snd r) = [Complete op_id x] \<or> fst (snd r) = [CancelTransfers, Complete op_id x]))"

definition goes_on :: "OperationId \<Rightarrow> PendingOperation \<Rightarrow> CcidEngine \<Rightarrow> engine_step \<Rightarrow> bool" where
  "goes_on op_id k en r \<longleftrightarrow> pending_op (fst r) = Some (op_id, k) \<and> weight (fst r) < weight en \<and>
     (\<exists>a. fst (snd r) = [a] \<and> is_bulk a) \<and> (snd (snd r) = None \<or> snd (snd r) = current_deadline (fst r))"

lemmas progress_defs = ended_def goes_on_def weight_def

lemma reply_progress:
  assumes "taken_inv k en"
  shows "ended op_id k (on_time_extension en now op_id k multiplier) \<or> goes_on op_id k en (on_time_extension en now op_id k multiplier)"
    "reply_type k = 0x81 \<Longrightarrow> ended op_id k (on_slot_status en op_id k cs)"
    "reply_type k = 0x82 \<Longrightarrow> ended op_id k (on_parameters en op_id k cs payload)"
    "ended op_id k (on_command_failure en op_id cs error_code)"
    "ended op_id k (on_bad_frame en op_id k e) \<or> goes_on op_id k en (on_bad_frame en op_id k e)"
proof -
  have idle: "pending_op en = None" and counts: "wtx_count en \<le> 60" "abort_drain_count en \<le> 5"
    using assms by (simp_all add: taken_inv_def engine_inv_def pending_inv_def)
  show "ended op_id k (on_time_extension en now op_id k multiplier) \<or> goes_on op_id k en (on_time_extension en now op_id k multiplier)"
    using idle counts by (auto simp: on_time_extension_def engine_defs progress_defs)
  show "ended op_id k (on_slot_status en op_id k cs)" if "reply_type k = 0x81"
    using idle that by (cases k) (auto simp: on_slot_status_def Let_def ended_def)
  show "ended op_id k (on_parameters en op_id k cs payload)" if "reply_type k = 0x82"
    using idle that by (cases k) (auto simp: on_parameters_def card_gone_def ended_def)
  show "ended op_id k (on_command_failure en op_id cs error_code)"
    using idle by (auto simp: on_command_failure_def card_gone_def ended_def)
  show "ended op_id k (on_bad_frame en op_id k e) \<or> goes_on op_id k en (on_bad_frame en op_id k e)"
    using idle counts by (auto simp: on_bad_frame_def engine_defs progress_defs)
qed

lemma data_progress:
  assumes "taken_inv k en" "reply_type k = 0x80" "on_data_block en now op_id k cs cp payload = Some r"
    "cp = ChainBegin \<or> cp = ChainContinue \<Longrightarrow> payload \<noteq> []"
  shows "ended op_id k r \<or> goes_on op_id k en r"
proof -
  have idle: "pending_op en = None" using assms(1) by (simp add: taken_inv_def)
  have ends: "ended op_id k (chain_desync en op_id reason)"
      "ended op_id k (chain_desync (en\<lparr>chain_buffer := []\<rparr>) op_id reason)"
      "ended op_id k (response_too_long en op_id)"
      "ended op_id k ((card_gone en)\<lparr>current_deadline := None\<rparr>, [Complete op_id (Err CardRemoved)], None)"
      "ended op_id k (complete_data en op_id k data)"
      "ended op_id k (complete_data (en\<lparr>chain_buffer := []\<rparr>) op_id k data)" for reason data
    using idle assms(2)
    by (auto simp: chain_desync_def response_too_long_def card_gone_def complete_data_def data_result_def ended_def
        split: PendingOperation.split)
  have block: "ended op_id k (next_response_block en op_id k payload) \<or> goes_on op_id k en (next_response_block en op_id k payload)"
    if "payload \<noteq> []"
    using that idle by (cases payload) (auto simp: next_response_block_def response_too_long_def allocate_seq_def progress_defs Let_def)
  have command: "ended op_id k r \<or> goes_on op_id k en r" if "next_command_block en now op_id k = Some r"
    using that idle by (cases "outgoing_chain en")
      (auto simp: next_command_block_def engine_defs progress_defs)
  show ?thesis
    using assms(3,4) ends block command by (auto simp: on_data_block_def split: if_splits ChainParameter.splits)
qed

text \<open>A data block with nothing in it that announces a further block.\<close>

definition empty_block :: "bytes \<Rightarrow> bool" where
  "empty_block frame \<longleftrightarrow> length frame = 10 \<and> frame ! 0 = 0x80 \<and> (frame ! 9 = 1 \<or> frame ! 9 = 3)"

lemma decoded_block:
  assumes "decode_response frame t slot sq = Ok (DataBlock cs cp payload)"
    "cp = ChainBegin \<or> cp = ChainContinue" "payload = []"
  shows "empty_block frame"
proof -
  have "check_frame frame t slot sq = Ok ()"
    and reply: "decode_reply t (frame ! 7) (frame ! 8) (frame ! 9) (drop 10 frame) = Ok (DataBlock cs cp payload)"
    using assms(1) by (simp_all add: decode_response_def result_simps)
  then have frame: "10 \<le> length frame" "frame ! 0 = t" "t = 0x81 \<longrightarrow> drop 10 frame = []"
    unfolding check_frame_Ok by blast+
  from reply have "reply_of t (DataBlock cs cp payload) (frame ! 7) (frame ! 8) (frame ! 9) (drop 10 frame)"
    unfolding decode_reply_iff [OF frame(3)] .
  then have "t = 0x80" "frame ! 9 = chain_code cp" "payload = drop 10 frame" by (cases; simp)+
  with frame(1,2) assms(2,3) show ?thesis by (auto simp: empty_block_def)
qed

lemma bulk_in_progress:
  assumes "engine_inv en" "pending_op en = Some (op_id, k)" "bulk_in_done en now frame = Some r" "\<not> empty_block frame"
  shows "ended op_id k r \<or> goes_on op_id k en r"
proof -
  let ?en = "en\<lparr>pending_op := None\<rparr>"
  note taken = taken_invI [OF assms(1,2)]
  have t: "expected_response_type en = reply_type k" using assms(1,2) by (simp add: engine_inv_def pending_inv_def)
  have same: "goes_on op_id k ?en = goes_on op_id k en" by (auto simp: goes_on_def)
  note parts = reply_progress [OF taken, of op_id, unfolded same] data_progress [OF taken, of now op_id, unfolded same]
  show ?thesis
  proof (cases "decode_response frame (reply_type k) (b_slot en) (expected_seq en)")
    case (Err e)
    with assms(2,3) t parts(5) show ?thesis by (auto simp: bulk_in_done_def)
  next
    case (Ok reply)
    then show ?thesis
    proof (cases reply)
      case (DataBlock cs cp payload)
      note decoded = Ok [unfolded DataBlock]
      have "on_data_block ?en now op_id k cs cp payload = Some r"
        using assms(2,3) t decoded by (simp add: bulk_in_done_def)
      moreover have "payload \<noteq> []" if "cp = ChainBegin \<or> cp = ChainContinue"
        using decoded_block [OF decoded that] assms(4) by blast
      ultimately show ?thesis using parts(6) decoded_type(1) [OF decoded] by blast
    qed (use Ok assms(2,3) t parts decoded_type in \<open>fastforce simp: bulk_in_done_def\<close>)+
  qed
qed

lemma handle_defined:
  assumes "engine_inv en" "unat now + 5000 < 2 ^ 64"
  shows "handle en now event \<noteq> None"
proof -
  have add: "checked_add now (default_timeout_ms en) = Some (now + 5000)"
    using assms by (simp add: engine_inv_def checked_add_def)
  have block: "on_data_block (en\<lparr>pending_op := None\<rparr>) now op_id k cs cp payload \<noteq> None" for op_id k cs cp payload
    using add by (auto simp: on_data_block_def next_command_block_def allocate_seq_def Let_def simp del: not_None_eq
        split: ChainParameter.split list.split)
  show ?thesis
  proof (cases "(en, now, event)" rule: handle.cases)
    case (2 en' now' op_id op)
    have timeout: "default_timeout_ms e' = default_timeout_ms e"
      if "encode_operation e sq op = (e', k, encoded, t)" "op \<noteq> Abort" for e e' sq k encoded t
      using that by (cases op) (auto simp: Let_def split: if_splits)
    show ?thesis
    proof (cases "start_refusal en op")
      case None
      then show ?thesis
        using 2 add
        by (auto simp: start_def allocate_seq_def Let_def simp del: not_None_eq dest!: timeout split: prod.split)
    qed (use 2 in \<open>simp add: start_def\<close>)
  next
    case (5 en' now' frame)
    with block show ?thesis
      by (auto simp: bulk_in_done_def Let_def simp del: not_None_eq split: option.split result.split CcidResponse.split)
  qed simp_all
qed

section \<open>The loop ends\<close>

fun rank :: "Action \<Rightarrow> nat" where
  "rank (SubmitControl request_type request val idx data) = 2"
| "rank (SubmitBulkOut sq data) = 1"
| "rank _ = 0"

fun reports :: "Action \<Rightarrow> IoCompletion \<Rightarrow> bool" where
  "reports a (IoFailure e) = True"
| "reports (SubmitControl request_type request val idx data) Control = True"
| "reports (SubmitBulkOut sq data) (BulkOut n) = True"
| "reports (SubmitBulkIn n) (BulkIn frame) = (\<not> empty_block frame)"
| "reports a io = False"

text \<open>A transfer of a pending operation: a request on the control pipe is an abort's.\<close>

definition awaits :: "PendingOperation \<Rightarrow> Action \<Rightarrow> bool" where
  "awaits k a \<longleftrightarrow> is_bulk a \<or> rank a = 2 \<and> k = PendingAbort"

definition advances :: "OperationId \<Rightarrow> PendingOperation \<Rightarrow> nat \<Rightarrow> engine_step \<Rightarrow> bool" where
  "advances op_id k m r \<longleftrightarrow> pending_op (fst r) = Some (op_id, k) \<and> snd (snd r) = current_deadline (fst r) \<and>
     (\<exists>a. fst (snd r) = [a] \<and> awaits k a \<and> 3 * weight (fst r) + rank a < m)"

lemma ended_rearm [simp]: "ended op_id k (rearm r) = ended op_id k r"
  by (simp add: ended_def)

lemma reported_progress:
  assumes "engine_inv en" "pending_op en = Some (op_id, k)" "awaits k a" "reports a io"
    "handle en now (IoCompleted io) = Some r"
  shows "ended op_id k r \<or> advances op_id k (3 * weight en + rank a) r"
proof (cases io)
  case (BulkIn frame)
  then obtain n where a: "a = SubmitBulkIn n" "\<not> empty_block frame" using assms(4) by (cases a) auto
  from assms(5) BulkIn obtain r' where r': "bulk_in_done en now frame = Some r'" "r = rearm r'" by auto
  have small: "rank a' \<le> 1" if "is_bulk a'" for a' using that by (cases a') simp_all
  from bulk_in_progress [OF assms(1,2) r'(1) a(2)] show ?thesis
  proof
    assume "goes_on op_id k en r'"
    then obtain a' where "pending_op (fst r') = Some (op_id, k)" "weight (fst r') < weight en" "fst (snd r') = [a']"
      "is_bulk a'" "snd (snd r') = None \<or> snd (snd r') = current_deadline (fst r')" by (auto simp: goes_on_def)
    with small [of a'] show ?thesis by (auto simp: advances_def awaits_def r'(2) rearm_def split: prod.splits)
  qed (simp add: r'(2))
next
  case (BulkOut n)
  then obtain sq data where "a = SubmitBulkOut sq data" using assms(4) by (cases a) auto
  with BulkOut assms(2,5) show ?thesis
    by (cases "n = expected_bulk_out_len en")
      (auto simp: bulk_out_done_def read_reply_def rearm_def ended_def advances_def awaits_def)
next
  case Control
  then have "rank a = 2" "k = PendingAbort" using assms(3,4) by (cases a; auto simp: awaits_def)+
  with Control assms(2,5) show ?thesis
    by (auto simp: control_done_def Let_def rearm_def advances_def awaits_def weight_def)
next
  case (IoFailure e)
  with assms(2,5) show ?thesis by (auto simp: transfer_failed_def card_gone_def Let_def ended_def)
qed

text \<open>What the host is assumed to do: the clock stays in range, and no data block is an empty part.\<close>

definition clock_in_range :: "'h UsbHost \<Rightarrow> bool" where
  "clock_in_range h \<longleftrightarrow> (\<forall>s. snd (instant_now h s) div 1000000 + 5000 < 2 ^ 64)"

definition no_empty_blocks :: "'h UsbHost \<Rightarrow> bool" where
  "no_empty_blocks h \<longleftrightarrow> (\<forall>endpoint buf timeout s s' buf' len.
     bulk_in h endpoint buf timeout s = (s', buf', Ok len) \<longrightarrow> \<not> empty_block (take len buf'))"

definition same_card :: "'h CcidCardTransport \<Rightarrow> 'h CcidCardTransport \<Rightarrow> bool" where
  "same_card ct ct' \<longleftrightarrow> (\<exists>s en. ct' = ct\<lparr>ct_host := s, ct_engine := en\<rparr>)"

lemma same_card_refl [simp]: "same_card ct ct"
  unfolding same_card_def by (rule exI [of _ "ct_host ct"], rule exI [of _ "ct_engine ct"]) simp

lemma same_card_trans: "same_card ct ct' \<Longrightarrow> same_card ct' ct'' \<Longrightarrow> same_card ct ct''"
  by (auto simp: same_card_def) (metis CcidCardTransport.update_convs(1,2))

lemma get_now_facts:
  assumes "get_now h start_instant ct = (ct', now)"
  shows "ct_engine ct' = ct_engine ct" "same_card ct ct'" "clock_in_range h \<Longrightarrow> unat now + 5000 < 2 ^ 64"
proof -
  obtain s t where t: "instant_now h (ct_host ct) = (s, t)" by (cases "instant_now h (ct_host ct)")
  with assms have ct': "ct' = ct\<lparr>ct_host := s\<rparr>" "now = of_nat ((t - start_instant) div 1000000)"
    by (simp_all add: get_now_def)
  then show "ct_engine ct' = ct_engine ct" by simp
  show "same_card ct ct'"
    unfolding same_card_def ct' by (rule exI [of _ s], rule exI [of _ "ct_engine ct"]) simp
  assume "clock_in_range h"
  then have "t div 1000000 + 5000 < 2 ^ 64" using t by (auto simp: clock_in_range_def dest!: spec [of _ "ct_host ct"])
  moreover have "(t - start_instant) div 1000000 \<le> t div 1000000" by (simp add: div_le_mono)
  moreover have "unat now \<le> (t - start_instant) div 1000000" unfolding ct' by (simp add: unat_of_nat)
  ultimately show "unat now + 5000 < 2 ^ 64" by linarith
qed

text \<open>The states of the loop: about to return, or with one transfer to make.\<close>

definition loop_ending :: "OperationId \<Rightarrow> PendingOperation \<Rightarrow> 'h op_loop \<Rightarrow> bool" where
  "loop_ending op_id k st \<longleftrightarrow> (case st of (ct, deadline, queue) \<Rightarrow>
     engine_reachable (ct_engine ct) \<and> pending_op (ct_engine ct) = None \<and>
     (\<exists>x. of_kind k x \<and> (queue = [Complete op_id x] \<or> queue = [CancelTransfers, Complete op_id x])))"

definition loop_working :: "OperationId \<Rightarrow> PendingOperation \<Rightarrow> nat \<Rightarrow> 'h op_loop \<Rightarrow> bool" where
  "loop_working op_id k m st \<longleftrightarrow> (case st of (ct, deadline, queue) \<Rightarrow>
     engine_reachable (ct_engine ct) \<and> pending_op (ct_engine ct) = Some (op_id, k) \<and>
     deadline = current_deadline (ct_engine ct) \<and>
     (\<exists>a. queue = [a] \<and> awaits k a \<and> 3 * weight (ct_engine ct) + rank a < m))"

definition finishes :: "'h UsbHost \<Rightarrow> OperationId \<Rightarrow> nat \<Rightarrow> PendingOperation \<Rightarrow> 'h op_loop \<Rightarrow> bool" where
  "finishes h op_id start_instant k st \<longleftrightarrow> (\<exists>ct' x. execute_loop h op_id start_instant st = Some (ct', x) \<and>
     same_card (fst st) ct' \<and> engine_reachable (ct_engine ct') \<and> pending_op (ct_engine ct') = None \<and> of_kind k x)"

lemma finishes_round:
  assumes "loop_round h op_id start_instant st = Some (Inl st')" "finishes h op_id start_instant k st'"
    "same_card (fst st) (fst st')"
  shows "finishes h op_id start_instant k st"
  using assms same_card_trans by (fastforce simp: finishes_def execute_loop.simps [of h op_id start_instant st])

lemma complete_finishes:
  assumes "engine_reachable (ct_engine ct)" "pending_op (ct_engine ct) = None" "of_kind k x"
  shows "finishes h op_id start_instant k (ct, deadline, [Complete op_id x])"
proof -
  obtain ct' now where now: "get_now h start_instant ct = (ct', now)" by (cases "get_now h start_instant ct")
  have "loop_round h op_id start_instant (ct, deadline, [Complete op_id x]) = Some (Inr (ct', x))"
    by (simp add: loop_round_def now deadline_passed_def split: option.split)
  with assms get_now_facts(1,2) [OF now] show ?thesis by (simp add: finishes_def execute_loop.simps)
qed

lemma ending_finishes:
  assumes "loop_ending op_id k st"
  shows "finishes h op_id start_instant k st"
proof -
  obtain ct deadline queue where st: "st = (ct, deadline, queue)" by (cases st)
  from assms obtain x where state: "engine_reachable (ct_engine ct)" "pending_op (ct_engine ct) = None" "of_kind k x"
    and queue: "queue = [Complete op_id x] \<or> queue = [CancelTransfers, Complete op_id x]"
    by (auto simp: loop_ending_def st)
  from queue show ?thesis
  proof
    assume "queue = [CancelTransfers, Complete op_id x]"
    obtain ct' now where now: "get_now h start_instant ct = (ct', now)" by (cases "get_now h start_instant ct")
    have "loop_round h op_id start_instant st = Some (Inl (ct', None, [Complete op_id x]))"
      unfolding st \<open>queue = _\<close> by (simp add: loop_round_def now deadline_passed_def split: option.split)
    moreover have "finishes h op_id start_instant k (ct', None, [Complete op_id x])"
      using state get_now_facts(1) [OF now] by (intro complete_finishes) simp_all
    ultimately show ?thesis by (rule finishes_round) (simp add: st get_now_facts(2) [OF now])
  qed (use complete_finishes [OF state] st in simp)
qed

lemma engine_event_outcome:
  assumes "engine_reachable (ct_engine ct)" "unat now + 5000 < 2 ^ 64"
    "\<And>r. handle (ct_engine ct) now event = Some r \<Longrightarrow> ended op_id k r \<or> advances op_id k m r"
  obtains st' where "engine_event now event [] ct = Some st'" "same_card ct (fst st')"
    "loop_ending op_id k st' \<or> loop_working op_id k m st'"
proof -
  obtain en acts d where r: "handle (ct_engine ct) now event = Some (en, acts, d)"
    using handle_defined [OF reachable_inv [OF assms(1)] assms(2)] by (metis not_None_eq prod_cases3)
  then have step: "step (ct_engine ct) now event = Some (en, \<lparr>actions = acts, next_deadline = d\<rparr>)"
    by (simp add: step_def transition_def)
  let ?st = "(ct\<lparr>ct_engine := en\<rparr>, d, acts)"
  have "engine_event now event [] ct = Some ?st" by (simp add: engine_event_def step)
  moreover have "same_card ct (fst ?st)"
    unfolding same_card_def by (rule exI [of _ "ct_host ct"], rule exI [of _ en]) simp
  moreover have "loop_ending op_id k ?st \<or> loop_working op_id k m ?st"
    using assms(3) [OF r] stepped [OF assms(1) step]
    by (auto simp: loop_ending_def loop_working_def ended_def advances_def)
  ultimately show thesis by (rule that)
qed

lemma host_state [simp]: "same_card ct (ct\<lparr>ct_host := s\<rparr>)"
  unfolding same_card_def by (rule exI [of _ s], rule exI [of _ "ct_engine ct"]) simp

lemma perform_reports:
  assumes "awaits k a" "no_empty_blocks h"
  obtains ct' io where "perform h timeout a ct = Some (ct', io)" "reports a io" "ct_engine ct' = ct_engine ct"
    "same_card ct ct'"
proof (cases a)
  case (SubmitBulkOut sq data)
  obtain s res where "bulk_out h (ct_bulk_out_endpoint ct) data timeout (ct_host ct) = (s, res)" by (metis surj_pair)
  with SubmitBulkOut that show thesis by (cases res) auto
next
  case (SubmitBulkIn n)
  obtain s buf res where call: "bulk_in h (ct_bulk_in_endpoint ct) (replicate n 0) timeout (ct_host ct) = (s, buf, res)"
    by (metis prod_cases3)
  with SubmitBulkIn assms(2) that show thesis by (cases res) (auto simp: no_empty_blocks_def)
next
  case (SubmitControl request_type request val idx data)
  obtain s res where "control_transfer h request_type request val idx data timeout (ct_host ct) = (s, res)"
    by (metis surj_pair)
  with SubmitControl that show thesis by (cases res) auto
qed (use assms(1) in \<open>simp_all add: awaits_def\<close>)

lemma transfer_round:
  assumes "deadline_passed deadline a now = None" "awaits k a" "get_now h start_instant ct = (ct1, now)"
    "perform h (transfer_timeout ct1 deadline now) a ct1 = Some (ct2, io)" "get_now h start_instant ct2 = (ct3, now')"
  shows "loop_round h op_id start_instant (ct, deadline, [a]) =
    map_option Inl (engine_event now' (IoCompleted io) [] ct3)"
  using assms by (cases a) (simp_all add: loop_round_def awaits_def)

lemma expired_ends:
  assumes "pending_op en = Some (op_id, k)" "deadline_passed (current_deadline en) a now = Some expired"
    "handle en now (DeadlineExpired expired) = Some r"
  shows "ended op_id k r"
  using assms by (auto simp: deadline_passed_def deadline_expired_def ended_def rearm_def split: option.splits if_splits)

lemma working_round:
  assumes "loop_working op_id k m st" "clock_in_range h" "no_empty_blocks h"
  obtains st' m' where "loop_round h op_id start_instant st = Some (Inl st')" "same_card (fst st) (fst st')"
    "loop_ending op_id k st' \<or> loop_working op_id k m' st'" "m' < m"
proof -
  obtain ct deadline queue where st: "st = (ct, deadline, queue)" by (cases st)
  from assms(1) obtain a where state: "engine_reachable (ct_engine ct)" "pending_op (ct_engine ct) = Some (op_id, k)"
    "deadline = current_deadline (ct_engine ct)" "awaits k a" "3 * weight (ct_engine ct) + rank a < m"
    and queue: "queue = [a]" by (auto simp: loop_working_def st)
  obtain ct1 now where now: "get_now h start_instant ct = (ct1, now)" by (cases "get_now h start_instant ct")
  note one = get_now_facts [OF now]
  show thesis
  proof (cases "deadline_passed deadline a now")
    case (Some expired)
    obtain st' where st': "engine_event now (DeadlineExpired expired) [] ct1 = Some st'" "same_card ct1 (fst st')"
      "loop_ending op_id k st' \<or> loop_working op_id k 0 st'"
      by (rule engine_event_outcome [of ct1 now "DeadlineExpired expired" op_id k 0])
        (use state one assms(2) Some expired_ends in auto)
    have "loop_round h op_id start_instant st = Some (Inl st')"
      by (simp add: loop_round_def st queue now Some st'(1))
    from that [OF this _ st'(3)] show thesis
      using same_card_trans [OF one(2) st'(2)] state(5) by (simp add: st)
  next
    case None
    obtain ct2 io where io: "perform h (transfer_timeout ct1 deadline now) a ct1 = Some (ct2, io)" "reports a io"
      "ct_engine ct2 = ct_engine ct1" "same_card ct1 ct2"
      by (rule perform_reports [OF state(4) assms(3)])
    obtain ct3 now' where now': "get_now h start_instant ct2 = (ct3, now')" by (cases "get_now h start_instant ct2")
    note two = get_now_facts [OF now']
    have engine: "ct_engine ct3 = ct_engine ct" using one(1) io(3) two(1) by simp
    obtain st' where st': "engine_event now' (IoCompleted io) [] ct3 = Some st'" "same_card ct3 (fst st')"
      "loop_ending op_id k st' \<or> loop_working op_id k (3 * weight (ct_engine ct) + rank a) st'"
      by (rule engine_event_outcome [of ct3 now' "IoCompleted io" op_id k "3 * weight (ct_engine ct) + rank a"])
        (use state engine two(3) assms(2) reported_progress [OF reachable_inv [OF state(1)] state(2,4) io(2)] in auto)
    have "loop_round h op_id start_instant st = Some (Inl st')"
      by (simp add: st queue transfer_round [OF None state(4) now io(1) now'] st'(1))
    from that [OF this _ st'(3) state(5)] show thesis
      using same_card_trans [OF same_card_trans [OF one(2) io(4)] same_card_trans [OF two(2) st'(2)]] by (simp add: st)
  qed
qed

lemma working_finishes:
  assumes "loop_working op_id k m st" "clock_in_range h" "no_empty_blocks h"
  shows "finishes h op_id start_instant k st"
  using assms(1)
proof (induction m arbitrary: st rule: less_induct)
  case (less m)
  obtain st' m' where "loop_round h op_id start_instant st = Some (Inl st')" "same_card (fst st) (fst st')"
    "loop_ending op_id k st' \<or> loop_working op_id k m' st'" "m' < m"
    by (rule working_round [OF less.prems assms(2,3)])
  with less.IH ending_finishes finishes_round show ?case by blast
qed

section \<open>Operations that return\<close>

fun operation_kind :: "Operation \<Rightarrow> PendingOperation" where
  "operation_kind (PowerOn voltage) = PendingPowerOn"
| "operation_kind PowerOff = PendingPowerOff"
| "operation_kind GetSlotStatus = PendingGetSlotStatus"
| "operation_kind GetParameters = PendingGetParameters"
| "operation_kind (SetParametersT0 fi_di guard_time waiting_integer clock_stop inverse_convention) = PendingSetParametersT0"
| "operation_kind (TransferBlock b_wi level data) = PendingTransferBlock"
| "operation_kind (Secure b_wi level data) = PendingSecure"
| "operation_kind Abort = PendingAbort"

lemma encode_operation_kind_of:
  "op \<noteq> Abort \<Longrightarrow> encode_operation en sq op = (en', k, encoded, t) \<Longrightarrow> k = operation_kind op"
  by (cases op) (auto simp: Let_def split: if_splits)

lemma start_progress:
  assumes "pending_op en = None" "handle en now (Start op_id op) = Some r"
  shows "ended op_id (operation_kind op) r \<or> advances op_id (operation_kind op) (3 * weight (fst r) + 3) r"
proof -
  obtain en' acts d where r: "r = (en', acts, d)" by (cases r)
  with assms(2) have "start en now op_id op = Some (en', acts, d)" by simp
  then show ?thesis
  proof (cases rule: start_cases)
    case refused
    with assms(1) show ?thesis by (simp add: r ended_def)
  next
    case (aborting at)
    then show ?thesis by (simp add: r advances_def awaits_def abort_request_def arm_deadline_def)
  next
    case (sent en1 k encoded t at)
    with encode_operation_kind_of [OF sent(2,3)] show ?thesis
      by (simp add: r advances_def awaits_def arm_deadline_def)
  qed
qed

text \<open>A card that an operation can be started on.\<close>

definition ready_card :: "'h UsbHost \<Rightarrow> 'h CcidCardTransport \<Rightarrow> bool" where
  "ready_card h ct \<longleftrightarrow> clock_in_range h \<and> no_empty_blocks h \<and>
     engine_reachable (ct_engine ct) \<and> pending_op (ct_engine ct) = None"

lemma execute_op_returns:
  assumes "ready_card h ct"
  shows "\<exists>ct' r. execute_op h op ct = Some (ct', r) \<and> ready_card h ct' \<and>
    same_card (ct\<lparr>ct_next_op_id := ct_next_op_id ct + 1\<rparr>) ct' \<and> of_kind (operation_kind op) r"
proof -
  let ?ct = "ct\<lparr>ct_next_op_id := ct_next_op_id ct + 1\<rparr>" and ?id = "ct_next_op_id ct"
  obtain s start_instant where clock: "instant_now h (ct_host ct) = (s, start_instant)" by (metis surj_pair)
  obtain ct1 now where now: "get_now h start_instant (?ct\<lparr>ct_host := s\<rparr>) = (ct1, now)" by (metis surj_pair)
  note one = get_now_facts [OF now]
  have ready: "engine_reachable (ct_engine ct1)" "pending_op (ct_engine ct1) = None" "unat now + 5000 < 2 ^ 64"
    "clock_in_range h" "no_empty_blocks h"
    using assms one(1,3) by (simp_all add: ready_card_def)
  define m where "m = 3 * weight (fst (the (handle (ct_engine ct1) now (Start ?id op)))) + 3"
  obtain st where st: "engine_event now (Start ?id op) [] ct1 = Some st" "same_card ct1 (fst st)"
    "loop_ending ?id (operation_kind op) st \<or> loop_working ?id (operation_kind op) m st"
    by (rule engine_event_outcome [OF ready(1,3), of "Start ?id op" ?id "operation_kind op" m])
      (use start_progress [OF ready(2)] in \<open>auto simp: m_def simp del: handle.simps\<close>)
  then have "finishes h ?id start_instant (operation_kind op) st"
    using ending_finishes working_finishes [OF _ ready(4,5)] by blast
  moreover have "same_card ?ct (fst st)" using same_card_trans [OF host_state same_card_trans [OF one(2) st(2)]] .
  ultimately show ?thesis
    using ready(4,5) same_card_trans
    by (fastforce simp: finishes_def execute_op_def clock now st(1) ready_card_def)
qed

section \<open>Exchanges over an executor\<close>

text \<open>
  An executor that returns from every state it is ready in, and is ready again; and a preparation that
  sends GET RESPONSE as it is. Exchanges over it return, and what they execute is the command and then
  GET RESPONSE commands.
\<close>

locale op_executor =
  fixes exec :: "'s executor" and prep :: "'s \<Rightarrow> bytes \<Rightarrow> (bytes, CcidError) result" and ready :: "'s \<Rightarrow> bool"
  assumes exec_returns: "ready s \<Longrightarrow> \<exists>s' r. exec op s = Some (s', r) \<and> ready s'"
    and get_response_kept: "prep s (get_response_bytes le) = Ok c \<Longrightarrow> c = get_response_bytes le"
begin

lemma transfer_block_returns: "ready s \<Longrightarrow> \<exists>s' r. transfer_block exec data s = Some (s', r) \<and> ready s'"
  using exec_returns [of s "TransferBlock 0 0 data"] by (auto simp: transfer_block_def)

lemma get_response_loop_returns:
  "ready s \<Longrightarrow> \<exists>s' r. get_response_loop exec prep left combined le wrong s = Some (s', r) \<and> ready s'"
proof (induction left arbitrary: combined le wrong s)
  case (Suc left)
  show ?case
  proof (cases "prep s (get_response_bytes le)")
    case (Ok command)
    obtain s' r where "transfer_block exec command s = Some (s', r)" "ready s'"
      using transfer_block_returns [OF Suc.prems] by blast
    with Ok Suc.IH [OF this(2)] show ?thesis by (cases r) (auto split: sum.split)
  qed (use Suc.prems in simp)
qed simp

lemma run_exchange_returns: "ready s \<Longrightarrow> \<exists>s' r. run_exchange exec prep apdu s = Some (s', r) \<and> ready s'"
proof -
  assume "ready s"
  then obtain s' r where "transfer_block exec apdu s = Some (s', r)" "ready s'" using transfer_block_returns by blast
  with get_response_loop_returns [OF this(2)] show ?thesis by (cases r) (auto simp: run_exchange_def)
qed

lemma transmit_returns: "ready s \<Longrightarrow> \<exists>s' r. exchange_transmit exec prep command s = Some (s', r) \<and> ready s'"
proof (cases "prep s (cmd_bytes command)")
  case (Ok prepared)
  assume "ready s"
  then obtain s' r where run: "run_exchange exec prep prepared s = Some (s', r)" "ready s'" using run_exchange_returns by blast
  with Ok run_exchange_returns [OF this(2)] show ?thesis
    by (auto simp: exchange_transmit_def split: option.split result.split TransportOutcome.split)
qed (simp add: exchange_transmit_def)

lemma credential_returns:
  "ready s \<Longrightarrow> \<exists>s' r. exchange_transmit_credential exec prep command s = Some (s', r) \<and> ready s'"
  using run_exchange_returns
  by (cases "prep s (credential_wire command)") (auto simp: exchange_transmit_credential_def expose_wire_def)

text \<open>The operations an exchange executes, in order.\<close>

end

definition recording_exec :: "'s executor \<Rightarrow> ('s \<times> Operation list) executor" where
  "recording_exec exec op state =
     (case state of (s, log) \<Rightarrow> map_option (\<lambda>(s', r). ((s', log @ [op]), r)) (exec op s))"

definition get_response_op :: "u8 \<Rightarrow> Operation" where
  "get_response_op le = TransferBlock 0 W_LEVEL_NONE (get_response_bytes le)"

lemma transfer_block_recorded:
  "transfer_block (recording_exec exec) data (s, log) =
     map_option (\<lambda>(s', r). ((s', log @ [TransferBlock 0 0 data]), r)) (transfer_block exec data s)"
  by (simp add: transfer_block_def recording_exec_def option.map_comp comp_def case_prod_beta)

context op_executor
begin

lemma get_response_loop_recorded:
  "get_response_loop exec prep left combined le wrong s = Some (s', r) \<Longrightarrow>
   \<exists>les. length les \<le> left \<and> get_response_loop (recording_exec exec) (\<lambda>(s, log). prep s) left combined le wrong (s, log) =
     Some ((s', log @ map get_response_op les), r)"
proof (induction left arbitrary: combined le wrong s log)
  case 0
  then show ?case by simp
next
  case (Suc left)
  show ?case
  proof (cases "prep s (get_response_bytes le)")
    case (Err e)
    with Suc.prems show ?thesis by (intro exI [of _ "[]"]) simp
  next
    case (Ok command)
    then have command: "command = get_response_bytes le" by (rule get_response_kept)
    from Suc.prems Ok obtain s1 res where block: "transfer_block exec command s = Some (s1, res)"
      by (auto split: option.splits)
    have recorded: "transfer_block (recording_exec exec) command (s, log) = Some ((s1, log @ [get_response_op le]), res)"
      using block unfolding command by (simp add: transfer_block_recorded get_response_op_def)
    show ?thesis
    proof (cases "\<exists>chained combined' le' wrong'. res = Ok chained \<and> chain_decision combined wrong chained = Inl (combined', le', wrong')")
      case True
      then obtain chained combined' le' wrong' where goes: "res = Ok chained"
        "chain_decision combined wrong chained = Inl (combined', le', wrong')" by blast
      with Suc.prems Ok block have "get_response_loop exec prep left combined' le' wrong' s1 = Some (s', r)" by simp
      from Suc.IH [OF this, of "log @ [get_response_op le]"] obtain les where "length les \<le> left"
        "get_response_loop (recording_exec exec) (\<lambda>(s, log). prep s) left combined' le' wrong' (s1, log @ [get_response_op le]) =
           Some ((s', (log @ [get_response_op le]) @ map get_response_op les), r)" by blast
      with Ok recorded goes show ?thesis by (intro exI [of _ "le # les"]) simp
    next
      case False
      then show ?thesis
        using Suc.prems Ok block recorded
        by (intro exI [of _ "[le]"]) (auto split: result.splits sum.splits)
    qed
  qed
qed

lemma run_exchange_recorded:
  assumes "run_exchange exec prep apdu s = Some (s', r)"
  shows "\<exists>les. length les \<le> 256 \<and> run_exchange (recording_exec exec) (\<lambda>(s, log). prep s) apdu (s, log) =
    Some ((s', log @ TransferBlock 0 0 apdu # map get_response_op les), r)"
proof -
  from assms obtain s1 res where block: "transfer_block exec apdu s = Some (s1, res)"
    by (auto simp: run_exchange_def split: option.splits)
  show ?thesis
  proof (cases "\<exists>first. res = Ok first \<and> rsp_sw1 first = 0x61")
    case True
    with assms block get_response_loop_recorded [of 256 _ _ 0 s1 s' r "log @ [TransferBlock 0 0 apdu]"]
    show ?thesis by (fastforce simp: run_exchange_def transfer_block_recorded)
  next
    case False
    with assms block show ?thesis
      by (intro exI [of _ "[]"]) (auto simp: run_exchange_def transfer_block_recorded split: result.splits if_splits)
  qed
qed

end

lemma prepare_get_response:
  "prepare_command_bytes (get_response_bytes le) proto level = Ok c \<Longrightarrow> c = get_response_bytes le"
  by (auto simp: prepare_command_bytes_def t0_case3_from_short_case4_def get_response_bytes_def
      get_response_into_apdu_def allow_wrong_le_retry_def from_wire_def Let_def split: if_splits option.splits)

interpretation ccid: op_executor "execute_op h" card_prepare "ready_card h" for h
proof
  show "\<exists>ct' r. execute_op h op ct = Some (ct', r) \<and> ready_card h ct'" if "ready_card h ct" for op ct
    using execute_op_returns [OF that] by blast
  show "c = get_response_bytes le" if "card_prepare ct (get_response_bytes le) = Ok c" for ct :: "'a CcidCardTransport" and le c
    using that by (simp add: card_prepare_def prepare_get_response)
qed

section \<open>A card that announces more\<close>

text \<open>
  \<open>announced exec le s parts raw s'\<close>: asked for \<open>le\<close> octets, the card gives the parts one by one, each with
  some data and the length to ask for next, and then the raw response.
\<close>

fun announced :: "'s executor \<Rightarrow> u8 \<Rightarrow> 's \<Rightarrow> (bytes \<times> u8) list \<Rightarrow> bytes \<Rightarrow> 's \<Rightarrow> bool" where
  "announced exec le s [] raw s' \<longleftrightarrow> exec (get_response_op le) s = Some (s', Ok (TransferBlockResult raw))"
| "announced exec le s ((part, le') # parts) raw s' \<longleftrightarrow> part \<noteq> [] \<and>
     (case exec (get_response_op le) s of
        Some (s1, Ok (TransferBlockResult raw1)) \<Rightarrow> raw1 = part @ [0x61, le'] \<and> announced exec le' s1 parts raw s'
      | _ \<Rightarrow> False)"

lemma split_status_two: "split_status (body @ [sw1, sw2]) = Some \<lparr>rsp_body = body, rsp_sw1 = sw1, rsp_sw2 = sw2\<rparr>"
  by (simp add: split_status_def nth_append)

lemma get_response_loop_collects:
  assumes "announced exec le s parts (body @ [sw1, sw2]) s'" "sw1 \<noteq> 0x61" "sw1 \<noteq> 0x6C"
    "\<forall>s le. prep s (get_response_bytes le) = Ok (get_response_bytes le)"
    "length parts < left" "length (combined @ concat (map fst parts) @ body) \<le> 2 ^ 16"
  shows "get_response_loop exec prep left combined le wrong s =
    Some (s', Ok (Response \<lparr>rsp_body = combined @ concat (map fst parts) @ body, rsp_sw1 = sw1, rsp_sw2 = sw2\<rparr>))"
  using assms(1,5,6)
proof (induction parts arbitrary: le s left combined wrong)
  case Nil
  then obtain n where left: "left = Suc n" by (cases left) auto
  have "transfer_block exec (get_response_bytes le) s = Some (s', Ok \<lparr>rsp_body = body, rsp_sw1 = sw1, rsp_sw2 = sw2\<rparr>)"
    using Nil by (simp add: transfer_block_def split_status_two get_response_op_def)
  then show ?case using assms(2-4) Nil by (simp add: left chain_decision_def)
next
  case (Cons p parts)
  obtain part le' where p: "p = (part, le')" by (cases p)
  from Cons.prems(2) obtain n where left: "left = Suc n" "length parts < n" by (cases left) auto
  from Cons.prems(1) p obtain s1 where part: "part \<noteq> []"
    "exec (get_response_op le) s = Some (s1, Ok (TransferBlockResult (part @ [0x61, le'])))"
    "announced exec le' s1 parts (body @ [sw1, sw2]) s'"
    by (auto split: option.splits result.splits OperationResult.splits)
  then have "transfer_block exec (get_response_bytes le) s = Some (s1, Ok \<lparr>rsp_body = part, rsp_sw1 = 0x61, rsp_sw2 = le'\<rparr>)"
    by (simp add: transfer_block_def split_status_two get_response_op_def)
  with Cons.IH [OF part(3) left(2), of "combined @ part" 0] Cons.prems(3) assms(4) part(1) show ?case
    by (simp add: left(1) chain_decision_def p)
qed

section \<open>A card behind a host\<close>

text \<open>A host that takes every message, gives the frames of its state one by one, and whose clock stands.\<close>

definition sample_host :: "bytes list UsbHost" where
  "sample_host =
     \<lparr>bulk_out = (\<lambda>endpoint data timeout frames. (frames, Ok (length data))),
      bulk_in = (\<lambda>endpoint buf timeout frames. case frames of
          [] \<Rightarrow> ([], buf, Err CcidTimeout)
        | frame # frames \<Rightarrow> if empty_block frame then (frames, frame, Err CcidTimeout) else (frames, frame, Ok (length frame))),
      control_transfer = (\<lambda>request_type request val idx data timeout frames. (frames, Ok 0)),
      instant_now = (\<lambda>frames. (frames, 0))\<rparr>"

definition sample_card :: "bytes list \<Rightarrow> bytes list CcidCardTransport" where
  "sample_card frames =
     \<lparr>ct_host = frames, ct_engine = sample_engine, ct_descriptor = sample_descriptor, ct_bulk_out_endpoint = 2,
      ct_bulk_in_endpoint = 0x81, ct_atr = \<lparr>convention = Direct, atr_t0 = t0_from_byte 0, interface_groups = [],
        historical = [], tck = None\<rparr>, ct_protocol = T1, ct_next_op_id = 1, ct_timeout_ms = 5000\<rparr>"

lemma sample_ready: "ready_card sample_host (sample_card frames)"
proof -
  have "no_empty_blocks sample_host"
    by (auto simp: no_empty_blocks_def sample_host_def split: list.splits if_splits)
  moreover have "clock_in_range sample_host" by (simp add: clock_in_range_def sample_host_def)
  moreover have "pending_op sample_engine = None" by (simp add: sample_engine_def engine_new_def)
  ultimately show ?thesis by (simp add: ready_card_def sample_card_def sample_reachable)
qed

section \<open>Properties\<close>






text \<open>A card that answers its first command with two octets of three, and the next one with the third.\<close>

definition sample_exec :: "nat executor" where
  "sample_exec op n =
     Some (Suc n, Ok (TransferBlockResult (if n = 0 then [1, 2, 0x61, 1] else [3, 0x90, 0])))"


end
