(* ===== verification/Spec2Isabelle.thy ===== *)
theory Spec2Isabelle
  imports Ber Iso7816 Rapp_Machines Rapp_Session Rapp_Sar Rapp_Wire Card_Lengths Pin_Cache Pace_Channel
    Ccid_Transport
begin

text \<open>
  Verification of the refineid core.

  The program speaks to Finnish identity cards and lets one device use the card of another. Five
  of its layers are modelled. The reader layer (\<open>crates/ccid\<close>, \<open>crates/atr\<close>) drives a USB card reader:
  it reads the card's answer to reset, sends messages to the reader through a protocol engine and
  offers the result as a card transport. The card layer builds and reads the byte strings exchanged with a
  card: BER-TLV objects (\<open>crates/ber\<close>), command and response APDUs (\<open>crates/apdu\<close>), and the
  PKCS\#15 files (\<open>crates/pkcs15\<close>). The authentication layer (\<open>crates/auth\<close>,
  \<open>crates/pin-cache\<close>) runs on a card transport: it reads retry counters, refuses what would spend
  a last try, presents PINs and the PUK, changes and unblocks PINs and activates a card. The
  channel layer (\<open>crates/pace\<close>) agrees on keys with the card by a password and protects every
  command and answer with them; a channel is a card transport again, so the authentication layer
  runs on it unchanged. The remote layer (\<open>crates/rapp\<close>) pairs two devices, opens sessions between them and carries operations; its
  machines decide what may happen when, its wire format says which bytes a message is.

  \<^bold>\<open>How the source is modelled.\<close> Every definition is executable. Machine integers are words of
  their width, with the source's checked or saturating arithmetic written out; \<open>usize\<close> is a natural
  number. A \<open>Result\<close> is a value of the type \<open>result\<close> of \<open>Prelude\<close>, and \<open>and_then\<close> is the
  question mark operator. A function that talks to a card takes a \<open>CardTransport\<close>, a pair of
  functions on an arbitrary card state, and returns the state with its result; the card itself is
  never modelled, so what is proved holds for any card, or for any card with a stated property.
  The names are those of the source, with a prefix or suffix where a name is taken.

  \<^bold>\<open>Theories.\<close>
  \<^item> \<open>Prelude\<close>: results, checked arithmetic, big-endian numbers, and the locales \<open>record_codec\<close>
    and \<open>record_reader\<close>, the contract between an encoder of self-delimiting records and a reader,
    with the lemmas that iterating over encoded records gives them back.
  \<^item> \<open>Rust_Strings\<close>: UTF-8 validity, the decimal and hexadecimal forms and the character tests the
    sources use. \<open>Card_Transport\<close> (\<open>transport.rs\<close>): the transport, operations on it and their
    sequencing, and a transport that records what is sent.
  \<^item> \<open>Ber\<close> (\<open>crates/ber/src/lib.rs\<close>): encoder, parser and iterator, which interpret the two
    locales. Round trips, bounds on every parsed object, and rejection of every truncation.
  \<^item> \<open>Status_Word\<close>, \<open>Apdu\<close>, \<open>Iso7816\<close> (\<open>crates/apdu/src\<close>): status words are decoded without loss;
    commands are encoded exactly; a chain delivers its data to a card that collects chained
    commands; credential commands carry the credential and nothing else; a wrong length is corrected
    at most once and only for reading commands.
  \<^item> \<open>Pkcs15_Aod\<close> (\<open>crates/pkcs15/src/aod.rs\<close>): the directory of authentication objects is read
    exactly. \<open>Pkcs15_Token\<close> (\<open>token_info.rs\<close>, \<open>token_serial.rs\<close>): the token information file field
    by field. \<open>Pkcs15_Fs\<close> (\<open>fs.rs\<close>): selecting and reading files; every read ends within its bounds
    and, on a card that serves its files, returns what the file holds.
  \<^item> \<open>Card_Credentials\<close> (\<open>credentials.rs\<close>, \<open>retry_risk.rs\<close>, \<open>pin_lengths.rs\<close> and the types of
    \<open>verify.rs\<close> in \<open>crates/auth/src\<close>): the retry floor and the accepted lengths, characterized
    exactly.
  \<^item> \<open>Card_Verify\<close> (\<open>verify.rs\<close>): status probes and verification. One verification presents the PIN
    once, in the block its card numbering asks for.
  \<^item> \<open>Card_Manage\<close> (\<open>manage.rs\<close>, \<open>activation.rs\<close>): changing, unblocking, activation, health report.
    Against a card that counts the PUK's tries, no sequence of calls spends the last two.
  \<^item> \<open>Card_Lengths\<close> (\<open>pin_lengths.rs\<close>): the lengths a card lists are read and enforced.
  \<^item> \<open>Pace_Sm\<close> (\<open>crates/pace/src/secure_messaging.rs\<close>, \<open>crypto/symmetric.rs\<close>): over a card that holds
    the same keys the channel is transparent; what it returns is authenticated; long reads are split
    without loss.
  \<^item> \<open>Pace_Access\<close> (\<open>can.rs\<close>, \<open>card_access.rs\<close>, \<open>commands.rs\<close>) and \<open>Pace_Handshake\<close>
    (\<open>handshake.rs\<close>, \<open>crypto/curve.rs\<close>, \<open>crates/auth/src/pace_password.rs\<close>): the card's suites are
    read exactly; a handshake with a card that follows the protocol ends with the same keys at both
    ends; no session is returned without the card's token; at most five commands are sent, and past
    the first only above the retry floor.
  \<^item> \<open>Pace_Channel\<close> (\<open>crates/auth/src/pace_channel.rs\<close> and the channel types of \<open>crates/pace\<close>): PIN
    management on an opened channel. The locale \<open>counter_channel\<close> (a transport and its counter
    record) is interpreted on the PUK and the PIN 1 channel; the record only falls, and the last two
    tries of the PUK are kept.
  \<^item> \<open>Atr\<close> (\<open>crates/atr/src/lib.rs\<close>): the answer to reset and its historical bytes, accepted exactly in
    its wire form.
  \<^item> \<open>Ccid_Codec\<close> (\<open>error.rs\<close>, \<open>codec.rs\<close>, \<open>descriptor.rs\<close> of \<open>crates/ccid/src\<close>): messages to and from the
    reader and its functional descriptor. \<open>Ccid_Engine\<close> (\<open>engine.rs\<close>): the state machine of a slot, one
    definition per event and reply. \<open>Ccid_Slot\<close>: its invariant and what every event does to the pending
    operation. \<open>Ccid_Exchange\<close>: over every sequence of events an operation is completed once, a slot
    that lost an exchange is recovered by an abort only, messages fit the reader, long commands are
    sent in full and responses in blocks joined in order.
  \<^item> \<open>Ccid_Transport\<close> (\<open>transport.rs\<close>): the loop over the engine, power, parameters and APDU exchanges.
    Every operation returns; a credential command is executed once; a response announced piece by
    piece is collected whole. The locale \<open>op_executor\<close> (an executor of operations that returns) is
    interpreted on the transport's own loop.
  \<^item> \<open>Pin_Cache\<close> (\<open>crates/pin-cache/src/lib.rs\<close>): a rejected PIN is not offered again to the same
    card, and with a collision-free keyed hash nothing else is refused.
  \<^item> \<open>Rapp_State\<close> (\<open>crates/rapp/src/state.rs\<close>): the pairing, session and operation machines, arm
    by arm, and the endpoint state. \<open>Rapp_Model\<close> holds the published model of
    \<open>doc/protocols\<close> as a table and shows that the machines implement it. \<open>Rapp_Machines\<close> states
    what the machines guarantee over any sequence of inputs: custody of secrets, one command per
    approval, one result per operation. Its locale \<open>logged_machine\<close> (a machine, a log and an
    inductive invariant) is interpreted on the three machines.
  \<^item> \<open>Rapp_Session\<close> (\<open>liveness.rs\<close>, \<open>pairing_attempts.rs\<close>, \<open>session_end.rs\<close>, the replay cache of
    \<open>routing.rs\<close>): spacing of attempts and pings through the locale \<open>spaced_gate\<close>, silence closes
    a session once, a nonce is accepted once within the window.
  \<^item> \<open>Rapp_Sar\<close> (\<open>ble_sar.rs\<close>): segmentation and reassembly, with their bounds.
  \<^item> \<open>Rapp_Cbor\<close>, \<open>Rapp_Wire\<close> (\<open>wire.rs\<close>): deterministic CBOR, the schema of every message body, the
    envelope and the sequence guard. Decoding accepts exactly the encodings of well-formed
    values; a channel accepts messages in order and once each.

  \<^bold>\<open>Bounds.\<close> No definition uses fuel. The recursive functions terminate by structural recursion or
  by a measure (remaining input, nesting depth), so each returns on every input. Two loops
  may run forever and are partial functions: drawing a scalar until it is in range, which the
  property about the handshake shows to return once a draw is in range, and driving the reader until
  an operation completes, which returns by a measure on what the engine still lets the reader ask for.
  The loop over GET RESPONSE recurses on the 256 rounds the source allows. Lengths are bounded only where the
  source bounds them.

  \<^bold>\<open>Constants.\<close> Numeric constants of the sources are definitions or abbreviations under their own
  names; a constant of one line is not mapped separately from the operation that uses it.

  \<^bold>\<open>Parameters.\<close> The keyed hash of the PIN cache, the sealing of a channel message, the block cipher,
  hash, curve and random source of the handshake, the USB host with its clock and the card behind a transport are arguments of the definitions that use them; what a property needs of them
  is a hypothesis of that property, with a concrete instance in its witness.

  \<^bold>\<open>Not modelled.\<close> Zeroization, \<open>Display\<close> and \<open>Debug\<close> have no value to speak of in the model. The
  adapters to PC/SC and the network and the polling for readers are input and output; the USB host is
  the parameter of the reader layer. The Noise and CPace handshakes,
  digests, signatures and the XML and PDF libraries are external code.
\<close>

end
